(* ===== verification/GoProgram.thy ===== *)
theory GoProgram
  imports Prelude
begin

text \<open>
  Error values and effectful functions. A Go function that calls the cloud or the cluster,
  or changes the controller's state, is a \<open>prog\<close>: a function from the state to an outcome
  and the new state. Deferred calls are \<open>deferP\<close>. The locale \<open>step_contract\<close> proves once,
  for any reflexive and transitive relation between states, that the ways programs are
  composed keep it; the component theories interpret it for the relations they need.
\<close>

section \<open>Errors\<close>

text \<open>
  \<open>Errorf\<close> is an error made by \<open>fmt.Errorf\<close> (its text), \<open>AwsErr\<close> one of the cloud SDK
  (\<open>awserr.Error\<close>: its code and its text), \<open>KubeErr\<close> one of the cluster's API (whether it is
  \<open>AlreadyExists\<close>, and its text), \<open>OsErr\<close> one of the operating system (whether it is
  \<open>os.IsNotExist\<close>, and its text), \<open>StatusErr\<close> a gRPC status.
\<close>

datatype code =
  InvalidArgument | NotFound | AlreadyExists | Aborted | Internal | Unimplemented

datatype gerror =
    Errorf string
  | AwsErr string string
  | KubeErr bool string
  | OsErr bool string
  | StatusErr code string

fun code_name :: "code \<Rightarrow> string" where
  "code_name InvalidArgument = ''InvalidArgument''"
| "code_name NotFound = ''NotFound''"
| "code_name AlreadyExists = ''AlreadyExists''"
| "code_name Aborted = ''Aborted''"
| "code_name Internal = ''Internal''"
| "code_name Unimplemented = ''Unimplemented''"

text \<open>\<open>err.Error()\<close>.\<close>

fun errText :: "gerror \<Rightarrow> string" where
  "errText (Errorf m) = m"
| "errText (AwsErr c m) = m"
| "errText (KubeErr b m) = m"
| "errText (OsErr b m) = m"
| "errText (StatusErr c m) = ''rpc error: code = '' @ code_name c @ '' desc = '' @ m"

section \<open>Programs\<close>

text \<open>
  \<open>Ret\<close> is a normal return, \<open>Fail\<close> a return with a non-nil error, \<open>Panic\<close> a run-time panic
  (a nil dereference, an index out of range), \<open>Blocked\<close> a goroutine that waits for a lock
  which nothing in this run releases.
\<close>

datatype 'a outcome = Ret 'a | Fail gerror | Panic string | Blocked

type_synonym ('s, 'a) prog = "'s \<Rightarrow> 'a outcome \<times> 's"

definition retP :: "'a \<Rightarrow> ('s, 'a) prog" where
  "retP a s = (Ret a, s)"

definition failP :: "gerror \<Rightarrow> ('s, 'a) prog" where
  "failP e s = (Fail e, s)"

definition panicP :: "string \<Rightarrow> ('s, 'a) prog" where
  "panicP m s = (Panic m, s)"

text \<open>\<open>x, err := m(); if err != nil { return err }; f(x)\<close>\<close>

definition bindP :: "('s, 'a) prog \<Rightarrow> ('a \<Rightarrow> ('s, 'b) prog) \<Rightarrow> ('s, 'b) prog" where
  "bindP m f s = (case m s of
       (Ret a, t) \<Rightarrow> f a t
     | (Fail e, t) \<Rightarrow> (Fail e, t)
     | (Panic p, t) \<Rightarrow> (Panic p, t)
     | (Blocked, t) \<Rightarrow> (Blocked, t))"

text \<open>\<open>x, err := m()\<close> with the error kept as a value for the code that inspects it.\<close>

definition tryP :: "('s, 'a) prog \<Rightarrow> ('s, gerror + 'a) prog" where
  "tryP m s = (case m s of
       (Ret a, t) \<Rightarrow> (Ret (Inr a), t)
     | (Fail e, t) \<Rightarrow> (Ret (Inl e), t)
     | (Panic p, t) \<Rightarrow> (Panic p, t)
     | (Blocked, t) \<Rightarrow> (Blocked, t))"

text \<open>\<open>if err != nil { return g(err) }\<close>: a returned error is wrapped.\<close>

definition wrapP :: "(gerror \<Rightarrow> gerror) \<Rightarrow> ('s, 'a) prog \<Rightarrow> ('s, 'a) prog" where
  "wrapP g m s = (case m s of
       (Ret a, t) \<Rightarrow> (Ret a, t)
     | (Fail e, t) \<Rightarrow> (Fail (g e), t)
     | (Panic p, t) \<Rightarrow> (Panic p, t)
     | (Blocked, t) \<Rightarrow> (Blocked, t))"

text \<open>
  \<open>defer\<close>: the deferred call runs after the body, on every return and on a panic, and sees
  the outcome (through the named result \<open>err\<close>); it does not run while the body is blocked.
  The outcome of the body stands unless the deferred call itself panics or blocks.
\<close>

definition deferP :: "('a outcome \<Rightarrow> ('s, unit) prog) \<Rightarrow> ('s, 'a) prog \<Rightarrow> ('s, 'a) prog" where
  "deferP d m s = (case m s of
       (Blocked, t) \<Rightarrow> (Blocked, t)
     | (r, t) \<Rightarrow> (case d r t of
           (Panic p, u) \<Rightarrow> (Panic p, u)
         | (Blocked, u) \<Rightarrow> (Blocked, u)
         | (_, u) \<Rightarrow> (r, u)))"

definition whenP :: "bool \<Rightarrow> ('s, unit) prog \<Rightarrow> ('s, unit) prog" where
  "whenP b m = (if b then m else retP ())"

definition getP :: "('s \<Rightarrow> 'a) \<Rightarrow> ('s, 'a) prog" where
  "getP f s = (Ret (f s), s)"

definition modP :: "('s \<Rightarrow> 's) \<Rightarrow> ('s, unit) prog" where
  "modP f s = (Ret (), f s)"

text \<open>A value computed without effects that may be an error.\<close>

definition liftP :: "gerror + 'a \<Rightarrow> ('s, 'a) prog" where
  "liftP r s = (case r of Inl e \<Rightarrow> (Fail e, s) | Inr a \<Rightarrow> (Ret a, s))"

text \<open>Reading through a pointer panics when it is nil.\<close>

definition derefP :: "'a option \<Rightarrow> ('s, 'a) prog" where
  "derefP p s = (case p of
       None \<Rightarrow> (Panic ''invalid memory address or nil pointer dereference'', s)
     | Some a \<Rightarrow> (Ret a, s))"

text \<open>A loop over a list whose body may leave the loop with a value (\<open>Some\<close>) or go on.\<close>

fun eachP :: "'a list \<Rightarrow> ('a \<Rightarrow> ('s, 'b option) prog) \<Rightarrow> ('s, 'b option) prog" where
  "eachP [] f = retP None"
| "eachP (x # xs) f =
     bindP (f x) (\<lambda>r. case r of Some b \<Rightarrow> retP (Some b) | None \<Rightarrow> eachP xs f)"

section \<open>Evaluation\<close>

lemma run_core [run_simps]:
  "retP a s = (Ret a, s)" "failP e s = (Fail e, s)" "panicP p s = (Panic p, s)"
  "getP f s = (Ret (f s), s)" "modP h s = (Ret (), h s)"
  by (simp_all add: retP_def failP_def panicP_def getP_def modP_def)

lemma run_whenP [run_simps]: "whenP b m s = (if b then m s else (Ret (), s))"
  by (simp add: whenP_def retP_def)

lemma bindP_retP [simp]: "bindP (retP a) f = f a"
  by (simp add: fun_eq_iff bindP_def retP_def)

lemma bindP_retP2 [simp]: "bindP m retP = m"
  by (simp add: fun_eq_iff bindP_def retP_def split: prod.splits outcome.splits)

lemma bindP_core:
  "bindP (getP f) g s = g (f s) s" "bindP (modP h) k s = k () (h s)" "bindP (failP e) k' s = (Fail e, s)"
  by (simp_all add: bindP_def getP_def modP_def failP_def)

lemma bindP_assoc: "bindP (bindP m f) g = bindP m (\<lambda>a. bindP (f a) g)"
  by (simp add: fun_eq_iff bindP_def split: prod.splits outcome.splits)

lemma bindP_RetE:
  assumes "bindP m f s = (Ret b, u)"
  obtains a t where "m s = (Ret a, t)" and "f a t = (Ret b, u)"
  using assms by (auto simp: bindP_def split: prod.splits outcome.splits)

lemma bindP_Ret: "m s = (Ret a, t) \<Longrightarrow> bindP m f s = f a t"
  by (simp add: bindP_def)

lemma wrapP_Ret_iff: "wrapP g m s = (Ret a, t) \<longleftrightarrow> m s = (Ret a, t)"
  by (auto simp: wrapP_def split: prod.splits outcome.splits)

lemma tryP_RetE:
  assumes "tryP m s = (Ret r, t)"
  obtains (ok) a where "r = Inr a" "m s = (Ret a, t)"
    | (error) e where "r = Inl e" "m s = (Fail e, t)"
  using assms by (auto simp: tryP_def split: prod.splits outcome.splits)

lemma tryP_not_Fail [simp]: "tryP m s \<noteq> (Fail e, t)"
  by (simp add: tryP_def split: prod.splits outcome.splits)

lemma bindP_tryP:
  "bindP (tryP m) f s = (case m s of
       (Ret a, t) \<Rightarrow> f (Inr a) t
     | (Fail e, t) \<Rightarrow> f (Inl e) t
     | (Panic p, t) \<Rightarrow> (Panic p, t)
     | (Blocked, t) \<Rightarrow> (Blocked, t))"
  by (simp add: bindP_def tryP_def split: prod.splits outcome.splits)

lemma deferP_RetE:
  assumes "deferP d m s = (Ret a, u)"
  obtains t r where "m s = (Ret a, t)" and "d (Ret a) t = (r, u)"
  using assms by (auto simp: deferP_def split: prod.splits outcome.splits)

lemma liftP_Ret_iff: "liftP r s = (Ret a, t) \<longleftrightarrow> r = Inr a \<and> t = s"
  by (auto simp: liftP_def split: sum.splits)

lemma derefP_Ret_iff: "derefP p s = (Ret a, t) \<longleftrightarrow> p = Some a \<and> t = s"
  by (auto simp: derefP_def split: option.splits)

section \<open>Relations kept by programs\<close>

definition keeps :: "('s \<Rightarrow> 's \<Rightarrow> bool) \<Rightarrow> ('s, 'a) prog \<Rightarrow> bool" where
  "keeps R m \<longleftrightarrow> (\<forall>s. R s (snd (m s)))"

lemma keepsD: "keeps R m \<Longrightarrow> m s = (r, t) \<Longrightarrow> R s t"
  by (metis keeps_def snd_conv)

lemma keepsI: "(\<And>s r t. m s = (r, t) \<Longrightarrow> R s t) \<Longrightarrow> keeps R m"
  by (metis keeps_def prod.collapse)

locale step_contract =
  fixes R :: "'s \<Rightarrow> 's \<Rightarrow> bool"
  assumes R_refl: "R s s"
    and R_trans: "R s t \<Longrightarrow> R t u \<Longrightarrow> R s u"
begin

lemma keeps_ret: "keeps R (retP a)"
  by (simp add: keeps_def retP_def R_refl)

lemma keeps_fail: "keeps R (failP e)"
  by (simp add: keeps_def failP_def R_refl)

lemma keeps_panic: "keeps R (panicP p)"
  by (simp add: keeps_def panicP_def R_refl)

lemma keeps_get: "keeps R (getP f)"
  by (simp add: keeps_def getP_def R_refl)

lemma keeps_lift: "keeps R (liftP r)"
  by (simp add: keeps_def liftP_def R_refl split: sum.splits)

lemma keeps_deref: "keeps R (derefP p)"
  by (simp add: keeps_def derefP_def R_refl split: option.splits)

lemma keeps_bind:
  assumes m: "keeps R m" and f: "\<And>a. keeps R (f a)"
  shows "keeps R (bindP m f)"
proof (rule keepsI)
  fix s r u
  assume run: "bindP m f s = (r, u)"
  obtain o1 t where t: "m s = (o1, t)" by (cases "m s")
  then have st: "R s t" using m by (rule keepsD [rotated])
  show "R s u"
  proof (cases o1)
    case (Ret a)
    then have "f a t = (r, u)" using run t by (simp add: bindP_def)
    then have "R t u" using f by (rule keepsD [rotated])
    with st show ?thesis by (rule R_trans)
  qed (use run t st in \<open>auto simp: bindP_def\<close>)
qed

lemma keeps_try: "keeps R m \<Longrightarrow> keeps R (tryP m)"
  by (rule keepsI) (auto simp: tryP_def split: prod.splits outcome.splits dest: keepsD)

lemma keeps_wrap: "keeps R m \<Longrightarrow> keeps R (wrapP g m)"
  by (rule keepsI) (auto simp: wrapP_def split: prod.splits outcome.splits dest: keepsD)

lemma keeps_when: "keeps R m \<Longrightarrow> keeps R (whenP b m)"
  by (simp add: whenP_def keeps_ret)

lemma keeps_defer:
  assumes m: "keeps R m" and d: "\<And>r. keeps R (d r)"
  shows "keeps R (deferP d m)"
proof (rule keepsI)
  fix s r u
  assume run: "deferP d m s = (r, u)"
  obtain o1 t where t: "m s = (o1, t)" by (cases "m s")
  then have st: "R s t" using m by (rule keepsD [rotated])
  obtain o2 v where v: "d o1 t = (o2, v)" by (cases "d o1 t")
  then have "R t v" using d by (rule keepsD [rotated])
  with st have "R s v" by (rule R_trans)
  then show "R s u"
    using run t v st by (auto simp: deferP_def split: outcome.splits)
qed

lemma keeps_each: "(\<And>x. x \<in> set xs \<Longrightarrow> keeps R (f x)) \<Longrightarrow> keeps R (eachP xs f)"
proof (induction xs)
  case Nil
  then show ?case by (simp add: keeps_ret)
next
  case (Cons x xs)
  have tl: "keeps R (eachP xs f)" using Cons by simp
  show ?case
    using Cons.prems tl by (auto intro!: keeps_bind keeps_ret split: option.splits)
qed

lemmas keeps_rules =
  keeps_ret keeps_fail keeps_panic keeps_get keeps_lift keeps_deref
  keeps_bind keeps_try keeps_wrap keeps_when keeps_defer keeps_each

end

end
