(* ===== verification/NasInstance.thy ===== *)
theory NasInstance
  imports GoProgram "HOL-Library.Multiset"
begin

text \<open>
  NAS instances as the cloud SDK describes them, their capacities (pkg/util/util.go) and the
  pure part of \<open>CreateVolume\<close> in pkg/driver/controller.go: the size to provision, the input of
  a create request made from the parameters of the storage class, and the comparison of an
  existing instance with it. Pointer fields of the SDK's structs are options.
\<close>

section \<open>Data of the SDK\<close>

record NASInstance =
  ni_Identifier :: "string option"
  ni_Status :: "string option"
  ni_Type :: "int64 option"
  ni_AllocatedStorage :: "string option"
  ni_NetworkId :: "string option"
  ni_AvailabilityZone :: "string option"
  ni_SecurityGroups :: "string option list" \<comment> \<open>their \<open>NASSecurityGroupName\<close>\<close>
  ni_Endpoint :: "string option option" \<comment> \<open>its \<open>PrivateAddress\<close>\<close>
  ni_NoRootSquash :: "string option"

record CreateNASInstanceInput =
  in_AllocatedStorage :: "int64 option"
  in_AvailabilityZone :: "string option"
  in_Identifier :: "string option"
  in_Type :: "int64 option"
  in_Description :: "string option"
  in_NetworkId :: "string option"
  in_Protocol :: "string option"
  in_SecurityGroups :: "string list"
  in_MasterPrivateAddress :: "string option"

definition pstr :: "string option \<Rightarrow> string" where
  "pstr p = (case p of None \<Rightarrow> '''' | Some s \<Rightarrow> s)"

section \<open>Capacities\<close>

definition Gb :: int64 where
  "Gb = 1024 * 1024 * 1024"

definition RoundBytesToGb :: "int64 \<Rightarrow> int64" where
  "RoundBytesToGb bytes = quot64 (i64 (i64 (bytes + Gb) - 1)) Gb"

definition GbToBytes :: "int64 \<Rightarrow> int64" where
  "GbToBytes gbs = i64 (gbs * Gb)"

definition Min64 :: "int64 \<Rightarrow> int64 \<Rightarrow> int64" where
  "Min64 a b = (if a < b then a else b)"

definition Max64 :: "int64 \<Rightarrow> int64 \<Rightarrow> int64" where
  "Max64 a b = (if a > b then a else b)"

definition minVolumeSize :: int64 where
  "minVolumeSize = 100 * Gb"

text \<open>A capacity range is a nil pointer or the required and the limit bytes.\<close>

type_synonym capacity_range = "(int64 \<times> int64) option"

definition getRequestCapacity :: "capacity_range \<Rightarrow> int64 \<Rightarrow> int64" where
  "getRequestCapacity capRange lo =
     (case capRange of
        None \<Rightarrow> lo
      | Some (rCap, lCap) \<Rightarrow>
          if lCap > 0 then
            (if rCap = 0 then lCap else Min64 (Max64 rCap lo) lCap)
          else Max64 rCap lo)"

definition getRequestCapacityNoMinimum :: "capacity_range \<Rightarrow> int64" where
  "getRequestCapacityNoMinimum capRange = getRequestCapacity capRange 0"

fun alloc_loop :: "int64 \<Rightarrow> int64 \<Rightarrow> int64 \<Rightarrow> nat list \<Rightarrow> int64" where
  "alloc_loop capBytes instanceType allocated [] = allocated"
| "alloc_loop capBytes instanceType allocated (i # is) =
     (let allocated = (if instanceType = 1 then i64 (int i * 1000) else i64 (int i * 100))
      in if GbToBytes allocated \<ge> capBytes then allocated
         else alloc_loop capBytes instanceType allocated is)"

definition getAllocatedStorage :: "int64 \<Rightarrow> int64 \<Rightarrow> int64" where
  "getAllocatedStorage capBytes instanceType =
     alloc_loop capBytes instanceType (if instanceType = 1 then 1000 else 100) [1..<10]"

definition getNasInstancePrivateIP :: "NASInstance \<Rightarrow> string" where
  "getNasInstancePrivateIP n =
     (case ni_Endpoint n of Some (Some ip) \<Rightarrow> ip | _ \<Rightarrow> ''0.0.0.0'')"

definition getNasInstanceCapacityBytes :: "NASInstance \<Rightarrow> ('s, int64) prog" where
  "getNasInstanceCapacityBytes n =
     bindP (derefP (ni_AllocatedStorage n)) (\<lambda>a.
       case ParseInt a of
         (_, Some e) \<Rightarrow> retP 0
       | (capacityGBytes, None) \<Rightarrow> retP (GbToBytes capacityGBytes))"

definition validatePermission :: "string \<Rightarrow> gerror option" where
  "validatePermission permission =
     (if length permission \<noteq> 3 then Some (Errorf ''permission length must be 3 (ex:755)'')
      else if \<exists>c \<in> set permission. (of_char c :: nat) < 48 \<or> (of_char c :: nat) > 55
        then Some (Errorf ''permission character must be 0-7'')
      else None)"

section \<open>The input of a create request\<close>

text \<open>
  \<open>%q\<close>, exact for ASCII arguments (it only makes the text of messages): quotes and
  backslashes are escaped, control characters are written as escapes.
\<close>

definition hex_char :: "nat \<Rightarrow> char" where
  "hex_char n = (if n < 10 then digit_char n else char_of (87 + n))"

definition quote_char :: "char \<Rightarrow> string" where
  "quote_char c = (let n = of_char c :: nat in
     if n = 34 \<or> n = 92 then [CHR 0x5C, c]
     else if n = 7 then [CHR 0x5C, CHR ''a''] else if n = 8 then [CHR 0x5C, CHR ''b'']
     else if n = 12 then [CHR 0x5C, CHR ''f''] else if n = 10 then [CHR 0x5C, CHR ''n'']
     else if n = 13 then [CHR 0x5C, CHR ''r''] else if n = 9 then [CHR 0x5C, CHR ''t'']
     else if n = 11 then [CHR 0x5C, CHR ''v'']
     else if n < 32 \<or> n = 127 then [CHR 0x5C, CHR ''x'', hex_char (n div 16), hex_char (n mod 16)]
     else [c])"

definition quoted :: "string \<Rightarrow> string" where
  "quoted s = [CHR 0x22] @ concat (map quote_char s) @ [CHR 0x22]"

text \<open>
  The parameters are a Go map: an association list without two entries for a key, in the
  order in which this run's \<open>range\<close> visits it.
\<close>

type_synonym params = "(string \<times> string) list"

definition param :: "params \<Rightarrow> string \<Rightarrow> string" where
  "param ps k = pstr (map_of ps k)"

record input_params =
  p_instanceType :: int64
  p_zone :: string
  p_network :: string
  p_description :: string

fun read_params :: "params \<Rightarrow> input_params \<Rightarrow> gerror + input_params" where
  "read_params [] p = Inr p"
| "read_params ((k, v) # ps) p =
     (let low = ToLower k in
      if low = ''instancetype'' then
        (case ParseInt v of
           (_, Some e) \<Rightarrow> Inl (Errorf (''invalid parameter '' @ quoted k))
         | (x, None) \<Rightarrow> read_params ps (p\<lparr>p_instanceType := x\<rparr>))
      else if low = ''zone'' then read_params ps (p\<lparr>p_zone := v\<rparr>)
      else if low = ''networkid'' then read_params ps (p\<lparr>p_network := v\<rparr>)
      else if low = ''description'' then read_params ps (p\<lparr>p_description := v\<rparr>)
      else if low = ''reservedipv4cidr'' \<or> low = ''capacityparinstancegib'' \<or> low = ''shared''
        then read_params ps p
      else Inl (Errorf (''invalid parameter '' @ quoted k)))"

definition default_params :: input_params where
  "default_params = \<lparr>p_instanceType = 0, p_zone = ''east-11'',
     p_network = ''net-COMMON_PRIVATE'', p_description = ''csi-volume''\<rparr>"

definition GenerateNasInstanceInput ::
  "string \<Rightarrow> int64 \<Rightarrow> params \<Rightarrow> gerror + CreateNASInstanceInput" where
  "GenerateNasInstanceInput name capBytes ps =
     (case read_params ps default_params of
        Inl e \<Rightarrow> Inl e
      | Inr p \<Rightarrow> Inr \<lparr>in_AllocatedStorage = Some (getAllocatedStorage capBytes (p_instanceType p)),
          in_AvailabilityZone = Some (p_zone p), in_Identifier = Some name,
          in_Type = Some (p_instanceType p), in_Description = Some (p_description p),
          in_NetworkId = Some (p_network p), in_Protocol = Some ''nfs'',
          in_SecurityGroups = [], in_MasterPrivateAddress = None\<rparr>)"

section \<open>An existing instance\<close>

text \<open>The loop over the security groups, which runs only if their numbers differ.\<close>

fun sg_loop :: "string option list \<Rightarrow> string list \<Rightarrow> ('s, string list) prog" where
  "sg_loop [] ins = retP []"
| "sg_loop (g # gs) ins =
     bindP (derefP g) (\<lambda>name.
       case ins of
         [] \<Rightarrow> panicP ''index out of range''
       | x # xs \<Rightarrow> bindP (sg_loop gs xs) (\<lambda>ms.
           retP (if name \<noteq> x then ''NASSecurityGroupName'' # ms else ms)))"

text \<open>
  The message prints the pointer to the instance's name, not the name (\<open>%v\<close> of a
  \<open>*string\<close>); \<open>ptr\<close> is the text of the pointer.
\<close>

definition compareNasInstanceWithInput ::
  "string \<Rightarrow> NASInstance \<Rightarrow> CreateNASInstanceInput \<Rightarrow> ('s, unit) prog" where
  "compareNasInstanceWithInput ptr n inp =
     bindP (derefP (ni_Type n)) (\<lambda>nt.
     bindP (derefP (in_Type inp)) (\<lambda>it.
     bindP (derefP (in_AllocatedStorage inp)) (\<lambda>is.
     let m1 = (if nt \<noteq> it then [''NASInstanceType''] else []);
         m2 = (if fst (ParseInt (pstr (ni_AllocatedStorage n))) \<noteq> is then [''AllocatedStorage''] else []);
         m3 = (if pstr (ni_NetworkId n) \<noteq> pstr (in_NetworkId inp) then [''NetworkId''] else []);
         m4 = (if pstr (ni_AvailabilityZone n) \<noteq> pstr (in_AvailabilityZone inp)
               then [''AvailabilityZone''] else [])
     in bindP (if length (ni_SecurityGroups n) \<noteq> length (in_SecurityGroups inp)
               then bindP (sg_loop (ni_SecurityGroups n) (in_SecurityGroups inp))
                      (\<lambda>ms. retP (''Number of NASSecurityGroups'' # ms))
               else retP []) (\<lambda>m5.
        let mismatches = m1 @ m2 @ m3 @ m4 @ m5
        in if mismatches \<noteq> []
           then failP (Errorf (''instance '' @ ptr @ '' already exists but doesn't match expected: ['' @
                  Join mismatches '' '' @ '']''))
           else retP ()))))"

section \<open>Capacities and the request\<close>

lemma GbToBytes_small: "0 \<le> g \<Longrightarrow> g \<le> 9000 \<Longrightarrow> GbToBytes g = g * 1073741824"
  by (simp add: GbToBytes_def Gb_def i64_id in_i64_def)

text \<open>The size of one unit of a NAS instance, in GiB.\<close>

definition storage_unit :: "int64 \<Rightarrow> int64" where
  "storage_unit instanceType = (if instanceType = 1 then 1000 else 100)"

lemma alloc_loop_unit:
  assumes "\<forall>i \<in> set is. i < 10"
  shows "alloc_loop cap ty a is =
    (case find (\<lambda>i. GbToBytes (int i * storage_unit ty) \<ge> cap) is of
       Some i \<Rightarrow> int i * storage_unit ty
     | None \<Rightarrow> if is = [] then a else int (last is) * storage_unit ty)"
  using assms
proof (induction "is" arbitrary: a)
  case Nil
  then show ?case by simp
next
  case (Cons i "is")
  have "i64 (int i * 1000) = int i * 1000" "i64 (int i * 100) = int i * 100"
    using Cons.prems by (simp_all add: i64_id in_i64_def)
  with Cons show ?case
    by (auto simp: storage_unit_def Let_def split: option.splits)
qed

lemma find_upt_None: "find P [a..<b] = None \<longleftrightarrow> (\<forall>i. a \<le> i \<and> i < b \<longrightarrow> \<not> P i)"
  by (auto simp: find_None_iff)

lemma find_upt_Some: "find P [a..<b] = Some k \<longleftrightarrow> a \<le> k \<and> k < b \<and> P k \<and> (\<forall>i. a \<le> i \<and> i < k \<longrightarrow> \<not> P i)"
proof
  assume "find P [a..<b] = Some k"
  then obtain j where "j < length [a..<b]" "P ([a..<b] ! j)" "k = [a..<b] ! j"
    "\<forall>i<j. \<not> P ([a..<b] ! i)"
    by (auto simp: find_Some_iff)
  then show "a \<le> k \<and> k < b \<and> P k \<and> (\<forall>i. a \<le> i \<and> i < k \<longrightarrow> \<not> P i)"
    by (auto) (metis add_diff_inverse_nat less_diff_conv2 not_le nat_add_left_cancel_less
        add.commute less_diff_conv)
next
  assume a: "a \<le> k \<and> k < b \<and> P k \<and> (\<forall>i. a \<le> i \<and> i < k \<longrightarrow> \<not> P i)"
  then show "find P [a..<b] = Some k"
    by (auto simp: find_Some_iff intro!: exI [of _ "k - a"])
qed

lemma allocated_units:
  "\<exists>k. 1 \<le> k \<and> k \<le> 9 \<and> getAllocatedStorage cap ty = int k * storage_unit ty \<and>
    (k < 9 \<longrightarrow> cap \<le> GbToBytes (int k * storage_unit ty)) \<and>
    (\<forall>j. 1 \<le> j \<and> j < k \<longrightarrow> GbToBytes (int j * storage_unit ty) < cap)"
proof -
  let ?P = "\<lambda>i. GbToBytes (int i * storage_unit ty) \<ge> cap"
  have run: "getAllocatedStorage cap ty = (case find ?P [1..<10] of
       Some i \<Rightarrow> int i * storage_unit ty | None \<Rightarrow> 9 * storage_unit ty)"
    unfolding getAllocatedStorage_def
    by (subst alloc_loop_unit) (simp_all split: option.split)
  show ?thesis
  proof (cases "find ?P [1..<10]")
    case None
    then have "\<forall>i. 1 \<le> i \<and> i < 10 \<longrightarrow> \<not> ?P i" unfolding find_upt_None .
    then show ?thesis unfolding run None by (intro exI [of _ 9]) (simp add: not_le)
  next
    case (Some k)
    then have "1 \<le> k \<and> k < 10 \<and> ?P k \<and> (\<forall>i. 1 \<le> i \<and> i < k \<longrightarrow> \<not> ?P i)"
      unfolding find_upt_Some .
    then show ?thesis unfolding run Some by (intro exI [of _ k]) (simp add: not_le)
  qed
qed



text \<open>
  A request above 9 units is provisioned with 9 units all the same: the instance is
  smaller than what was asked for, and no error is reported.
\<close>

theorem getAllocatedStorage_too_small:
  assumes "GbToBytes (9 * storage_unit ty) < cap"
  shows "getAllocatedStorage cap ty = 9 * storage_unit ty \<and>
    GbToBytes (getAllocatedStorage cap ty) < cap"
proof -
  obtain k where k: "1 \<le> k" "k \<le> 9" "getAllocatedStorage cap ty = int k * storage_unit ty"
    "k < 9 \<longrightarrow> cap \<le> GbToBytes (int k * storage_unit ty)"
    using allocated_units by blast
  have "GbToBytes (int k * storage_unit ty) \<le> GbToBytes (9 * storage_unit ty)"
    using k(2) by (simp add: GbToBytes_small storage_unit_def)
  then have "k = 9" using k assms by force
  then show ?thesis using k(3) assms by simp
qed

theorem getAllocatedStorage_too_small_witness:
  "GbToBytes (getAllocatedStorage (950 * 1073741824) 0) < 950 * 1073741824"
proof -
  have "GbToBytes (9 * storage_unit 0) < 950 * 1073741824"
    by (simp add: GbToBytes_small storage_unit_def)
  then show ?thesis using getAllocatedStorage_too_small by blast
qed

text \<open>
  The size to provision lies in the requested range: at least the required bytes, at most
  the limit when there is one, and at least the minimum unless the limit is below it.
\<close>

theorem getRequestCapacity_in_range:
  assumes "0 \<le> r" and "0 \<le> l" and "l > 0 \<longrightarrow> r \<le> l"
  shows "r \<le> getRequestCapacity (Some (r, l)) lo \<and>
    (l > 0 \<longrightarrow> getRequestCapacity (Some (r, l)) lo \<le> l) \<and>
    (l = 0 \<or> lo \<le> l \<longrightarrow> lo \<le> getRequestCapacity (Some (r, l)) lo)"
  using assms by (auto simp: getRequestCapacity_def Min64_def Max64_def)

theorem getRequestCapacity_in_range_witness:
  "5 \<le> getRequestCapacity (Some (5, 200)) 100 \<and> getRequestCapacity (Some (5, 200)) 100 \<le> 200"
  using getRequestCapacity_in_range [of 5 200 100] by simp

section \<open>The parameters\<close>

text \<open>The entry of a parameter, found whatever the case of its letters.\<close>

definition low_param :: "params \<Rightarrow> string \<rightharpoonup> string" where
  "low_param ps = map_of (map (\<lambda>(k, v). (ToLower k, v)) ps)"

definition good_entry :: "string \<times> string \<Rightarrow> bool" where
  "good_entry e \<longleftrightarrow> (case e of (k, v) \<Rightarrow>
     ToLower k \<in> {''instancetype'', ''zone'', ''networkid'', ''description'', ''reservedipv4cidr'',
       ''capacityparinstancegib'', ''shared''} \<and>
     (ToLower k = ''instancetype'' \<longrightarrow> snd (ParseInt v) = None))"

definition or_else :: "'a option \<Rightarrow> 'a \<Rightarrow> 'a" where
  "or_else p d = (case p of None \<Rightarrow> d | Some a \<Rightarrow> a)"

lemma or_else_simps [simp]: "or_else None d = d" "or_else (Some a) d = a"
  by (simp_all add: or_else_def)

lemma low_param_simps:
  "low_param [] = Map.empty"
  "low_param ((k, v) # ps) = (low_param ps)(ToLower k \<mapsto> v)"
  by (simp_all add: low_param_def)

lemma low_param_None: "low_param ps k = None \<longleftrightarrow> k \<notin> set (map (\<lambda>e. ToLower (fst e)) ps)"
  by (simp add: low_param_def map_of_eq_None_iff image_image case_prod_beta)

definition looked_up :: "params \<Rightarrow> input_params \<Rightarrow> input_params" where
  "looked_up ps p = \<lparr>
     p_instanceType = or_else (map_option (fst \<circ> ParseInt) (low_param ps ''instancetype'')) (p_instanceType p),
     p_zone = or_else (low_param ps ''zone'') (p_zone p),
     p_network = or_else (low_param ps ''networkid'') (p_network p),
     p_description = or_else (low_param ps ''description'') (p_description p)\<rparr>"

definition set_param :: "string \<Rightarrow> string \<Rightarrow> input_params \<Rightarrow> input_params" where
  "set_param k v p =
     (if k = ''instancetype'' then p\<lparr>p_instanceType := fst (ParseInt v)\<rparr>
      else if k = ''zone'' then p\<lparr>p_zone := v\<rparr>
      else if k = ''networkid'' then p\<lparr>p_network := v\<rparr>
      else if k = ''description'' then p\<lparr>p_description := v\<rparr>
      else p)"

lemma read_params_step:
  "read_params ((k, v) # ps) p =
     (if good_entry (k, v) then read_params ps (set_param (ToLower k) v p)
      else Inl (Errorf (''invalid parameter '' @ quoted k)))"
proof (cases "ToLower k = ''instancetype''")
  case True
  then show ?thesis
    by (cases "ParseInt v") (simp add: good_entry_def set_param_def Let_def split: option.split)
next
  case False
  then show ?thesis by (simp add: good_entry_def set_param_def Let_def)
qed

declare read_params.simps(2) [simp del]

lemma read_params_Inl: "\<exists>e \<in> set ps. \<not> good_entry e \<Longrightarrow> \<exists>m. read_params ps p = Inl m"
proof (induction ps arbitrary: p)
  case (Cons e ps)
  then show ?case by (cases e; cases "good_entry e") (auto simp: read_params_step)
qed simp

lemma looked_up_Cons:
  assumes "low_param ps (ToLower k) = None"
  shows "looked_up ((k, v) # ps) p = looked_up ps (set_param (ToLower k) v p)"
  using assms
  by (cases "ToLower k = ''instancetype''"; cases "ToLower k = ''zone''";
      cases "ToLower k = ''networkid''"; cases "ToLower k = ''description''")
    (simp_all add: looked_up_def low_param_simps set_param_def)

lemma read_params_Inr:
  assumes "\<forall>e \<in> set ps. good_entry e" and "distinct (map (\<lambda>e. ToLower (fst e)) ps)"
  shows "read_params ps p = Inr (looked_up ps p)"
  using assms
proof (induction ps arbitrary: p)
  case Nil
  then show ?case by (simp add: looked_up_def low_param_simps)
next
  case (Cons e ps)
  obtain k v where e: "e = (k, v)" by (cases e)
  have "low_param ps (ToLower k) = None"
    using Cons.prems(2) by (simp add: low_param_None e)
  then show ?case
    using Cons by (simp add: e read_params_step looked_up_Cons)
qed

lemma low_param_perm:
  assumes "mset ps = mset ps'" and "distinct (map (\<lambda>e. ToLower (fst e)) ps)"
  shows "low_param ps = low_param ps'"
proof -
  let ?f = "\<lambda>(k, v). (ToLower k, v)"
  have m: "mset (map ?f ps) = mset (map ?f ps')"
    using assms(1) by (simp only: mset_map)
  have d: "distinct (map fst (map ?f ps))"
    using assms(2) by (simp add: comp_def case_prod_beta)
  have "mset (map fst (map ?f ps)) = mset (map fst (map ?f ps'))"
    using m by (simp only: mset_map)
  then have "distinct (map fst (map ?f ps'))"
    using d mset_eq_imp_distinct_iff by blast
  then show ?thesis
    unfolding low_param_def using d m by (metis map_of_inject_set mset_eq_setD)
qed

text \<open>
  C32. The parameters of a storage class are read without regard to case: with no two of them
  equal up to case, \<open>GenerateNasInstanceInput\<close> fails exactly when one is unknown or its
  instance type is no 64-bit number, and otherwise the input has the values given, the
  defaults for the others, and the storage of \<open>getAllocatedStorage\<close> for its type.
\<close>

theorem GenerateNasInstanceInput_values:
  assumes "distinct (map (\<lambda>e. ToLower (fst e)) ps)"
  shows "if \<forall>e \<in> set ps. good_entry e
    then \<exists>i. GenerateNasInstanceInput name cap ps = Inr i \<and> in_Identifier i = Some name \<and>
      in_Type i = Some (or_else (map_option (fst \<circ> ParseInt) (low_param ps ''instancetype'')) 0) \<and>
      in_AvailabilityZone i = Some (or_else (low_param ps ''zone'') ''east-11'') \<and>
      in_NetworkId i = Some (or_else (low_param ps ''networkid'') ''net-COMMON_PRIVATE'') \<and>
      in_Description i = Some (or_else (low_param ps ''description'') ''csi-volume'') \<and>
      in_AllocatedStorage i = map_option (getAllocatedStorage cap) (in_Type i)
    else \<exists>e. GenerateNasInstanceInput name cap ps = Inl e"
proof (cases "\<forall>e \<in> set ps. good_entry e")
  case True
  then show ?thesis
    using read_params_Inr [OF True assms]
    by (simp add: GenerateNasInstanceInput_def looked_up_def default_params_def)
next
  case False
  then obtain m where "read_params ps default_params = Inl m" using read_params_Inl by blast
  then show ?thesis using False by (simp add: GenerateNasInstanceInput_def)
qed

theorem GenerateNasInstanceInput_values_witness:
  "\<exists>i. GenerateNasInstanceInput ''pvc-1'' 107374182400 [(''Zone'', ''east-14''), (''SHARED'', ''true'')] = Inr i \<and>
    in_AvailabilityZone i = Some ''east-14'' \<and> in_NetworkId i = Some ''net-COMMON_PRIVATE''"
proof -
  let ?ps = "[(''Zone'', ''east-14''), (''SHARED'', ''true'')]"
  have "distinct (map (\<lambda>e. ToLower (fst e)) ?ps)" "\<forall>e \<in> set ?ps. good_entry e"
    by (simp_all add: good_entry_def eval_simps)
  then show ?thesis
    using GenerateNasInstanceInput_values [of ?ps "''pvc-1''" 107374182400]
    by (auto simp: low_param_simps eval_simps)
qed

text \<open>
  C33. Go visits a map in any order: for parameters that differ up to case the outcome does
  not depend on it, the input is the same (or there is an error in every order).
\<close>

theorem GenerateNasInstanceInput_order:
  assumes "mset ps = mset ps'" and "distinct (map (\<lambda>e. ToLower (fst e)) ps)"
  shows "case GenerateNasInstanceInput name cap ps of
      Inr i \<Rightarrow> GenerateNasInstanceInput name cap ps' = Inr i
    | Inl e \<Rightarrow> \<exists>e'. GenerateNasInstanceInput name cap ps' = Inl e'"
proof -
  have sets: "set ps = set ps'" using assms(1) by (rule mset_eq_setD)
  have "mset (map (\<lambda>e. ToLower (fst e)) ps) = mset (map (\<lambda>e. ToLower (fst e)) ps')"
    using assms(1) by (simp only: mset_map)
  then have d': "distinct (map (\<lambda>e. ToLower (fst e)) ps')"
    using assms(2) mset_eq_imp_distinct_iff by blast
  show ?thesis
  proof (cases "\<forall>e \<in> set ps. good_entry e")
    case True
    then have "\<forall>e \<in> set ps'. good_entry e" using sets by simp
    then have "read_params ps' default_params = read_params ps default_params"
      using read_params_Inr [OF True assms(2)] read_params_Inr [OF _ d'] low_param_perm [OF assms]
      by (simp add: looked_up_def)
    then show ?thesis
      using read_params_Inr [OF True assms(2)] by (simp add: GenerateNasInstanceInput_def)
  next
    case False
    then have "\<exists>e \<in> set ps. \<not> good_entry e" "\<exists>e \<in> set ps'. \<not> good_entry e" using sets by auto
    then obtain m m' where "read_params ps default_params = Inl m" "read_params ps' default_params = Inl m'"
      using read_params_Inl by meson
    then show ?thesis by (simp add: GenerateNasInstanceInput_def)
  qed
qed

theorem GenerateNasInstanceInput_order_witness:
  "case GenerateNasInstanceInput ''pvc-1'' 100 [(''zone'', ''a''), (''shared'', ''true'')] of
      Inr i \<Rightarrow> GenerateNasInstanceInput ''pvc-1'' 100 [(''shared'', ''true''), (''zone'', ''a'')] = Inr i
    | Inl e \<Rightarrow> \<exists>e'. GenerateNasInstanceInput ''pvc-1'' 100 [(''shared'', ''true''), (''zone'', ''a'')] = Inl e'"
  by (rule GenerateNasInstanceInput_order) (simp_all add: eval_simps)

text \<open>
  Two parameters that are equal up to case are both accepted, and the zone of the instance
  then depends on the order in which Go happens to visit the map.
\<close>

theorem GenerateNasInstanceInput_case_clash:
  "map_option in_AvailabilityZone
      (case GenerateNasInstanceInput name cap [(''zone'', ''a''), (''Zone'', ''b'')] of Inr i \<Rightarrow> Some i | Inl e \<Rightarrow> None)
    = Some (Some ''b'') \<and>
   map_option in_AvailabilityZone
      (case GenerateNasInstanceInput name cap [(''Zone'', ''b''), (''zone'', ''a'')] of Inr i \<Rightarrow> Some i | Inl e \<Rightarrow> None)
    = Some (Some ''a'')"
  by (simp add: GenerateNasInstanceInput_def read_params_step good_entry_def set_param_def
      default_params_def eval_simps)

section \<open>The comparison\<close>

lemma compare_same_groups:
  assumes "ni_Type n = Some nt" and "in_Type i = Some it" and "in_AllocatedStorage i = Some al"
    and "length (ni_SecurityGroups n) = length (in_SecurityGroups i)"
  shows "\<exists>m. compareNasInstanceWithInput ptr n i s =
    (if nt = it \<and> fst (ParseInt (pstr (ni_AllocatedStorage n))) = al \<and>
        pstr (ni_NetworkId n) = pstr (in_NetworkId i) \<and>
        pstr (ni_AvailabilityZone n) = pstr (in_AvailabilityZone i)
     then (Ret (), s) else (Fail (Errorf m), s))"
  using assms
  by (simp add: compareNasInstanceWithInput_def bindP_def derefP_def Let_def retP_def failP_def)

text \<open>
  When an existing instance has as many security groups as the request, the comparison
  accepts it exactly when type, storage, network and zone agree; the names of the security
  groups are not looked at, so an instance in the group of another cluster is accepted.
\<close>

theorem compare_ignores_group_names:
  assumes "ni_Type n = Some nt" and "in_Type i = Some it" and "in_AllocatedStorage i = Some al"
    and "length (ni_SecurityGroups n) = length (in_SecurityGroups i)"
  shows "compareNasInstanceWithInput ptr n i s = (Ret (), s) \<longleftrightarrow>
    nt = it \<and> fst (ParseInt (pstr (ni_AllocatedStorage n))) = al \<and>
    pstr (ni_NetworkId n) = pstr (in_NetworkId i) \<and>
    pstr (ni_AvailabilityZone n) = pstr (in_AvailabilityZone i)"
  using compare_same_groups [OF assms, of ptr s] by (auto split: if_splits)

definition example_instance :: NASInstance where
  "example_instance = \<lparr>ni_Identifier = Some ''pvc-1'', ni_Status = Some ''available'',
     ni_Type = Some 0, ni_AllocatedStorage = Some ''100'', ni_NetworkId = Some ''net-1'',
     ni_AvailabilityZone = Some ''east-11'', ni_SecurityGroups = [Some ''cluster-other''],
     ni_Endpoint = Some (Some ''192.168.9.2''), ni_NoRootSquash = Some ''true''\<rparr>"

definition example_input :: CreateNASInstanceInput where
  "example_input = \<lparr>in_AllocatedStorage = Some 100, in_AvailabilityZone = Some ''east-11'',
     in_Identifier = Some ''pvc-1'', in_Type = Some 0, in_Description = Some ''csi-volume'',
     in_NetworkId = Some ''net-1'', in_Protocol = Some ''nfs'',
     in_SecurityGroups = [''cluster-mine''], in_MasterPrivateAddress = None\<rparr>"

lemma ParseInt_100: "ParseInt ''100'' = (100, None)"
  by (simp add: ParseInt_def eval_simps)

theorem compare_ignores_group_names_witness:
  "compareNasInstanceWithInput ''0xc000010250'' example_instance example_input () = (Ret (), ()) \<and>
    ni_SecurityGroups example_instance \<noteq> map Some (in_SecurityGroups example_input)"
  using compare_ignores_group_names [of example_instance 0 example_input 0 100 "''0xc000010250''" "()"]
  by (simp add: example_instance_def example_input_def pstr_def ParseInt_100)

lemma sg_loop_panics:
  "length is < length gs \<Longrightarrow> sg_loop (map Some gs) is s = (Panic ''index out of range'', s)"
proof (induction gs arbitrary: "is")
  case (Cons g gs)
  then show ?case
    by (cases "is") (simp_all add: bindP_def derefP_def panicP_def)
qed simp

text \<open>
  An existing instance with more security groups than the one of the request makes the
  comparison index the request's list out of range: the controller panics.
\<close>

theorem compare_panics_on_more_groups:
  assumes "ni_Type n = Some nt" and "in_Type i = Some it" and "in_AllocatedStorage i = Some al"
    and "ni_SecurityGroups n = map Some gs" and "length (in_SecurityGroups i) < length gs"
  shows "compareNasInstanceWithInput ptr n i s = (Panic ''index out of range'', s)"
  using assms sg_loop_panics [OF assms(5), of s]
  by (simp add: compareNasInstanceWithInput_def bindP_def derefP_def Let_def retP_def)

theorem compare_panics_on_more_groups_witness:
  "compareNasInstanceWithInput ''0xc000010250''
     (example_instance\<lparr>ni_SecurityGroups := [Some ''cluster-mine'', Some ''other'']\<rparr>) example_input () =
   (Panic ''index out of range'', ())"
  by (rule compare_panics_on_more_groups [where gs = "[''cluster-mine'', ''other'']"])
    (simp_all add: example_instance_def example_input_def)

text \<open>
  \<open>validatePermission\<close> accepts exactly the octal permissions of three digits.
\<close>

theorem validatePermission_octal:
  "validatePermission p = None \<longleftrightarrow>
    (\<exists>a b c. p = map digit_char [a, b, c] \<and> a < 8 \<and> b < 8 \<and> c < 8)"
proof
  assume "validatePermission p = None"
  then have p: "length p = 3" "\<forall>c \<in> set p. 48 \<le> (of_char c :: nat) \<and> (of_char c :: nat) \<le> 55"
    by (auto simp: validatePermission_def not_less split: if_splits)
  have dig: "c = digit_char (of_char c - 48)" if "c \<in> set p" for c
    using p(2) that by (simp add: digit_char_def)
  have "p = map digit_char (map (\<lambda>c. of_char c - 48) p)"
    using dig by (simp add: map_idI comp_def)
  moreover obtain x y z where "p = [x, y, z]"
    using p(1) by (auto simp: length_Suc_conv eval_nat_numeral)
  ultimately show "\<exists>a b c. p = map digit_char [a, b, c] \<and> a < 8 \<and> b < 8 \<and> c < 8"
    using p(2) by (intro exI [of _ "of_char x - 48"] exI [of _ "of_char y - 48"]
        exI [of _ "of_char z - 48"]) auto
next
  assume "\<exists>a b c. p = map digit_char [a, b, c] \<and> a < 8 \<and> b < 8 \<and> c < 8"
  then obtain a b c where p: "p = map digit_char [a, b, c]" "a < 8" "b < 8" "c < 8" by blast
  have "(of_char (digit_char n) :: nat) = 48 + n" if "n < 8" for n
    using that by (simp add: digit_char_def of_char_of)
  then show "validatePermission p = None" using p by (simp add: validatePermission_def)
qed

end
