(* ===== verification/World.thy ===== *)
theory World
  imports NasInstance
begin

text \<open>
  The world outside the driver: the cloud's API, the cluster's API, the clock and random
  numbers. A state carries the list of the calls made so far (\<open>trace\<close>); an environment \<open>E\<close>
  answers a call with an error or a result that may depend on the whole history, so a property
  proved for all \<open>E\<close> holds whatever the services answer and however they change in between.
  None of their code is in the repository: they are parameters, and the driver's functions
  are defined on top of them.
\<close>

section \<open>Objects of the cluster\<close>

text \<open>\<open>pv_capacity\<close>: the capacity \<open>storage\<close>, if present, as its \<open>AsInt64\<close> (\<open>None\<close>: not exact).\<close>

record PersistentVolume =
  pv_name :: string
  pv_csi :: "(string \<times> string) option" \<comment> \<open>driver and volume handle\<close>
  pv_capacity :: "int64 option option"

record PersistentVolumeClaim =
  pvc_name :: string
  pvc_namespace :: string
  pvc_uid :: string
  pvc_annotations :: params

text \<open>A map that may be nil is an option; reading a nil map gives the empty string.\<close>

record StorageClass =
  sc_name :: string
  sc_provisioner :: string
  sc_parameters :: "params option"

definition sc_param :: "StorageClass \<Rightarrow> string \<Rightarrow> string" where
  "sc_param cl k = (case sc_parameters cl of None \<Rightarrow> '''' | Some ps \<Rightarrow> param ps k)"

record SnapshotClass =
  vsc_name :: string
  vsc_driver :: string
  vsc_parameters :: params

record CSINode =
  csn_name :: string
  csn_drivers :: "string list"
  csn_annotations :: "params option"

definition csn_annotation :: "CSINode \<Rightarrow> string \<Rightarrow> string" where
  "csn_annotation n k = (case csn_annotations n of None \<Rightarrow> '''' | Some ps \<Rightarrow> param ps k)"

text \<open>Writing an entry of a map.\<close>

definition set_entry :: "string \<Rightarrow> string \<Rightarrow> params \<Rightarrow> params" where
  "set_entry k v ps = (k, v) # filter (\<lambda>e. fst e \<noteq> k) ps"

lemma param_set_entry [simp]: "param (set_entry k v ps) k' = (if k' = k then v else param ps k')"
proof -
  have "map_of (filter (\<lambda>e. fst e \<noteq> k) ps) k' = (if k' = k then None else map_of ps k')"
    by (induction ps) auto
  then show ?thesis by (simp add: set_entry_def param_def pstr_def)
qed

text \<open>A node of the cluster: its name and its addresses, each with its type.\<close>

record Node =
  node_name :: string
  node_addresses :: "(string \<times> string) list"

record Pod =
  pod_name :: string
  pod_owners :: "string list"

datatype volume_source = NFS string string | Claim string

text \<open>The fields of a Kubernetes job that the driver sets, flattened.\<close>

record Job =
  job_name :: string
  job_namespace :: string
  job_image :: string
  job_args :: "string list"
  job_env :: "(string \<times> string \<times> string) list" \<comment> \<open>variable, secret, key\<close>
  job_mounts :: "(string \<times> string \<times> bool) list" \<comment> \<open>volume, path, read only\<close>
  job_volumes :: "(string \<times> volume_source) list"
  job_hostname :: string
  job_backoffLimit :: int

record Secret =
  sec_name :: string
  sec_namespace :: string
  sec_data :: params
  sec_annotations :: params

record SnapshotContent =
  sct_handle :: "string option"
  sct_class :: "string option"

text \<open>The ranges of a NAS security group: \<open>CIDRIP\<close> and \<open>Status\<close>.\<close>

record NASSecurityGroup =
  sg_IPRanges :: "(string option \<times> string option) list"

text \<open>
  Servers, networks and databases: the fields the configurator reads. Pointers are options, the
  parts of a structure behind one pointer are an option of their record.
\<close>

record HatobaNode =
  hn_PublicIp :: "string option"
  hn_PrivateIp :: "string option"
  hn_Zone :: "string option"

record Cluster =
  hc_Name :: "string option"
  hc_NodePools :: "HatobaNode list list"
  hc_NetworkConfig :: "string option option" \<comment> \<open>its \<open>NetworkId\<close>\<close>

record Instance =
  vm_IpAddress :: "string option"
  vm_PrivateIpAddress :: "string option"
  vm_InstanceId :: "string option"
  vm_Placement :: "string option option" \<comment> \<open>its zone\<close>
  vm_Interfaces :: "(string option \<times> string option) list" \<comment> \<open>private address, network\<close>

record PrivateLan =
  lan_CidrBlock :: "string option"
  lan_Routers :: "string option list"

type_synonym ip_pool = "string option \<times> string option"
type_synonym lease = "string option \<times> string option" \<comment> \<open>\<open>LeaseType\<close>, address\<close>

record DhcpStatus =
  dhcp_NetworkId :: "string option"
  dhcp_Information :: "(ip_pool list \<times> lease list) option"

record DBInstance =
  db_NetworkId :: "string option"
  db_MasterPrivateAddress :: "string option"

text \<open>The fields of \<open>unix.Statfs_t\<close> that are read: unsigned, but for the size of a block.\<close>

record Statfs =
  fs_Bavail :: "64 word"
  fs_Blocks :: "64 word"
  fs_Bfree :: "64 word"
  fs_Bsize :: int64
  fs_Ffree :: "64 word"
  fs_Files :: "64 word"

section \<open>Calls\<close>

datatype call =
    DescribeNASInstances "string option"
  | CreateNASInstance CreateNASInstanceInput
  | ModifyNASInstance string "string option" "string list" \<comment> \<open>name, NoRootSquash, security groups\<close>
  | DeleteNASInstance string
  | DescribeNASSecurityGroups string
  | CreateNASSecurityGroup string string \<comment> \<open>zone, name\<close>
  | AuthorizeIngress string string
  | RevokeIngress string string
  | ListPVs
  | ListPVCs
  | ListCSINodes
  | ListStorageClasses
  | GetNamespace string
  | CreateJob Job
  | DeleteJob string string \<comment> \<open>namespace, name\<close>
  | GetJob string string
  | ListPods string
  | GetPodLogs string string
  | CreateSecret Secret
  | DeleteSecret string string
  | GetSecret string string
  | ListSnapshotContents
  | GetSnapshotClass string
  | ListBuckets string string \<comment> \<open>region, endpoint\<close>
  | ListNodes
  | GetCSINode string
  | UpdateCSINode CSINode
  | CreateStorageClass StorageClass
  | DeleteStorageClass string
  | ListSnapshotClasses
  | CreateSnapshotClass SnapshotClass
  | CreateBucket string string string \<comment> \<open>region, endpoint, name\<close>
  | StoreSecret string string \<comment> \<open>bucket, key\<close>
  | DescribeClusters string \<comment> \<open>endpoint for tests, or empty\<close>
  | DescribeInstances
  | DescribePrivateLans string
  | DescribeDhcpStatus string \<comment> \<open>router\<close>
  | DescribeDBInstances
  | InterfaceAddress string \<comment> \<open>the shell command on the named interface\<close>
  | CheckMountPoint string
  | MountFs string string string "string list" \<comment> \<open>source, target, type, options\<close>
  | UnmountFs string
  | MakeDir string
  | StatPath string
  | StatFileSystem string
  | RandomString nat
  | ReadClock

type_synonym history = "call list"

record world =
  trace :: history

text \<open>What an operation run under \<open>backoff.RetryNotify\<close> returns.\<close>

datatype attempt = Done | Permanent gerror | Transient gerror

text \<open>
  The environment. \<open>retry\<close> is \<open>backoff.RetryNotify\<close>; \<open>map_order\<close> is the order in which this
  run's \<open>range\<close> visits the keys of a map the driver has built; \<open>ptr_text\<close> is what \<open>%v\<close> prints
  for a pointer.
\<close>

record 'z env =
  describeNas :: "history \<Rightarrow> string option \<Rightarrow> gerror + NASInstance list"
  createNas :: "history \<Rightarrow> CreateNASInstanceInput \<Rightarrow> gerror + NASInstance option"
  modifyNas :: "history \<Rightarrow> string \<Rightarrow> string option \<Rightarrow> string list \<Rightarrow> gerror + NASInstance option"
  deleteNas :: "history \<Rightarrow> string \<Rightarrow> gerror + unit"
  describeNsg :: "history \<Rightarrow> string \<Rightarrow> gerror + NASSecurityGroup list"
  createNsg :: "history \<Rightarrow> string \<Rightarrow> string \<Rightarrow> gerror + NASSecurityGroup option"
  authorizeNsg :: "history \<Rightarrow> string \<Rightarrow> string \<Rightarrow> gerror + NASSecurityGroup option"
  revokeNsg :: "history \<Rightarrow> string \<Rightarrow> string \<Rightarrow> gerror + NASSecurityGroup option"
  listPVs :: "history \<Rightarrow> gerror + PersistentVolume list"
  listPVCs :: "history \<Rightarrow> gerror + PersistentVolumeClaim list"
  listCSINodes :: "history \<Rightarrow> gerror + CSINode list"
  listStorageClasses :: "history \<Rightarrow> gerror + StorageClass list"
  getNamespace :: "history \<Rightarrow> string \<Rightarrow> gerror + string" \<comment> \<open>its UID\<close>
  createJob :: "history \<Rightarrow> Job \<Rightarrow> gerror + unit"
  deleteJob :: "history \<Rightarrow> string \<Rightarrow> string \<Rightarrow> gerror + unit"
  getJob :: "history \<Rightarrow> string \<Rightarrow> string \<Rightarrow> gerror + string list" \<comment> \<open>its conditions\<close>
  listPods :: "history \<Rightarrow> string \<Rightarrow> gerror + Pod list"
  podLogs :: "history \<Rightarrow> string \<Rightarrow> string \<Rightarrow> gerror + string"
  createSecret :: "history \<Rightarrow> Secret \<Rightarrow> gerror + unit"
  deleteSecret :: "history \<Rightarrow> string \<Rightarrow> string \<Rightarrow> gerror + unit"
  getSecret :: "history \<Rightarrow> string \<Rightarrow> string \<Rightarrow> gerror + params"
  listSnapshotContents :: "history \<Rightarrow> gerror + SnapshotContent list"
  getSnapshotClass :: "history \<Rightarrow> string \<Rightarrow> gerror + params"
  listBuckets :: "history \<Rightarrow> string \<Rightarrow> string \<Rightarrow> gerror + string list"
  listNodes :: "history \<Rightarrow> gerror + Node list"
  getCSINode :: "history \<Rightarrow> string \<Rightarrow> gerror + CSINode"
  updateCSINode :: "history \<Rightarrow> CSINode \<Rightarrow> gerror + unit"
  createStorageClass :: "history \<Rightarrow> StorageClass \<Rightarrow> gerror + unit"
  deleteStorageClass :: "history \<Rightarrow> string \<Rightarrow> gerror + unit"
  listSnapshotClasses :: "history \<Rightarrow> gerror + SnapshotClass list"
  createSnapshotClass :: "history \<Rightarrow> SnapshotClass \<Rightarrow> gerror + unit"
  makeBucket :: "history \<Rightarrow> string \<Rightarrow> string \<Rightarrow> string \<Rightarrow> gerror + unit"
  storeSecret :: "history \<Rightarrow> string \<Rightarrow> string \<Rightarrow> gerror + unit"
  describeClusters :: "history \<Rightarrow> string \<Rightarrow> gerror + Cluster list"
  describeInstances :: "history \<Rightarrow> gerror + Instance list list" \<comment> \<open>per reservation\<close>
  describePrivateLans :: "history \<Rightarrow> string \<Rightarrow> gerror + PrivateLan list"
  describeDhcp :: "history \<Rightarrow> string \<Rightarrow> gerror + DhcpStatus list"
  describeDBs :: "history \<Rightarrow> gerror + DBInstance list"
  interfaceAddress :: "history \<Rightarrow> string \<Rightarrow> gerror + string"
  likelyNotMountPoint :: "history \<Rightarrow> string \<Rightarrow> gerror + bool"
  mountFs :: "history \<Rightarrow> string \<Rightarrow> string \<Rightarrow> string \<Rightarrow> string list \<Rightarrow> gerror + unit"
  unmountFs :: "history \<Rightarrow> string \<Rightarrow> gerror + unit"
  makeDir :: "history \<Rightarrow> string \<Rightarrow> gerror + unit"
  statPath :: "history \<Rightarrow> string \<Rightarrow> gerror + unit"
  statfs :: "history \<Rightarrow> string \<Rightarrow> gerror + Statfs"
  randomString :: "history \<Rightarrow> nat \<Rightarrow> string"
  clock :: "history \<Rightarrow> int64" \<comment> \<open>Unix seconds\<close>
  map_order :: "history \<Rightarrow> string list \<Rightarrow> string list"
  getenv :: "string \<Rightarrow> string"
  seeded :: "string \<Rightarrow> nat \<Rightarrow> nat list" \<comment> \<open>numbers below 36 drawn from a seed\<close>
  goos :: string
  ptr_text :: string
  retry :: "('z world_scheme, attempt) prog \<Rightarrow> ('z world_scheme, unit) prog"

text \<open>A call: answered from the history before it, then part of the history.\<close>

definition api :: "call \<Rightarrow> (history \<Rightarrow> gerror + 'a) \<Rightarrow> ('z world_scheme, 'a) prog" where
  "api c answer s =
     (case answer (trace s) of
        Inl e \<Rightarrow> (Fail e, s\<lparr>trace := trace s @ [c]\<rparr>)
      | Inr a \<Rightarrow> (Ret a, s\<lparr>trace := trace s @ [c]\<rparr>))"

definition observe :: "(history \<Rightarrow> 'a) \<Rightarrow> ('z world_scheme, 'a) prog" where
  "observe f s = (Ret (f (trace s)), s)"

lemma tryP_api: "tryP (api c answer) s = (Ret (answer (trace s)), s\<lparr>trace := trace s @ [c]\<rparr>)"
  by (simp add: tryP_def api_def split: sum.split)

lemma bindP_try_api:
  "bindP (tryP (api c answer)) f s = f (answer (trace s)) (s\<lparr>trace := trace s @ [c]\<rparr>)"
  by (simp add: bindP_def tryP_api)

section \<open>Retrying\<close>

text \<open>
  The documented behaviour of \<open>backoff.RetryNotify\<close>: it runs the operation, and again while it
  fails, until it succeeds, fails permanently (the wrapped error is returned) or the backoff
  policy stops (the last error is returned). \<open>retry_n n\<close> is that with at most \<open>n\<close> repetitions;
  the contract says that every run of \<open>retry\<close> is such a run for some \<open>n\<close>.
\<close>

fun retry_n :: "nat \<Rightarrow> ('s, attempt) prog \<Rightarrow> ('s, unit) prog" where
  "retry_n 0 op = bindP op (\<lambda>a. case a of
       Done \<Rightarrow> retP () | Permanent e \<Rightarrow> failP e | Transient e \<Rightarrow> failP e)"
| "retry_n (Suc n) op = bindP op (\<lambda>a. case a of
       Done \<Rightarrow> retP () | Permanent e \<Rightarrow> failP e | Transient e \<Rightarrow> retry_n n op)"

definition retry_contract :: "'z env \<Rightarrow> bool" where
  "retry_contract E \<longleftrightarrow> (\<forall>op s. \<exists>n. retry E op s = retry_n n op s)"

lemma retry_n_Ret:
  assumes "retry_n n op s = (Ret x, t)"
  shows "\<exists>u. op u = (Ret Done, t)"
  using assms
proof (induction n arbitrary: s)
  case 0
  then show ?case
    by (auto simp: retP_def failP_def elim!: bindP_RetE split: attempt.splits)
next
  case (Suc n)
  then show ?case
    by (auto simp: retP_def failP_def elim!: bindP_RetE split: attempt.splits)
qed

section \<open>What programs do to the world\<close>

text \<open>
  \<open>extends C\<close>: nothing but the history changes, and only calls in \<open>C\<close> are made. \<open>calls C\<close>:
  only calls in \<open>C\<close> are made, the rest of the state may change.
\<close>

definition extends :: "(call \<Rightarrow> bool) \<Rightarrow> 'z world_scheme \<Rightarrow> 'z world_scheme \<Rightarrow> bool" where
  "extends C s t \<longleftrightarrow> (\<exists>h. t = s\<lparr>trace := trace s @ h\<rparr> \<and> list_all C h)"

definition calls :: "(call \<Rightarrow> bool) \<Rightarrow> 'z world_scheme \<Rightarrow> 'z world_scheme \<Rightarrow> bool" where
  "calls C s t \<longleftrightarrow> (\<exists>h. trace t = trace s @ h \<and> list_all C h)"

lemma extends_calls: "extends C s t \<Longrightarrow> calls C s t"
  by (auto simp: extends_def calls_def)

lemma keeps_extends_calls: "keeps (extends C) m \<Longrightarrow> keeps (calls C) m"
  by (meson extends_calls keeps_def)

lemma extends_more: "extends C s t \<Longrightarrow> world.more t = world.more s"
  by (auto simp: extends_def)

lemma extends_mono: "extends C s t \<Longrightarrow> (\<And>c. C c \<Longrightarrow> D c) \<Longrightarrow> extends D s t"
  by (force simp: extends_def list_all_iff)

interpretation ext: step_contract "extends C" for C
proof
  fix s t u :: "'z world_scheme"
  show "extends C s s" by (auto simp: extends_def intro!: exI [of _ "[]"])
  assume "extends C s t" "extends C t u"
  then obtain h k where "t = s\<lparr>trace := trace s @ h\<rparr>" "u = t\<lparr>trace := trace t @ k\<rparr>"
    "list_all C h" "list_all C k" unfolding extends_def by auto
  then show "extends C s u" by (auto simp: extends_def intro!: exI [of _ "h @ k"])
qed

interpretation call: step_contract "calls C" for C
proof
  fix s t u :: "'z world_scheme"
  show "calls C s s" by (simp add: calls_def)
  assume "calls C s t" "calls C t u"
  then show "calls C s u" by (auto simp: calls_def)
qed

lemma keeps_api: "C c \<Longrightarrow> keeps (extends C) (api c answer)"
  by (rule keepsI) (auto simp: api_def extends_def intro!: exI [of _ "[c]"] split: sum.splits)

lemma keeps_observe: "keeps (extends C) (observe f)"
  by (rule keepsI) (simp add: observe_def ext.R_refl)

lemma keeps_retry_n: "keeps (extends C) op \<Longrightarrow> keeps (extends C) (retry_n n op)"
  by (induction n) (auto intro!: ext.keeps_bind ext.keeps_ret ext.keeps_fail split: attempt.split)

lemma keeps_retry: "retry_contract E \<Longrightarrow> keeps (extends C) op \<Longrightarrow> keeps (extends C) (retry E op)"
  by (metis keeps_def keeps_retry_n retry_contract_def)

text \<open>All of it in one bundle, for \<open>intro\<close>.\<close>

lemmas world_intros = keeps_api keeps_observe keeps_retry ext.keeps_rules

section \<open>An environment\<close>

text \<open>
  Every service answers with an error, a retry repeats at most twice: the base of the concrete
  environments, which override some answers.
\<close>

definition quiet_env :: "'z env" where
  "quiet_env =
     \<lparr>describeNas = \<lambda>h n. Inl (AwsErr ''Client.InvalidParameterNotFound.NASInstanceIdentifier'' ''not found''),
      createNas = \<lambda>h i. Inl (Errorf ''unavailable''),
      modifyNas = \<lambda>h n s g. Inl (Errorf ''unavailable''),
      deleteNas = \<lambda>h n. Inl (Errorf ''unavailable''),
      describeNsg = \<lambda>h n. Inl (Errorf ''unavailable''),
      createNsg = \<lambda>h z n. Inl (Errorf ''unavailable''),
      authorizeNsg = \<lambda>h n i. Inl (Errorf ''unavailable''),
      revokeNsg = \<lambda>h n i. Inl (Errorf ''unavailable''),
      listPVs = \<lambda>h. Inl (Errorf ''unavailable''),
      listPVCs = \<lambda>h. Inl (Errorf ''unavailable''),
      listCSINodes = \<lambda>h. Inl (Errorf ''unavailable''),
      listStorageClasses = \<lambda>h. Inl (Errorf ''unavailable''),
      getNamespace = \<lambda>h n. Inl (Errorf ''unavailable''),
      createJob = \<lambda>h j. Inl (Errorf ''unavailable''),
      deleteJob = \<lambda>h ns n. Inl (Errorf ''unavailable''),
      getJob = \<lambda>h ns n. Inl (Errorf ''unavailable''),
      listPods = \<lambda>h ns. Inl (Errorf ''unavailable''),
      podLogs = \<lambda>h ns n. Inl (Errorf ''unavailable''),
      createSecret = \<lambda>h s. Inl (Errorf ''unavailable''),
      deleteSecret = \<lambda>h ns n. Inl (Errorf ''unavailable''),
      getSecret = \<lambda>h ns n. Inl (Errorf ''unavailable''),
      listSnapshotContents = \<lambda>h. Inl (Errorf ''unavailable''),
      getSnapshotClass = \<lambda>h n. Inl (Errorf ''unavailable''),
      listBuckets = \<lambda>h r u. Inl (Errorf ''unavailable''),
      listNodes = \<lambda>h. Inl (Errorf ''unavailable''),
      getCSINode = \<lambda>h n. Inl (Errorf ''unavailable''),
      updateCSINode = \<lambda>h n. Inl (Errorf ''unavailable''),
      createStorageClass = \<lambda>h c. Inl (Errorf ''unavailable''),
      deleteStorageClass = \<lambda>h n. Inl (Errorf ''unavailable''),
      listSnapshotClasses = \<lambda>h. Inl (Errorf ''unavailable''),
      createSnapshotClass = \<lambda>h c. Inl (Errorf ''unavailable''),
      makeBucket = \<lambda>h r e b. Inl (Errorf ''unavailable''),
      storeSecret = \<lambda>h b k. Inl (Errorf ''unavailable''),
      describeClusters = \<lambda>h e. Inl (Errorf ''unavailable''),
      describeInstances = \<lambda>h. Inl (Errorf ''unavailable''),
      describePrivateLans = \<lambda>h n. Inl (Errorf ''unavailable''),
      describeDhcp = \<lambda>h r. Inl (Errorf ''unavailable''),
      describeDBs = \<lambda>h. Inl (Errorf ''unavailable''),
      interfaceAddress = \<lambda>h n. Inl (Errorf ''unavailable''),
      likelyNotMountPoint = \<lambda>h p. Inl (Errorf ''unavailable''),
      mountFs = \<lambda>h s p t os. Inl (Errorf ''unavailable''),
      unmountFs = \<lambda>h p. Inl (Errorf ''unavailable''),
      makeDir = \<lambda>h p. Inl (Errorf ''unavailable''),
      statPath = \<lambda>h p. Inl (Errorf ''unavailable''),
      statfs = \<lambda>h p. Inl (Errorf ''unavailable''),
      randomString = \<lambda>h n. replicate n (CHR ''x''),
      clock = \<lambda>h. 0,
      map_order = \<lambda>h xs. xs,
      getenv = \<lambda>v. '''',
      seeded = \<lambda>s n. replicate n 0,
      goos = ''linux'',
      ptr_text = ''0xc000010250'',
      retry = retry_n 2\<rparr>"

lemma quiet_env_simps [simp]:
  "describeNas quiet_env h n = Inl (AwsErr ''Client.InvalidParameterNotFound.NASInstanceIdentifier'' ''not found'')"
  "map_order quiet_env h xs = xs" "retry quiet_env = retry_n 2" "ptr_text quiet_env = ''0xc000010250''"
  "randomString quiet_env h k = replicate k (CHR ''x'')" "clock quiet_env h = 0"
  by (simp_all add: quiet_env_def)

lemma retry_contract_quiet: "retry E = retry_n 2 \<Longrightarrow> retry_contract E"
  by (auto simp: retry_contract_def)

end
