(* ===== verification/Cloud.thy ===== *)
theory Cloud
  imports World
begin

text \<open>
  The cloud client (pkg/cloud/cloud.go): each method makes one request of the SDK and returns
  its result; the \<open>Get\<close> methods take the first element of the list answered. Volume IDs are
  \<open>region/name\<close>.
\<close>

text \<open>\<open>&output.Items[0]\<close>\<close>

definition first_item :: "'a list \<Rightarrow> ('s, 'a) prog" where
  "first_item xs = (case xs of [] \<Rightarrow> panicP ''index out of range'' | x # _ \<Rightarrow> retP x)"

definition GetNasInstance :: "'z env \<Rightarrow> string \<Rightarrow> ('z world_scheme, NASInstance) prog" where
  "GetNasInstance E name =
     bindP (api (DescribeNASInstances (Some name)) (\<lambda>h. describeNas E h (Some name))) first_item"

definition IsNotFoundErr :: "gerror \<Rightarrow> bool" where
  "IsNotFoundErr e = (case e of AwsErr c m \<Rightarrow> Contains c ''NotFound'' | _ \<Rightarrow> False)"

definition ListNasInstances :: "'z env \<Rightarrow> ('z world_scheme, NASInstance list) prog" where
  "ListNasInstances E = api (DescribeNASInstances None) (\<lambda>h. describeNas E h None)"

definition CreateNasInstance ::
  "'z env \<Rightarrow> CreateNASInstanceInput \<Rightarrow> ('z world_scheme, NASInstance option) prog" where
  "CreateNasInstance E n = api (CreateNASInstance n) (\<lambda>h. createNas E h n)"

definition ModifyNasInstance :: "'z env \<Rightarrow> string \<Rightarrow> ('z world_scheme, NASInstance option) prog" where
  "ModifyNasInstance E name =
     api (ModifyNASInstance name (Some ''true'') []) (\<lambda>h. modifyNas E h name (Some ''true'') [])"

definition ChangeNasInstanceSecurityGroup ::
  "'z env \<Rightarrow> string \<Rightarrow> string \<Rightarrow> ('z world_scheme, NASInstance option) prog" where
  "ChangeNasInstanceSecurityGroup E name sgname =
     api (ModifyNASInstance name None [sgname]) (\<lambda>h. modifyNas E h name None [sgname])"

definition DeleteNasInstance :: "'z env \<Rightarrow> string \<Rightarrow> ('z world_scheme, unit) prog" where
  "DeleteNasInstance E name = api (DeleteNASInstance name) (\<lambda>h. deleteNas E h name)"

definition GenerateVolumeIDFromNasInstance :: "string \<Rightarrow> NASInstance \<Rightarrow> ('s, string) prog" where
  "GenerateVolumeIDFromNasInstance region obj =
     bindP (derefP (ni_Identifier obj)) (\<lambda>name. retP (Join [region, name] ''/''))"

definition GetNasInstanceFromVolumeID ::
  "'z env \<Rightarrow> string \<Rightarrow> ('z world_scheme, NASInstance) prog" where
  "GetNasInstanceFromVolumeID E vid =
     (let tokens = Split vid (CHR ''/'')
      in if length tokens \<noteq> 2
         then failP (Errorf (''volume id '' @ quoted vid @ '' unexpected format: got '' @
                show_nat (length tokens) @ '' tokens''))
         else GetNasInstance E (tokens ! 1))"

definition GetNasSecurityGroup :: "'z env \<Rightarrow> string \<Rightarrow> ('z world_scheme, NASSecurityGroup) prog" where
  "GetNasSecurityGroup E name =
     bindP (api (DescribeNASSecurityGroups name) (\<lambda>h. describeNsg E h name)) first_item"

text \<open>The input of the syncer: zone and name, both set.\<close>

definition CreateNasSecurityGroup ::
  "'z env \<Rightarrow> string \<Rightarrow> string \<Rightarrow> ('z world_scheme, NASSecurityGroup option) prog" where
  "CreateNasSecurityGroup E zone name =
     api (CreateNASSecurityGroup zone name) (\<lambda>h. createNsg E h zone name)"

definition AuthorizeCIDRIP ::
  "'z env \<Rightarrow> string \<Rightarrow> string \<Rightarrow> ('z world_scheme, NASSecurityGroup option) prog" where
  "AuthorizeCIDRIP E name cidrip = api (AuthorizeIngress name cidrip) (\<lambda>h. authorizeNsg E h name cidrip)"

definition RevokeCIDRIP ::
  "'z env \<Rightarrow> string \<Rightarrow> string \<Rightarrow> ('z world_scheme, NASSecurityGroup option) prog" where
  "RevokeCIDRIP E name cidrip = api (RevokeIngress name cidrip) (\<lambda>h. revokeNsg E h name cidrip)"

section \<open>The other services\<close>

text \<open>
  The client's own fields; the SDK's clients are built from the same credentials. Parsing and
  setting the endpoint for tests (\<open>DevEp\<close>) is part of the request for the clusters.
\<close>

record cloud_client =
  cl_Region :: string
  cl_DevEp :: string

definition NewCloud :: "'z env \<Rightarrow> string \<Rightarrow> string \<Rightarrow> gerror + cloud_client" where
  "NewCloud E region devcloudep =
     (if getenv E ''AWS_ACCESS_KEY_ID'' = '''' then Inl (Errorf ''cannot set accesskey from env'')
      else if getenv E ''AWS_SECRET_ACCESS_KEY'' = '''' then Inl (Errorf ''cannot set secretkey from env'')
      else Inr \<lparr>cl_Region = region, cl_DevEp = devcloudep\<rparr>)"

definition ListClusters :: "'z env \<Rightarrow> string \<Rightarrow> ('z world_scheme, Cluster list) prog" where
  "ListClusters E devEp = api (DescribeClusters devEp) (\<lambda>h. describeClusters E h devEp)"

definition ListInstances :: "'z env \<Rightarrow> ('z world_scheme, Instance list) prog" where
  "ListInstances E = bindP (api DescribeInstances (describeInstances E)) (\<lambda>rs. retP (concat rs))"

definition GetPrivateLan :: "'z env \<Rightarrow> string \<Rightarrow> ('z world_scheme, PrivateLan) prog" where
  "GetPrivateLan E networkID =
     bindP (api (DescribePrivateLans networkID) (\<lambda>h. describePrivateLans E h networkID)) first_item"

text \<open>The pools and the static leases of a network, collected over the router's networks.\<close>

fun dhcp_of :: "string \<Rightarrow> DhcpStatus list \<Rightarrow> ('s, ip_pool list \<times> lease list) prog" where
  "dhcp_of networkID [] = retP ([], [])"
| "dhcp_of networkID (i # is) =
     bindP (derefP (dhcp_NetworkId i)) (\<lambda>n.
     if n \<noteq> networkID then dhcp_of networkID is
     else bindP (derefP (dhcp_Information i)) (\<lambda>(ps, ls).
          bindP (dhcp_of networkID is) (\<lambda>(pools, ips).
          retP (ps @ pools, filter (\<lambda>l. pstr (fst l) = ''static'') ls @ ips))))"

definition GetDhcpStatus ::
  "'z env \<Rightarrow> string \<Rightarrow> string \<Rightarrow> ('z world_scheme, ip_pool list \<times> lease list) prog" where
  "GetDhcpStatus E networkID routerID =
     bindP (api (DescribeDhcpStatus routerID) (\<lambda>h. describeDhcp E h routerID)) (dhcp_of networkID)"

definition ListRdbInstances :: "'z env \<Rightarrow> ('z world_scheme, DBInstance list) prog" where
  "ListRdbInstances E = api DescribeDBInstances (describeDBs E)"

section \<open>Which calls are made\<close>

lemma keeps_first_item: "keeps (extends C) (first_item xs)"
  by (auto simp: first_item_def intro!: world_intros split: list.split)

lemma keeps_cloud:
  "(\<And>n. C (DescribeNASInstances n)) \<Longrightarrow> keeps (extends C) (GetNasInstance E name)"
  "(\<And>n. C (DescribeNASInstances n)) \<Longrightarrow> keeps (extends C) (ListNasInstances E)"
  "C (CreateNASInstance i) \<Longrightarrow> keeps (extends C) (CreateNasInstance E i)"
  "C (ModifyNASInstance name (Some ''true'') []) \<Longrightarrow> keeps (extends C) (ModifyNasInstance E name)"
  "C (ModifyNASInstance name None [sg]) \<Longrightarrow> keeps (extends C) (ChangeNasInstanceSecurityGroup E name sg)"
  "C (DeleteNASInstance name) \<Longrightarrow> keeps (extends C) (DeleteNasInstance E name)"
  "keeps (extends C) (GenerateVolumeIDFromNasInstance region obj)"
  "(\<And>n. C (DescribeNASInstances n)) \<Longrightarrow> keeps (extends C) (GetNasInstanceFromVolumeID E vid)"
  "C (DescribeNASSecurityGroups name) \<Longrightarrow> keeps (extends C) (GetNasSecurityGroup E name)"
  "C (CreateNASSecurityGroup zone name) \<Longrightarrow> keeps (extends C) (CreateNasSecurityGroup E zone name)"
  "C (AuthorizeIngress name ip) \<Longrightarrow> keeps (extends C) (AuthorizeCIDRIP E name ip)"
  "C (RevokeIngress name ip) \<Longrightarrow> keeps (extends C) (RevokeCIDRIP E name ip)"
  by (auto simp: GetNasInstance_def ListNasInstances_def CreateNasInstance_def ModifyNasInstance_def
      ChangeNasInstanceSecurityGroup_def DeleteNasInstance_def GenerateVolumeIDFromNasInstance_def
      GetNasInstanceFromVolumeID_def GetNasSecurityGroup_def CreateNasSecurityGroup_def
      AuthorizeCIDRIP_def RevokeCIDRIP_def Let_def intro!: world_intros keeps_first_item)

lemma keeps_dhcp_of: "keeps (extends C) (dhcp_of networkID is)"
  by (induction "is") (auto intro!: world_intros split: prod.split)

lemma keeps_network:
  "C (DescribeClusters ep) \<Longrightarrow> keeps (extends C) (ListClusters E ep)"
  "C DescribeInstances \<Longrightarrow> keeps (extends C) (ListInstances E)"
  "C (DescribePrivateLans n) \<Longrightarrow> keeps (extends C) (GetPrivateLan E n)"
  "C (DescribeDhcpStatus r) \<Longrightarrow> keeps (extends C) (GetDhcpStatus E n r)"
  "C DescribeDBInstances \<Longrightarrow> keeps (extends C) (ListRdbInstances E)"
  by (auto simp: ListClusters_def ListInstances_def GetPrivateLan_def GetDhcpStatus_def
      ListRdbInstances_def intro!: world_intros keeps_first_item keeps_dhcp_of)

lemma run_api: "api c answer s = (case answer (trace s) of
    Inl e \<Rightarrow> (Fail e, s\<lparr>trace := trace s @ [c]\<rparr>) | Inr a \<Rightarrow> (Ret a, s\<lparr>trace := trace s @ [c]\<rparr>))"
  by (rule api_def)

section \<open>Volume IDs\<close>

text \<open>
  C35. A volume ID leads back to its instance: for an instance whose name, like the region, has
  no slash, looking up the generated ID asks the cloud for exactly that name.
\<close>

theorem volume_id_roundtrip:
  assumes "ni_Identifier n = Some name" and "CHR ''/'' \<notin> set region" and "CHR ''/'' \<notin> set name"
  shows "\<exists>vid. GenerateVolumeIDFromNasInstance region n s = (Ret vid, s) \<and>
    GetNasInstanceFromVolumeID E vid = GetNasInstance E name"
proof -
  have "Split (region @ CHR ''/'' # name) (CHR ''/'') = [region, name]"
    using assms(2,3) by (simp add: Split_append Split_no_sep)
  then show ?thesis
    using assms(1)
    by (simp add: GenerateVolumeIDFromNasInstance_def GetNasInstanceFromVolumeID_def bindP_def
        derefP_def retP_def)
qed

theorem volume_id_roundtrip_witness:
  "\<exists>vid. GenerateVolumeIDFromNasInstance ''jp-east-1'' example_instance (\<lparr>trace = []\<rparr> :: world) = (Ret vid, \<lparr>trace = []\<rparr>) \<and>
    GetNasInstanceFromVolumeID (quiet_env :: unit env) vid = GetNasInstance quiet_env ''pvc-1''"
  by (rule volume_id_roundtrip) (simp_all add: example_instance_def)

text \<open>
  A volume ID that has not exactly one slash is refused without asking the cloud.
\<close>

theorem volume_id_malformed:
  assumes "length (Split vid (CHR ''/'')) \<noteq> 2"
  shows "\<exists>m. GetNasInstanceFromVolumeID E vid s = (Fail (Errorf m), s)"
  using assms by (simp add: GetNasInstanceFromVolumeID_def failP_def)

theorem volume_id_malformed_witness:
  "\<exists>m. GetNasInstanceFromVolumeID quiet_env ''jp-east-1/shd001/pvc-1'' (\<lparr>trace = []\<rparr> :: world) =
    (Fail (Errorf m), \<lparr>trace = []\<rparr>)"
  by (rule volume_id_malformed) simp

end
