(* ===== verification/NfsJob.thy ===== *)
theory NfsJob
  imports Cloud
begin

text \<open>
  The Kubernetes jobs by which the controller works on the files of a NAS instance
  (pkg/driver/shared_utils.go): the job that mounts the export at \<open>/mnt\<close>, its execution with
  backoff, and the three commands (make, change mode, remove a source path).
\<close>

definition nfsJob :: "string \<Rightarrow> string \<Rightarrow> string \<Rightarrow> string \<Rightarrow> Job" where
  "nfsJob ip path name namespace =
     \<lparr>job_name = name, job_namespace = namespace, job_image = ''alpine'', job_args = [],
      job_env = [], job_mounts = [(''nfs'', ''/mnt'', False)],
      job_volumes = [(''nfs'', NFS ip path)], job_hostname = '''', job_backoffLimit = 2\<rparr>"

definition IsAlreadyExists :: "gerror \<Rightarrow> bool" where
  "IsAlreadyExists e = (case e of KubeErr exists m \<Rightarrow> exists | _ \<Rightarrow> False)"

definition CreateJobP :: "'z env \<Rightarrow> Job \<Rightarrow> ('z world_scheme, unit) prog" where
  "CreateJobP E job = api (CreateJob job) (\<lambda>h. createJob E h job)"

definition DeleteJobP :: "'z env \<Rightarrow> string \<Rightarrow> string \<Rightarrow> ('z world_scheme, unit) prog" where
  "DeleteJobP E namespace name = api (DeleteJob namespace name) (\<lambda>h. deleteJob E h namespace name)"

text \<open>The operation that \<open>doNfsJob\<close> and \<open>doResticJob\<close> retry.\<close>

definition chkJobCompleted :: "'z env \<Rightarrow> string \<Rightarrow> string \<Rightarrow> ('z world_scheme, attempt) prog" where
  "chkJobCompleted E namespace name =
     bindP (tryP (api (GetJob namespace name) (\<lambda>h. getJob E h namespace name))) (\<lambda>r. case r of
         Inl e \<Rightarrow> retP (Permanent e)
       | Inr conditions \<Rightarrow>
           if conditions \<noteq> [] then
             (if hd conditions = ''Failed''
              then retP (Permanent (Errorf (''Job '' @ name @ '' failed''))) else retP Done)
           else retP (Transient (Errorf (''Job '' @ name @ '' is running''))))"

text \<open>
  Creating the job; when one of that name is left over it is deleted and the creation tried
  once more. \<open>kind\<close> is the word in the messages (\<open>nfs\<close> or \<open>restic\<close>).
\<close>

definition start_job :: "'z env \<Rightarrow> string \<Rightarrow> Job \<Rightarrow> ('z world_scheme, unit) prog" where
  "start_job E kind job =
     bindP (tryP (CreateJobP E job)) (\<lambda>r. case r of
         Inr _ \<Rightarrow> retP ()
       | Inl e \<Rightarrow>
           if \<not> IsAlreadyExists e
           then failP (Errorf (''Creating '' @ kind @ '' job error - '' @ errText e))
           else bindP (tryP (DeleteJobP E (job_namespace job) (job_name job))) (\<lambda>_.
                wrapP (\<lambda>e. Errorf (''Re-creating '' @ kind @ '' job error - '' @ errText e))
                  (CreateJobP E job)))"

definition job_logs :: "'z env \<Rightarrow> string \<Rightarrow> string \<Rightarrow> ('z world_scheme, 'b option) prog" where
  "job_logs E namespace name =
     bindP (wrapP (\<lambda>e. Errorf (''Listing job pods error - '' @ errText e))
        (api (ListPods namespace) (\<lambda>h. listPods E h namespace))) (\<lambda>pods.
     eachP pods (\<lambda>pod.
       if pod_owners pod \<noteq> [] \<and> hd (pod_owners pod) = name then
         bindP (wrapP (\<lambda>e. Errorf (''Logs request error - '' @ errText e))
           (api (GetPodLogs namespace (pod_name pod)) (\<lambda>h. podLogs E h namespace (pod_name pod))))
           (\<lambda>out. failP (Errorf out))
       else retP None))"

definition doNfsJob :: "'z env \<Rightarrow> Job \<Rightarrow> ('z world_scheme, unit) prog" where
  "doNfsJob E job =
     (let name = job_name job; namespace = job_namespace job
      in bindP (start_job E ''nfs'' job) (\<lambda>_.
         deferP (\<lambda>_. bindP (tryP (DeleteJobP E namespace name)) (\<lambda>_. retP ()))
           (bindP (tryP (retry E (chkJobCompleted E namespace name))) (\<lambda>r. case r of
               Inr _ \<Rightarrow> retP ()
             | Inl e \<Rightarrow> bindP (job_logs E namespace name) (\<lambda>_ :: unit option.
                 failP (Errorf (''Cannot find pod for job '' @ name)))))))"

text \<open>The driver appends the command to the container's arguments.\<close>

definition with_args :: "string list \<Rightarrow> Job \<Rightarrow> Job" where
  "with_args args job = job\<lparr>job_args := job_args job @ args\<rparr>"

definition makeSourcePath ::
  "'z env \<Rightarrow> string \<Rightarrow> string \<Rightarrow> string \<Rightarrow> string \<Rightarrow> ('z world_scheme, unit) prog" where
  "makeSourcePath E ip nasName sourcePath permission =
     (let job = nfsJob ip ''/'' nasName ''default''
      in doNfsJob E (if permission = ''''
           then with_args [''mkdir'', path_join [''/mnt'', sourcePath]] job
           else with_args [''mkdir'', ''-m'', permission, path_join [''/mnt'', sourcePath]] job))"

definition changeModeSourcePath ::
  "'z env \<Rightarrow> string \<Rightarrow> string \<Rightarrow> string \<Rightarrow> string \<Rightarrow> ('z world_scheme, unit) prog" where
  "changeModeSourcePath E ip nasName sourcePath permission =
     (if permission = '''' then retP ()
      else doNfsJob E (with_args [''chmod'', permission, path_join [''/mnt'', sourcePath]]
             (nfsJob ip ''/'' nasName ''default'')))"

definition removeSourcePath ::
  "'z env \<Rightarrow> string \<Rightarrow> string \<Rightarrow> string \<Rightarrow> ('z world_scheme, unit) prog" where
  "removeSourcePath E ip nasName sourcePath =
     doNfsJob E (with_args [''rm'', ''-rf'', path_join [''/mnt'', sourcePath]]
       (nfsJob ip ''/'' nasName ''default''))"

section \<open>Which calls are made\<close>

text \<open>The calls on jobs and their pods: those a source path command may make.\<close>

fun job_call :: "call \<Rightarrow> bool" where
  "job_call (CreateJob j) = True"
| "job_call (DeleteJob ns n) = True"
| "job_call (GetJob ns n) = True"
| "job_call (ListPods ns) = True"
| "job_call (GetPodLogs ns n) = True"
| "job_call _ = False"

lemma keeps_start_job:
  "(\<And>c. job_call c \<Longrightarrow> C c) \<Longrightarrow> keeps (extends C) (start_job E kind job)"
  by (auto simp: start_job_def CreateJobP_def DeleteJobP_def intro!: world_intros split: sum.split)

lemma keeps_chkJobCompleted:
  "(\<And>c. job_call c \<Longrightarrow> C c) \<Longrightarrow> keeps (extends C) (chkJobCompleted E ns name)"
  by (auto simp: chkJobCompleted_def intro!: world_intros split: sum.split)

lemma keeps_job_logs:
  "(\<And>c. job_call c \<Longrightarrow> C c) \<Longrightarrow> keeps (extends C) (job_logs E ns name)"
  by (auto simp: job_logs_def intro!: world_intros)

lemma keeps_doNfsJob:
  assumes "retry_contract E" and "\<And>c. job_call c \<Longrightarrow> C c"
  shows "keeps (extends C) (doNfsJob E job)"
  using assms
  by (auto simp: doNfsJob_def Let_def DeleteJobP_def
      intro!: world_intros keeps_start_job keeps_chkJobCompleted keeps_job_logs split: sum.split)

lemma keeps_source_path:
  assumes "retry_contract E" and "\<And>c. job_call c \<Longrightarrow> C c"
  shows "keeps (extends C) (makeSourcePath E ip nas path perm)"
    and "keeps (extends C) (changeModeSourcePath E ip nas path perm)"
    and "keeps (extends C) (removeSourcePath E ip nas path)"
  using keeps_doNfsJob [OF assms]
  by (simp_all add: makeSourcePath_def changeModeSourcePath_def removeSourcePath_def Let_def
      ext.keeps_ret)

section \<open>Nothing is left behind\<close>

text \<open>A deferred call that ignores its error is the last call, and the body's outcome stands.\<close>

lemma deferred_call:
  assumes "deferP (\<lambda>_. bindP (tryP (api c answer)) (\<lambda>_. retP ())) m s = (r, t)" and "r \<noteq> Blocked"
  shows "\<exists>u. t = u\<lparr>trace := trace u @ [c]\<rparr> \<and> m s = (r, u)"
proof -
  obtain o1 u where u: "m s = (o1, u)" by (cases "m s")
  have "bindP (tryP (api c answer)) (\<lambda>_. retP ()) u = (Ret (), u\<lparr>trace := trace u @ [c]\<rparr>)"
    by (simp add: bindP_def tryP_def api_def retP_def split: sum.split)
  then show ?thesis using assms u by (cases o1) (auto simp: deferP_def)
qed

lemma start_job_fails:
  assumes "start_job E kind job s = (r, t)" and "r \<noteq> Ret ()"
  shows "\<exists>h m. trace t = trace s @ h @ [CreateJob job] \<and> r = Fail (Errorf m)"
  using assms
  by (auto simp: start_job_def CreateJobP_def DeleteJobP_def bindP_def tryP_def wrapP_def api_def
      retP_def failP_def split: sum.splits if_splits)

lemma bindP_stops: "m s = (Fail e, t) \<Longrightarrow> bindP m f s = (Fail e, t)"
  by (simp add: bindP_def)


lemma createJob_quiet: "createJob quiet_env h j = Inl (Errorf ''unavailable'')"
  by (simp add: quiet_env_def)


end
