(* ===== verification/Reservation.thy ===== *)
theory Reservation
  imports GoProgram
begin

text \<open>
  The contract that the in-memory holders of the controller share: a request reserves a key
  that nobody holds, a release gives it back. \<open>rstep\<close> interleaves any number of owners (the
  goroutines of the gRPC server) over one holder; the locale proves once that no two owners
  ever hold the same key.
\<close>

text \<open>\<open>own\<close> maps an owner to the key it holds; an owner holds at most one.\<close>

inductive rstep ::
  "('req \<Rightarrow> 's \<Rightarrow> ('k \<times> 's) option) \<Rightarrow> ('k \<Rightarrow> 's \<Rightarrow> 's) \<Rightarrow>
   's \<times> ('o \<rightharpoonup> 'k) \<Rightarrow> 's \<times> ('o \<rightharpoonup> 'k) \<Rightarrow> bool"
  for reserve release where
  acquire: "own g = None \<Longrightarrow> reserve q s = Some (k, t) \<Longrightarrow>
    rstep reserve release (s, own) (t, own(g \<mapsto> k))"
| refuse: "own g = None \<Longrightarrow> reserve q s = None \<Longrightarrow> rstep reserve release (s, own) (s, own)"
| give_back: "own g = Some k \<Longrightarrow> rstep reserve release (s, own) (release k s, own(g := None))"

inductive_cases rstepE: "rstep reserve release (s, own) (t, own')"

locale reservation =
  fixes held :: "'s \<Rightarrow> 'k set"
    and reserve :: "'req \<Rightarrow> 's \<Rightarrow> ('k \<times> 's) option"
    and release :: "'k \<Rightarrow> 's \<Rightarrow> 's"
  assumes reserve_fresh: "reserve q s = Some (k, t) \<Longrightarrow> k \<notin> held s"
    and reserve_held: "reserve q s = Some (k, t) \<Longrightarrow> held t = insert k (held s)"
    and release_held: "held (release k s) = held s - {k}"
begin

lemma reserve_release: "reserve q s = Some (k, t) \<Longrightarrow> held (release k t) = held s"
  using reserve_fresh reserve_held release_held by auto

lemma reserve_twice:
  "reserve q s = Some (k, t) \<Longrightarrow> reserve q' t = Some (k', u) \<Longrightarrow> k \<noteq> k'"
  using reserve_fresh reserve_held by blast

text \<open>The owners hold exactly reserved keys, each one alone.\<close>

lemma rstep_invariant:
  assumes "rstep reserve release c d"
    and "inj_on (snd c) (dom (snd c))" and "ran (snd c) \<subseteq> held (fst c)"
  shows "inj_on (snd d) (dom (snd d)) \<and> ran (snd d) \<subseteq> held (fst d)"
  using assms
proof (induction rule: rstep.induct)
  case (acquire own g q s k t)
  then have k: "k \<notin> held s" "held t = insert k (held s)"
    by (auto dest: reserve_fresh reserve_held)
  with acquire have "k \<notin> ran own" by auto
  then have "inj_on (own(g \<mapsto> k)) (dom (own(g \<mapsto> k)))"
    using acquire.prems(1) by (force simp: inj_on_def ran_def dom_def)
  moreover have "ran (own(g \<mapsto> k)) \<subseteq> held t"
    using acquire k by (auto simp: ran_def)
  ultimately show ?case by (simp only: fst_conv snd_conv simp_thms)
next
  case (refuse own g q s)
  then show ?case by simp
next
  case (give_back own g k s)
  have "k \<notin> ran (own(g := None))"
    using give_back by (force simp: ran_def inj_on_def dom_def split: if_splits)
  moreover have "ran (own(g := None)) \<subseteq> ran own"
    by (auto simp: ran_def split: if_splits)
  ultimately have "ran (own(g := None)) \<subseteq> held (release k s)"
    using give_back unfolding release_held by auto
  moreover have "inj_on (own(g := None)) (dom (own(g := None)))"
    using give_back by (force simp: inj_on_def dom_def)
  ultimately show ?case by (simp only: fst_conv snd_conv simp_thms)
qed

lemma run_invariant:
  assumes "(rstep reserve release)\<^sup>*\<^sup>* (s, Map.empty) (t, own)"
  shows "inj_on own (dom own) \<and> ran own \<subseteq> held t"
proof -
  have "inj_on (snd (t, own)) (dom (snd (t, own))) \<and> ran (snd (t, own)) \<subseteq> held (fst (t, own))"
    using assms
  proof (induction rule: rtranclp_induct)
    case base
    then show ?case by simp
  next
    case (step c d)
    then show ?case using rstep_invariant by blast
  qed
  then show ?thesis by simp
qed

lemma no_two_owners:
  assumes "(rstep reserve release)\<^sup>*\<^sup>* (s, Map.empty) (t, own)"
    and "own g = Some k" and "own h = Some k"
  shows "g = h"
proof -
  have "inj_on own (dom own)" using run_invariant [OF assms(1)] by blast
  then show ?thesis using assms(2,3) by (metis domI inj_onD)
qed

end

text \<open>A program on the holder, seen as a partial reservation: an error reserves nothing.\<close>

definition as_reserve :: "('req \<Rightarrow> ('s, 'k) prog) \<Rightarrow> 'req \<Rightarrow> 's \<Rightarrow> ('k \<times> 's) option" where
  "as_reserve m q s = (case m q s of (Ret k, t) \<Rightarrow> Some (k, t) | _ \<Rightarrow> None)"

definition as_release :: "('k \<Rightarrow> ('s, unit) prog) \<Rightarrow> 'k \<Rightarrow> 's \<Rightarrow> 's" where
  "as_release m k s = snd (m k s)"

lemma as_reserve_Some: "as_reserve m q s = Some (k, t) \<longleftrightarrow> m q s = (Ret k, t)"
  by (auto simp: as_reserve_def split: prod.splits outcome.splits)

end
