(* ===== verification/NetIP.thy ===== *)
theory NetIP
  imports Prelude
begin

text \<open>
  The part of Go's package \<open>net\<close> (Go 1.14) that the driver uses: addresses as byte slices,
  masks, parsing and printing, \<open>IPNet.Contains\<close>; and the numeric reading of an address
  (\<open>ipval\<close>) by which the component theories reason about ranges of addresses.
\<close>

unbundle bit_operations_syntax

type_synonym byte = "8 word"
type_synonym IP = "byte list"

text \<open>A nil slice is \<open>[]\<close>.\<close>

record IPNet =
  net_IP :: IP
  net_Mask :: "byte list"

definition v4InV6Prefix :: "byte list" where
  "v4InV6Prefix = [0, 0, 0, 0, 0, 0, 0, 0, 0, 0, 255, 255]"

definition To4 :: "IP \<Rightarrow> IP" where
  "To4 ip = (if length ip = 4 then ip
     else if length ip = 16 \<and> take 12 ip = v4InV6Prefix then drop 12 ip else [])"

definition To16 :: "IP \<Rightarrow> IP" where
  "To16 ip = (if length ip = 4 then v4InV6Prefix @ ip
     else if length ip = 16 then ip else [])"

definition ip_Equal :: "IP \<Rightarrow> IP \<Rightarrow> bool" where
  "ip_Equal ip x = (if length ip = length x then ip = x
     else if length ip = 4 \<and> length x = 16 then take 12 x = v4InV6Prefix \<and> ip = drop 12 x
     else if length ip = 16 \<and> length x = 4 then take 12 ip = v4InV6Prefix \<and> drop 12 ip = x
     else False)"

fun cidr_bytes :: "nat \<Rightarrow> nat \<Rightarrow> byte list" where
  "cidr_bytes 0 n = []"
| "cidr_bytes (Suc l) n =
     (if n \<ge> 8 then 255 # cidr_bytes l (n - 8) else NOT (drop_bit n 255) # cidr_bytes l 0)"

definition CIDRMask :: "int \<Rightarrow> int \<Rightarrow> byte list" where
  "CIDRMask ones bits =
     (if bits \<noteq> 32 \<and> bits \<noteq> 128 then [] else if ones < 0 \<or> ones > bits then []
      else cidr_bytes (nat bits div 8) (nat ones))"

text \<open>Number of leading ones of a byte whose other bits are zero; \<open>None\<close> otherwise.\<close>

fun byte_ones :: "nat \<Rightarrow> byte \<Rightarrow> nat option" where
  "byte_ones 0 v = (if v = 0 then Some 0 else None)"
| "byte_ones (Suc k) v =
     (if v AND 128 \<noteq> 0 then map_option Suc (byte_ones k (push_bit 1 v))
      else if v = 0 then Some 0 else None)"

fun simpleMaskLength :: "byte list \<Rightarrow> nat option" where
  "simpleMaskLength [] = Some 0"
| "simpleMaskLength (v # m) =
     (if v = 255 then map_option (\<lambda>n. n + 8) (simpleMaskLength m)
      else if list_all (\<lambda>b. b = 0) m then byte_ones 8 v else None)"

definition mask_Size :: "byte list \<Rightarrow> int \<times> int" where
  "mask_Size m = (case simpleMaskLength m of
       None \<Rightarrow> (0, 0) | Some n \<Rightarrow> (int n, int (length m * 8)))"

definition ip_Mask :: "IP \<Rightarrow> byte list \<Rightarrow> IP" where
  "ip_Mask ip msk =
     (let m1 = (if length msk = 16 \<and> length ip = 4 \<and> list_all (\<lambda>b. b = 255) (take 12 msk)
                   then drop 12 msk else msk);
          ip' = (if length m1 = 4 \<and> length ip = 16 \<and> take 12 ip = v4InV6Prefix
                 then drop 12 ip else ip)
      in if length ip' \<noteq> length m1 then [] else map2 (AND) ip' m1)"

definition networkNumberAndMask :: "IPNet \<Rightarrow> IP \<times> byte list" where
  "networkNumberAndMask n =
     (let ip = (if To4 (net_IP n) \<noteq> [] then To4 (net_IP n)
                else if length (net_IP n) = 16 then net_IP n else []);
          m = net_Mask n
      in if ip = [] then ([], [])
         else if length m = 4 then (if length ip \<noteq> 4 then ([], []) else (ip, m))
         else if length m = 16 then (ip, if length ip = 4 then drop 12 m else m)
         else ([], []))"

definition net_Contains :: "IPNet \<Rightarrow> IP \<Rightarrow> bool" where
  "net_Contains n ip =
     (let (nn, m) = networkNumberAndMask n;
          x = (if To4 ip \<noteq> [] then To4 ip else ip)
      in length x = length nn \<and> map2 (AND) nn m = map2 (AND) x m)"

section \<open>Parsing\<close>

fun dtoi_loop :: "nat \<Rightarrow> string \<Rightarrow> (nat \<times> string) option" where
  "dtoi_loop n [] = Some (n, [])"
| "dtoi_loop n (c # s) =
     (if is_digit c
      then let m = 10 * n + digit_val c in if m \<ge> 0xFFFFFF then None else dtoi_loop m s
      else Some (n, c # s))"

text \<open>\<open>dtoi\<close> and \<open>xtoi\<close> return the number and the unread rest.\<close>

definition dtoi :: "string \<Rightarrow> (nat \<times> string) option" where
  "dtoi s = (if s \<noteq> [] \<and> is_digit (hd s) then dtoi_loop 0 s else None)"

definition hex_val :: "char \<Rightarrow> nat option" where
  "hex_val c = (let n = of_char c in
     if 48 \<le> n \<and> n \<le> 57 then Some (n - 48)
     else if 97 \<le> n \<and> n \<le> 102 then Some (n - 87)
     else if 65 \<le> n \<and> n \<le> 70 then Some (n - 55) else None)"

fun xtoi_loop :: "nat \<Rightarrow> string \<Rightarrow> (nat \<times> string) option" where
  "xtoi_loop n [] = Some (n, [])"
| "xtoi_loop n (c # s) =
     (case hex_val c of
        Some d \<Rightarrow> (let m = 16 * n + d in if m \<ge> 0xFFFFFF then None else xtoi_loop m s)
      | None \<Rightarrow> Some (n, c # s))"

definition xtoi :: "string \<Rightarrow> (nat \<times> string) option" where
  "xtoi s = (if s \<noteq> [] \<and> hex_val (hd s) \<noteq> None then xtoi_loop 0 s else None)"

fun parse4_loop :: "nat \<Rightarrow> bool \<Rightarrow> IP \<Rightarrow> string \<Rightarrow> IP" where
  "parse4_loop 0 first acc s = (if s = [] then v4InV6Prefix @ acc else [])"
| "parse4_loop (Suc k) first acc s =
     (if s = [] then []
      else if \<not> first \<and> hd s \<noteq> CHR ''.'' then []
      else case dtoi (if first then s else tl s) of
             None \<Rightarrow> []
           | Some (n, r) \<Rightarrow> if n > 255 then []
                           else parse4_loop k False (acc @ [word_of_nat n]) r)"

definition parseIPv4 :: "string \<Rightarrow> IP" where
  "parseIPv4 s = parse4_loop 4 True [] s"

definition parse6_finish :: "IP \<Rightarrow> nat option \<Rightarrow> IP" where
  "parse6_finish acc ell =
     (if length acc < 16
      then (case ell of None \<Rightarrow> []
            | Some e \<Rightarrow> take e acc @ replicate (16 - length acc) 0 @ drop e acc)
      else if ell \<noteq> None then [] else acc)"

fun parse6_loop :: "nat \<Rightarrow> IP \<Rightarrow> nat option \<Rightarrow> string \<Rightarrow> IP" where
  "parse6_loop 0 acc ell s = (if s \<noteq> [] then [] else parse6_finish acc ell)"
| "parse6_loop (Suc k) acc ell s =
     (case xtoi s of
        None \<Rightarrow> []
      | Some (n, r) \<Rightarrow>
          if n > 0xFFFF then []
          else if take 1 r = ''.'' then
            (if ell = None \<and> length acc \<noteq> 12 then []
             else if length acc + 4 > 16 then []
             else let ip4 = parseIPv4 s
                  in if ip4 = [] then [] else parse6_finish (acc @ drop 12 ip4) ell)
          else let acc' = acc @ [word_of_nat (n div 256), word_of_nat (n mod 256)]
               in if r = [] then parse6_finish acc' ell
                  else if hd r \<noteq> CHR '':'' \<or> length r = 1 then []
                  else if hd (tl r) = CHR '':'' then
                    (if ell \<noteq> None then []
                     else let s' = tl (tl r)
                          in if s' = [] then parse6_finish acc' (Some (length acc'))
                             else parse6_loop k acc' (Some (length acc')) s')
                  else parse6_loop k acc' ell (tl r))"

definition parseIPv6 :: "string \<Rightarrow> IP" where
  "parseIPv6 s =
     (if take 2 s = ''::''
      then (if drop 2 s = [] then replicate 16 0 else parse6_loop 8 [] (Some 0) (drop 2 s))
      else parse6_loop 8 [] None s)"

fun ip_kind :: "string \<Rightarrow> char option" where
  "ip_kind [] = None"
| "ip_kind (c # s) = (if c = CHR ''.'' \<or> c = CHR '':'' then Some c else ip_kind s)"

definition ParseIP :: "string \<Rightarrow> IP" where
  "ParseIP s = (case ip_kind s of
       None \<Rightarrow> [] | Some c \<Rightarrow> if c = CHR ''.'' then parseIPv4 s else parseIPv6 s)"

definition ParseCIDR :: "string \<Rightarrow> string + (IP \<times> IPNet)" where
  "ParseCIDR s =
     (let bad = ''invalid CIDR address: '' @ s;
          addr = takeWhile (\<lambda>c. c \<noteq> CHR ''/'') s;
          rest = dropWhile (\<lambda>c. c \<noteq> CHR ''/'') s
      in if rest = [] then Inl bad
         else let ip4 = parseIPv4 addr;
                  iplen = (if ip4 = [] then 16 else 4 :: nat);
                  ip = (if ip4 = [] then parseIPv6 addr else ip4)
              in if ip = [] then Inl bad
                 else case dtoi (tl rest) of
                     None \<Rightarrow> Inl bad
                   | Some (n, r) \<Rightarrow>
                       if r \<noteq> [] \<or> n > 8 * iplen then Inl bad
                       else let m = CIDRMask (int n) (8 * int iplen)
                            in Inr (ip, \<lparr>net_IP = ip_Mask ip m, net_Mask = m\<rparr>))"

section \<open>Printing\<close>

definition hex_digit :: "nat \<Rightarrow> char" where
  "hex_digit n = (if n < 10 then digit_char n else char_of (87 + n))"

fun show_hex :: "nat \<Rightarrow> string" where
  "show_hex n = (if n < 16 then [hex_digit n] else show_hex (n div 16) @ [hex_digit (n mod 16)])"

declare show_hex.simps [simp del]

definition hexString :: "byte list \<Rightarrow> string" where
  "hexString bs = concat (map (\<lambda>b. [hex_digit (unat b div 16), hex_digit (unat b mod 16)]) bs)"

fun ip_groups :: "IP \<Rightarrow> nat list" where
  "ip_groups (a # b # ip) = (unat a * 256 + unat b) # ip_groups ip"
| "ip_groups _ = []"

definition zero_run :: "nat list \<Rightarrow> nat \<Rightarrow> nat" where
  "zero_run gs i = length (takeWhile (\<lambda>g. g = 0) (drop i gs))"

definition longest_run :: "nat list \<Rightarrow> nat \<times> nat" where
  "longest_run gs = foldl (\<lambda>(e, l) i. if zero_run gs i > l then (i, zero_run gs i) else (e, l))
     (0, 0) [0..<length gs]"

definition ip_String :: "IP \<Rightarrow> string" where
  "ip_String ip =
     (if ip = [] then ''<nil>''
      else if To4 ip \<noteq> [] then Join (map (\<lambda>b. show_nat (unat b)) (To4 ip)) ''.''
      else if length ip \<noteq> 16 then ''?'' @ hexString ip
      else let gs = ip_groups ip; (e, l) = longest_run gs
           in if l < 2 then Join (map show_hex gs) '':''
              else Join (map show_hex (take e gs)) '':'' @ ''::''
                     @ Join (map show_hex (drop (e + l) gs)) '':'')"

definition net_String :: "IPNet \<Rightarrow> string" where
  "net_String n =
     (let (nn, m) = networkNumberAndMask n
      in if nn = [] \<or> m = [] then ''<nil>''
         else case simpleMaskLength m of
             None \<Rightarrow> ip_String nn @ ''/'' @ hexString m
           | Some l \<Rightarrow> ip_String nn @ ''/'' @ show_nat l)"

end
