(* ===== verification/NetFacts.thy ===== *)
theory NetFacts
  imports NetIP
begin

text \<open>
  Addresses as numbers. \<open>ipval\<close> reads an address as a big-endian number; masking with a
  CIDR mask of \<open>n\<close> ones rounds it down to a multiple of \<open>2 ^ (8 L - n)\<close>, so a network is an
  interval of numbers. Printing an IPv4 address and parsing it back gives the address.
\<close>

unbundle bit_operations_syntax

primrec ipval :: "byte list \<Rightarrow> nat" where
  "ipval [] = 0"
| "ipval (b # bs) = unat b * 256 ^ length bs + ipval bs"

lemma unat_byte_less [simp]: "unat (b :: byte) < 256"
proof -
  have "unat b < 2 ^ LENGTH(8)" by (rule unsigned_less)
  then show ?thesis by simp
qed

lemma ipval_less: "ipval bs < 256 ^ length bs"
proof (induction bs)
  case Nil
  then show ?case by simp
next
  case (Cons b bs)
  have "unat b + 1 \<le> 256" using unat_byte_less [of b] by linarith
  then have "(unat b + 1) * 256 ^ length bs \<le> 256 * 256 ^ length bs"
    by (rule mult_le_mono1)
  then have "unat b * 256 ^ length bs + 256 ^ length bs \<le> 256 * 256 ^ length bs"
    by (simp only: distrib_right mult_1)
  with Cons have "ipval (b # bs) < 256 * 256 ^ length bs"
    unfolding ipval.simps by linarith
  then show ?case by simp
qed

lemma horner_eq_iff:
  fixes a b c d p :: nat
  assumes "c < p" "d < p"
  shows "a * p + c = b * p + d \<longleftrightarrow> a = b \<and> c = d"
proof
  assume eq: "a * p + c = b * p + d"
  have "(a * p + c) div p = a" "(b * p + d) div p = b"
    using assms by simp_all
  with eq have "a = b" by simp
  with eq show "a = b \<and> c = d" by simp
qed simp

lemma ipval_inject: "length a = length b \<Longrightarrow> ipval a = ipval b \<longleftrightarrow> a = b"
proof (induction a b rule: list_induct2)
  case Nil
  then show ?case by simp
next
  case (Cons x xs y ys)
  have "ipval (x # xs) = ipval (y # ys) \<longleftrightarrow> unat x = unat y \<and> ipval xs = ipval ys"
    using horner_eq_iff [of "ipval xs" "256 ^ length xs" "ipval ys" "unat x" "unat y"]
      ipval_less [of xs] ipval_less [of ys] Cons.hyps by simp
  then show ?case using Cons.IH by (auto simp: word_unat_eq_iff)
qed

lemma ipval_append: "ipval (a @ b) = ipval a * 256 ^ length b + ipval b"
  by (induction a) (simp_all add: algebra_simps power_add)

section \<open>Masks\<close>

lemma length_cidr_bytes [simp]: "length (cidr_bytes l n) = l"
  by (induction l n rule: cidr_bytes.induct) simp_all

lemma cidr_bytes_0 [simp]: "cidr_bytes l 0 = replicate l 0"
  by (induction l) simp_all

lemma unat_and_high:
  fixes x :: byte
  assumes "k < 8"
  shows "unat (x AND NOT (drop_bit k 255)) = unat x div 2 ^ (8 - k) * 2 ^ (8 - k)"
proof -
  have m: "drop_bit k (255 :: byte) = mask (8 - k)"
    by (rule bit_word_eqI) (use assms in \<open>simp add: bit_simps bit_numeral_rec(1)
        mask_eq_exp_minus_1 [where 'a = "8 word", of 8, simplified, symmetric], linarith?\<close>)
  have "x AND NOT (mask (8 - k)) = push_bit (8 - k) (drop_bit (8 - k) x)"
    by (rule bit_word_eqI) (auto simp: bit_simps)
  then have "unat (x AND NOT (mask (8 - k))) = (unat x div 2 ^ (8 - k) * 2 ^ (8 - k)) mod 256"
    by (simp only: unsigned_push_bit_eq unsigned_drop_bit_eq push_bit_eq_mult [where 'a = nat]
        drop_bit_eq_div [where 'a = nat] take_bit_eq_mod [where 'a = nat]) simp
  moreover have "unat x div 2 ^ (8 - k) * 2 ^ (8 - k) \<le> unat x"
    by (simp add: div_times_less_eq_dividend)
  ultimately show ?thesis
    using m unat_byte_less [of x] by (simp add: mod_less)
qed

lemma unat_fill_low:
  fixes x :: byte
  assumes "k < 8"
  shows "unat ((x AND NOT (drop_bit k 255)) + NOT (NOT (drop_bit k 255))) =
    unat x div 2 ^ (8 - k) * 2 ^ (8 - k) + 2 ^ (8 - k) - 1"
proof -
  have m: "drop_bit k (255 :: byte) = mask (8 - k)"
    by (rule bit_word_eqI) (use assms in \<open>simp add: bit_simps bit_numeral_rec(1)
        mask_eq_exp_minus_1 [where 'a = "8 word", of 8, simplified, symmetric], linarith?\<close>)
  have pw: "(2 :: nat) ^ (8 - k) \<le> 256"
    using power_increasing [of "8 - k" 8 "2 :: nat"] by simp
  have um: "unat (mask (8 - k) :: byte) = 2 ^ (8 - k) - 1"
  proof -
    have "(2 :: nat) ^ (8 - k) - 1 < 256" using pw by linarith
    then have "unat (word_of_nat (2 ^ (8 - k) - 1) :: byte) = 2 ^ (8 - k) - 1"
      by (simp only: unsigned_of_nat take_bit_eq_mod) simp
    moreover have "(mask (8 - k) :: byte) = word_of_nat (2 ^ (8 - k) - 1)"
      by (simp add: mask_eq_exp_minus_1 of_nat_diff)
    ultimately show ?thesis by simp
  qed
  define q where "q = unat x div 2 ^ (8 - k)"
  have low: "unat (x AND NOT (mask (8 - k))) = q * 2 ^ (8 - k)"
    using unat_and_high [OF assms, of x] m q_def by simp
  have "q * 2 ^ (8 - k) + 2 ^ (8 - k) \<le> 256"
  proof -
    have "unat x < 2 ^ k * 2 ^ (8 - k)"
      using assms unat_byte_less [of x] by (simp add: power_add [symmetric])
    then have "q < 2 ^ k" by (simp add: q_def less_mult_imp_div_less)
    then have "(q + 1) * 2 ^ (8 - k) \<le> 2 ^ k * 2 ^ (8 - k)"
      by (intro mult_le_mono1) simp
    then show ?thesis using assms by (simp add: power_add [symmetric])
  qed
  then have "q * 2 ^ (8 - k) + (2 ^ (8 - k) - 1) < 2 ^ LENGTH(8)"
    using pw by simp
  then have "unat ((x AND NOT (mask (8 - k))) + mask (8 - k)) = q * 2 ^ (8 - k) + (2 ^ (8 - k) - 1)"
    using low um by (subst unat_add_lem [THEN iffD1]) auto
  then show ?thesis using m by (simp add: q_def)
qed

lemma pow_split: "e \<le> 8 * l \<Longrightarrow> (256 :: nat) ^ l = 2 ^ (8 * l - e) * 2 ^ e"
  by (simp add: power_add [symmetric]) (simp add: power_mult)

lemma byte_255: "(255 :: byte) = - 1"
  by simp

lemma byte_and_255 [simp]: "(b :: byte) AND 255 = b"
  by (simp only: byte_255 and.right_neutral)

lemma byte_minus_256 [simp]: "(b :: byte) - 256 = b"
proof -
  have "(256 :: byte) = 0" by transfer simp
  then show ?thesis by simp
qed

lemma byte_fill_255: "((b :: byte) AND 255) + NOT 255 = b"
  by (simp only: byte_255 and.right_neutral) simp

lemma div_pow_Cons:
  fixes x v :: nat
  assumes "e \<le> 8 * l"
  shows "(x * 256 ^ l + v) div 2 ^ e = x * 2 ^ (8 * l - e) + v div 2 ^ e"
proof -
  have "x * 256 ^ l + v = v + (x * 2 ^ (8 * l - e)) * 2 ^ e"
    using pow_split [OF assms] by simp
  then show ?thesis by (simp only: div_mult_self1 power_not_zero)
    (simp add: add.commute)
qed

lemma div_pow_high:
  fixes x v :: nat
  assumes "v < 256 ^ l"
  shows "(x * 256 ^ l + v) div 2 ^ (8 * l + j) = x div 2 ^ j"
proof -
  have "(x * 256 ^ l + v) div 256 ^ l = x" using assms by simp
  moreover have "(2 :: nat) ^ (8 * l + j) = 256 ^ l * 2 ^ j"
    by (simp add: power_add power_mult)
  ultimately show ?thesis by (simp add: div_mult2_eq)
qed

lemma map2_and_zeros: "map2 (AND) bs (replicate (length bs) (0 :: byte)) = replicate (length bs) 0"
  by (induction bs) simp_all

lemma ipval_zeros [simp]: "ipval (replicate l 0) = 0"
  by (induction l) simp_all

lemma ipval_masked:
  "n \<le> 8 * length bs \<Longrightarrow>
    ipval (map2 (AND) bs (cidr_bytes (length bs) n)) =
      ipval bs div 2 ^ (8 * length bs - n) * 2 ^ (8 * length bs - n)"
proof (induction bs arbitrary: n)
  case Nil
  then show ?case by simp
next
  case (Cons b bs)
  let ?l = "length bs"
  show ?case
  proof (cases "8 \<le> n")
    case True
    define e where "e = 8 * length (b # bs) - n"
    have e: "e \<le> 8 * ?l" "8 * ?l - (n - 8) = e" using True Cons.prems by (auto simp: e_def)
    have IH: "ipval (map2 (AND) bs (cidr_bytes ?l (n - 8))) = ipval bs div 2 ^ e * 2 ^ e"
      using Cons.IH [of "n - 8"] Cons.prems e by simp
    have p: "(256 :: nat) ^ ?l = 2 ^ (8 * ?l - e) * 2 ^ e"
      using e(1) by (rule pow_split)
    have "ipval (map2 (AND) (b # bs) (cidr_bytes (length (b # bs)) n)) =
        unat b * 256 ^ ?l + ipval bs div 2 ^ e * 2 ^ e"
      using True IH by simp
    also have "\<dots> = (unat b * 2 ^ (8 * ?l - e) + ipval bs div 2 ^ e) * 2 ^ e"
      using p by (simp add: algebra_simps)
    also have "\<dots> = ipval (b # bs) div 2 ^ e * 2 ^ e"
      using e by (simp add: div_pow_Cons)
    finally show ?thesis by (simp only: e_def)
  next
    case False
    then have n: "n < 8" by simp
    have "8 * length (b # bs) - n = 8 * ?l + (8 - n)" using n by simp
    moreover have "ipval (b # bs) div 2 ^ (8 * ?l + (8 - n)) = unat b div 2 ^ (8 - n)"
      using ipval_less [of bs] by (simp add: div_pow_high)
    moreover have "ipval (map2 (AND) (b # bs) (cidr_bytes (length (b # bs)) n)) =
        unat b div 2 ^ (8 - n) * 2 ^ (8 - n) * 256 ^ ?l"
      using n by (simp add: map2_and_zeros unat_and_high)
    ultimately show ?thesis by (simp add: power_add power_mult)
  qed
qed

lemma ipval_filled:
  "n \<le> 8 * length bs \<Longrightarrow>
    ipval (map2 (\<lambda>x m. (x AND m) + NOT m) bs (cidr_bytes (length bs) n)) =
      ipval bs div 2 ^ (8 * length bs - n) * 2 ^ (8 * length bs - n) + 2 ^ (8 * length bs - n) - 1"
proof (induction bs arbitrary: n)
  case Nil
  then show ?case by simp
next
  case (Cons b bs)
  let ?l = "length bs"
  show ?case
  proof (cases "8 \<le> n")
    case True
    define e where "e = 8 * length (b # bs) - n"
    have e: "e \<le> 8 * ?l" "8 * ?l - (n - 8) = e" using True Cons.prems by (auto simp: e_def)
    have IH: "ipval (map2 (\<lambda>x m. (x AND m) + NOT m) bs (cidr_bytes ?l (n - 8))) =
        ipval bs div 2 ^ e * 2 ^ e + 2 ^ e - 1"
      using Cons.IH [of "n - 8"] Cons.prems e by simp
    have p: "(256 :: nat) ^ ?l = 2 ^ (8 * ?l - e) * 2 ^ e"
      using e(1) by (rule pow_split)
    have "ipval (map2 (\<lambda>x m. (x AND m) + NOT m) (b # bs) (cidr_bytes (length (b # bs)) n)) =
        unat b * 256 ^ ?l + (ipval bs div 2 ^ e * 2 ^ e + 2 ^ e - 1)"
      using True IH byte_fill_255 [of b]
      by (simp only: cidr_bytes.simps list.size zip_Cons_Cons list.map prod.case if_True
          ipval.simps length_map length_zip length_cidr_bytes) simp
    also have "\<dots> = unat b * 256 ^ ?l + ipval bs div 2 ^ e * 2 ^ e + 2 ^ e - 1"
    proof -
      have "(1 :: nat) \<le> 2 ^ e" by simp
      then show ?thesis by linarith
    qed
    also have "\<dots> = (unat b * 2 ^ (8 * ?l - e) + ipval bs div 2 ^ e) * 2 ^ e + 2 ^ e - 1"
      using p by (simp add: distrib_right mult.assoc)
    also have "\<dots> = ipval (b # bs) div 2 ^ e * 2 ^ e + 2 ^ e - 1"
      using e by (simp add: div_pow_Cons)
    finally show ?thesis by (simp only: e_def)
  next
    case False
    then have n: "n < 8" by simp
    have fill: "ipval (map2 (\<lambda>x m. (x AND m) + NOT m) cs (replicate (length cs) 0)) =
        256 ^ length cs - 1" for cs :: "byte list"
    proof (induction cs)
      case (Cons c cs)
      have "(256 :: nat) ^ length cs \<ge> 1" by simp
      moreover have "unat (- 1 :: byte) = 255" by (simp flip: byte_255)
      ultimately show ?case using Cons by simp
    qed simp
    have len: "8 * length (b # bs) - n = 8 * ?l + (8 - n)" using n by simp
    have pw: "(2 :: nat) ^ (8 * ?l + (8 - n)) = 2 ^ (8 - n) * 256 ^ ?l"
      by (simp add: power_add power_mult)
    have hi: "ipval (b # bs) div 2 ^ (8 * ?l + (8 - n)) = unat b div 2 ^ (8 - n)"
      using ipval_less [of bs] by (simp add: div_pow_high)
    have "ipval (map2 (\<lambda>x m. (x AND m) + NOT m) (b # bs) (cidr_bytes (length (b # bs)) n)) =
        (unat b div 2 ^ (8 - n) * 2 ^ (8 - n) + 2 ^ (8 - n) - 1) * 256 ^ ?l + (256 ^ ?l - 1)"
      using False unat_fill_low [OF n, of b] fill [of bs]
      by (simp only: cidr_bytes.simps list.size zip_Cons_Cons list.map prod.case if_False
          ipval.simps length_map length_zip length_cidr_bytes cidr_bytes_0) simp
    moreover have "(q * p + p - 1) * r + (r - 1) = q * (p * r) + p * r - 1"
      if "p \<ge> 1" "r \<ge> 1" for p q r :: nat
    proof -
      obtain p' r' where "p = Suc p'" "r = Suc r'" using \<open>p \<ge> 1\<close> \<open>r \<ge> 1\<close>
        by (metis One_nat_def Suc_le_D)
      then show ?thesis by (simp add: algebra_simps)
    qed
    ultimately show ?thesis unfolding len hi unfolding pw by simp
  qed
qed

section \<open>Networks are intervals\<close>

lemma map2_and_eq_iff:
  assumes "length a = length b" "n \<le> 8 * length b"
  shows "map2 (AND) a (cidr_bytes (length b) n) = map2 (AND) b (cidr_bytes (length b) n) \<longleftrightarrow>
    ipval a div 2 ^ (8 * length b - n) = ipval b div 2 ^ (8 * length b - n)"
proof -
  let ?m = "cidr_bytes (length b) n"
  have "map2 (AND) a ?m = map2 (AND) b ?m \<longleftrightarrow> ipval (map2 (AND) a ?m) = ipval (map2 (AND) b ?m)"
    using assms by (simp add: ipval_inject)
  moreover have "ipval (map2 (AND) a ?m) =
      ipval a div 2 ^ (8 * length b - n) * 2 ^ (8 * length b - n)"
    using ipval_masked [of n a] assms by simp
  moreover have "ipval (map2 (AND) b ?m) =
      ipval b div 2 ^ (8 * length b - n) * 2 ^ (8 * length b - n)"
    using ipval_masked [of n b] assms by simp
  ultimately show ?thesis by simp
qed

text \<open>A network whose address and mask have the IPv4 form, with a mask of \<open>n\<close> ones.\<close>

definition net4 :: "IPNet \<Rightarrow> nat \<Rightarrow> bool" where
  "net4 d n \<longleftrightarrow> length (net_IP d) = 4 \<and> n \<le> 32 \<and> net_Mask d = cidr_bytes 4 n"

lemma To4_len4 [simp]: "length ip = 4 \<Longrightarrow> To4 ip = ip"
  by (simp add: To4_def)

lemma To4_mapped [simp]: "length ip = 4 \<Longrightarrow> To4 (v4InV6Prefix @ ip) = ip"
  by (simp add: To4_def v4InV6Prefix_def)

lemma To16_len4: "length ip = 4 \<Longrightarrow> To16 ip = v4InV6Prefix @ ip"
  by (simp add: To16_def)

lemma length_To4: "length (To4 ip) = 4 \<or> To4 ip = []"
  by (auto simp: To4_def)

lemma networkNumber_net4: "net4 d n \<Longrightarrow> networkNumberAndMask d = (net_IP d, net_Mask d)"
  by (auto simp: networkNumberAndMask_def net4_def Let_def)

lemma net_Contains_net4:
  assumes "net4 d n" "length (To4 ip) = 4"
  shows "net_Contains d ip \<longleftrightarrow>
    ipval (To4 ip) div 2 ^ (32 - n) = ipval (net_IP d) div 2 ^ (32 - n)"
proof -
  have len: "length (net_IP d) = 4" "n \<le> 32" "net_Mask d = cidr_bytes 4 n"
    using assms(1) by (auto simp: net4_def)
  have "To4 ip \<noteq> []" using assms(2) by auto
  then have "net_Contains d ip \<longleftrightarrow>
      map2 (AND) (net_IP d) (cidr_bytes 4 n) = map2 (AND) (To4 ip) (cidr_bytes 4 n)"
    using networkNumber_net4 [OF assms(1)] len assms(2) by (simp add: net_Contains_def)
  then show ?thesis
    using map2_and_eq_iff [of "net_IP d" "To4 ip" n] len assms(2) by auto
qed

lemma net_Contains_net4_long:
  assumes "net4 d n" "To4 ip = []"
  shows "\<not> net_Contains d ip"
proof -
  have "length ip \<noteq> 4" using assms(2) by (auto simp: To4_def)
  then show ?thesis
    using networkNumber_net4 [OF assms(1)] assms by (simp add: net_Contains_def net4_def)
qed

lemma div_eq_interval:
  fixes x b p :: nat
  assumes "0 < p"
  shows "x div p = b div p \<longleftrightarrow> b div p * p \<le> x \<and> x < b div p * p + p"
proof
  assume "x div p = b div p"
  then show "b div p * p \<le> x \<and> x < b div p * p + p"
    using assms by (metis add.commute div_times_less_eq_dividend dividend_less_div_times)
next
  assume "b div p * p \<le> x \<and> x < b div p * p + p"
  then show "x div p = b div p"
    using assms by (metis add.commute div_nat_eqI mult.commute mult_Suc_right)
qed

section \<open>Printing and parsing IPv4 addresses\<close>

lemma dtoi_loop_digits:
  assumes "list_all is_digit s" "digits_val n s < 0xFFFFFF"
    and "r = [] \<or> \<not> is_digit (hd r)"
  shows "dtoi_loop n (s @ r) = Some (digits_val n s, r)"
  using assms
proof (induction s arbitrary: n)
  case Nil
  then show ?case by (cases r) auto
next
  case (Cons c s)
  have "10 * n + digit_val c < 0xFFFFFF"
    using Cons.prems(2) digits_val_mono [of "10 * n + digit_val c" s] by simp
  with Cons show ?case by (simp add: Let_def)
qed

lemma dtoi_show_nat:
  assumes "n < 0xFFFFFF" "r = [] \<or> \<not> is_digit (hd r)"
  shows "dtoi (show_nat n @ r) = Some (n, r)"
proof -
  obtain c s where "show_nat n = c # s" "is_digit c" using show_nat_hd_digit by blast
  then have "dtoi (show_nat n @ r) = dtoi_loop 0 (show_nat n @ r)"
    by (simp add: dtoi_def)
  also have "\<dots> = Some (digits_val 0 (show_nat n), r)"
    using assms by (intro dtoi_loop_digits) (simp_all add: show_nat_digits digits_val_show_nat)
  finally show ?thesis by (simp add: digits_val_show_nat)
qed

lemma parse4_first:
  fixes x :: byte
  assumes "r = [] \<or> \<not> is_digit (hd r)"
  shows "parse4_loop (Suc k) True acc (show_nat (unat x) @ r) = parse4_loop k False (acc @ [x]) r"
proof -
  have lt: "unat x < 0xFFFFFF" "\<not> unat x > 255"
    using unat_byte_less [of x] by linarith+
  show ?thesis using dtoi_show_nat [OF lt(1) assms] lt(2) by simp
qed

lemma parse4_next:
  fixes x :: byte
  assumes "r = [] \<or> \<not> is_digit (hd r)"
  shows "parse4_loop (Suc k) False acc (CHR ''.'' # show_nat (unat x) @ r) =
    parse4_loop k False (acc @ [x]) r"
proof -
  have lt: "unat x < 0xFFFFFF" "\<not> unat x > 255"
    using unat_byte_less [of x] by linarith+
  show ?thesis using dtoi_show_nat [OF lt(1) assms] lt(2) by simp
qed

lemma parseIPv4_show:
  fixes a b c d :: byte
  shows "parseIPv4 (show_nat (unat a) @ ''.'' @ show_nat (unat b) @ ''.'' @ show_nat (unat c)
    @ ''.'' @ show_nat (unat d)) = v4InV6Prefix @ [a, b, c, d]"
proof -
  have dot: "\<not> is_digit (CHR ''.'')" by (simp add: is_digit_def)
  have four: "4 = Suc (Suc (Suc (Suc 0)))" by simp
  show ?thesis
    using parse4_next [of "[]" 0 "[a, b, c]" d]
    by (simp add: parseIPv4_def four parse4_first parse4_next dot del: parse4_loop.simps(2))
qed

lemma ip_kind_digits: "list_all is_digit s \<Longrightarrow> ip_kind (s @ r) = ip_kind r"
proof (induction s)
  case (Cons c s)
  then have "c \<noteq> CHR ''.''" "c \<noteq> CHR '':''" by (auto simp: is_digit_def)
  with Cons show ?case by simp
qed simp

lemma length4_cases:
  assumes "length (ip :: 'a list) = 4"
  obtains a b c d where "ip = [a, b, c, d]"
  using assms by (auto simp: length_Suc_conv numeral_eq_Suc)

lemma ip_String_4:
  "ip_String [a, b, c, d] = show_nat (unat a) @ ''.'' @ show_nat (unat b) @ ''.''
    @ show_nat (unat c) @ ''.'' @ show_nat (unat d)"
  by (simp add: ip_String_def)

lemma ParseIP_ip_String:
  assumes "length ip = 4"
  shows "ParseIP (ip_String ip) = v4InV6Prefix @ ip"
proof -
  obtain a b c d where ip: "ip = [a, b, c, d]" using assms by (rule length4_cases)
  have "ip_kind (ip_String ip) = Some (CHR ''.'')"
    by (simp add: ip ip_String_4 ip_kind_digits show_nat_digits)
  then show ?thesis
    using parseIPv4_show by (simp add: ParseIP_def ip ip_String_4)
qed

section \<open>Evaluation\<close>

lemma parse4_loop_numeral [eval_simps]:
  "parse4_loop (numeral k) first acc s =
     (if s = [] then []
      else if \<not> first \<and> hd s \<noteq> CHR ''.'' then []
      else case dtoi (if first then s else tl s) of
             None \<Rightarrow> []
           | Some (n, r) \<Rightarrow> if n > 255 then []
                           else parse4_loop (pred_numeral k) False (acc @ [word_of_nat n]) r)"
  by (simp add: numeral_eq_Suc)

lemma cidr_bytes_numeral [eval_simps]:
  "cidr_bytes (numeral l) n =
     (if n \<ge> 8 then 255 # cidr_bytes (pred_numeral l) (n - 8)
      else NOT (drop_bit n 255) # cidr_bytes (pred_numeral l) 0)"
  by (simp add: numeral_eq_Suc)

declare dtoi_def [eval_simps] ParseCIDR_def [eval_simps] parseIPv4_def [eval_simps]
  CIDRMask_def [eval_simps] ip_Mask_def [eval_simps]

end
