(* ===== verification/IPAllocator.thy ===== *)
theory IPAllocator
  imports Reservation NetFacts
begin

text \<open>
  \<open>IPAllocator\<close> (pkg/driver/utils.go): the addresses that are being given to NAS instances
  under creation, and the search for an unused address of a CIDR block. The Go map always
  stores \<open>true\<close>, so it is its set of keys.
\<close>

record IPAllocator =
  pendingIPs :: "string set"

definition newIPAllocator :: "string set \<Rightarrow> IPAllocator" where
  "newIPAllocator pending = \<lparr>pendingIPs = pending\<rparr>"

definition holdIP :: "string \<Rightarrow> IPAllocator \<Rightarrow> IPAllocator" where
  "holdIP ip a = a\<lparr>pendingIPs := insert ip (pendingIPs a)\<rparr>"

definition ReleaseIP :: "string \<Rightarrow> (IPAllocator, unit) prog" where
  "ReleaseIP ip a = (Ret (), a\<lparr>pendingIPs := pendingIPs a - {ip}\<rparr>)"

definition cloneIP :: "IP \<Rightarrow> IP" where
  "cloneIP ip = ip"

text \<open>The loop that propagates the carry over the bytes 2, 1, 0.\<close>

fun carryIP :: "IP \<Rightarrow> nat list \<Rightarrow> IP option" where
  "carryIP ip [] = None"
| "carryIP ip (j # js) =
     (if ip ! j \<noteq> 255 then Some (ip[j := ip ! j + 1]) else carryIP (ip[j := 0]) js)"

definition incrementIP :: "IP \<Rightarrow> byte \<Rightarrow> IP outcome" where
  "incrementIP ip step =
     (let inc = To4 (cloneIP ip)
      in if inc = [] then Panic ''index out of range''
         else if inc ! 3 \<le> 255 - step then Ret (inc[3 := inc ! 3 + step])
         else case carryIP (inc[3 := inc ! 3 - 255 + step - 1]) [2, 1, 0] of
             Some r \<Rightarrow> Ret r
           | None \<Rightarrow> Fail (Errorf (''ip range overflowed while incrementing IP '' @ ip_String ip
                 @ '' by step '' @ show_nat (unat step))))"

definition isUsed :: "string set \<Rightarrow> IP \<Rightarrow> bool" where
  "isUsed reserved t \<longleftrightarrow> (\<exists>r \<in> reserved. ip_Equal t (ParseIP r))"

lemma byte_not_max: "x \<noteq> 255 \<Longrightarrow> unat x \<le> 254" for x :: byte
proof -
  assume "x \<noteq> 255"
  then have "unat x \<noteq> unat (255 :: byte)" by (simp only: word_unat_eq_iff not_False_eq_True)
  then have "unat x \<noteq> 255" by simp
  then show ?thesis using unat_byte_less [of x] by linarith
qed

lemma unat_inc: "x \<noteq> 255 \<Longrightarrow> unat (x + 1) = unat x + 1" for x :: byte
  using byte_not_max [of x] by (simp add: unat_word_ariths)

lemma byte_le_254: "x \<noteq> 255 \<Longrightarrow> x \<le> 255 - 1" for x :: byte
  using byte_not_max [of x] by (simp add: word_le_nat_alt)

lemma incrementIP_val:
  assumes "length ip = 4"
  shows "case incrementIP ip 1 of
      Ret r \<Rightarrow> length r = 4 \<and> ipval r = ipval ip + 1
    | Fail e \<Rightarrow> ipval ip + 1 = 256 ^ 4
    | _ \<Rightarrow> False"
proof -
  obtain a b c d where ip: "ip = [a, b, c, d]" using assms by (rule length4_cases)
  show ?thesis
  proof (cases "d = 255")
    case False
    then have "d \<le> 255 - 1" "unat (d + 1) = unat d + 1"
      by (rule byte_le_254, rule unat_inc)
    then show ?thesis by (simp add: incrementIP_def cloneIP_def ip)
  next
    case True
    then show ?thesis
      by (auto simp: incrementIP_def cloneIP_def ip unat_inc)
  qed
qed

lemma incrementIP_To4: "To4 t \<noteq> [] \<Longrightarrow> incrementIP t 1 = Ret t' \<Longrightarrow>
    length t' = 4 \<and> ipval t' = ipval (To4 t) + 1"
proof -
  assume t: "To4 t \<noteq> []" and r: "incrementIP t 1 = Ret t'"
  have len: "length (To4 t) = 4" using t length_To4 by blast
  then have "incrementIP (To4 t) 1 = Ret t'"
    using r by (auto simp: incrementIP_def cloneIP_def Let_def split: if_splits option.splits)
  then show ?thesis using incrementIP_val [OF len] by simp
qed

text \<open>
  The loop of \<open>GetUnreservedIP\<close>: it leaves when the candidate is outside the block or the
  increment failed (\<open>Ret None\<close>), or at the first candidate that is not used.
\<close>

function scanIP :: "IPNet \<Rightarrow> string set \<Rightarrow> IP \<Rightarrow> IP option outcome" where
  "scanIP d reserved t =
     (if \<not> net_Contains d t then Ret None
      else if \<not> isUsed reserved t then Ret (Some t)
      else case incrementIP t 1 of
          Ret t' \<Rightarrow> scanIP d reserved t'
        | Fail e \<Rightarrow> Ret None
        | Panic p \<Rightarrow> Panic p
        | Blocked \<Rightarrow> Blocked)"
  by pat_completeness auto
termination
proof (relation "measure (\<lambda>(d, reserved, t). 256 ^ 4 - ipval (To4 t))", simp)
  fix d reserved t t'
  assume "incrementIP t 1 = Ret t'"
  moreover from this have "To4 t \<noteq> []"
    by (auto simp: incrementIP_def cloneIP_def)
  ultimately have "length t' = 4" "ipval t' = ipval (To4 t) + 1"
    using incrementIP_To4 by blast+
  then show "((d, reserved, t'), d, reserved, t) \<in> measure (\<lambda>(d, reserved, t). 256 ^ 4 - ipval (To4 t))"
    using ipval_less [of t'] by simp
qed

declare scanIP.simps [simp del]

definition GetUnreservedIP :: "string \<Rightarrow> string set \<Rightarrow> (IPAllocator, string) prog" where
  "GetUnreservedIP cidr cloudInstancesReservedIPs a =
     (case ParseCIDR cidr of
        Inl m \<Rightarrow> (Fail (Errorf m), a)
      | Inr (ip, ipnet) \<Rightarrow>
          (let reservedIPs = cloudInstancesReservedIPs \<union> pendingIPs a
           in case scanIP ipnet reservedIPs (cloneIP (ip_Mask ip (net_Mask ipnet))) of
               Ret (Some t) \<Rightarrow> (Ret (ip_String t), holdIP (ip_String t) a)
             | Ret None \<Rightarrow>
                 (Fail (Errorf (''all of the IPs in the cidr '' @ cidr @ '' are reserved'')), a)
             | Fail e \<Rightarrow> (Fail e, a)
             | Panic p \<Rightarrow> (Panic p, a)
             | Blocked \<Rightarrow> (Blocked, a)))"

section \<open>The search\<close>

text \<open>The first address of a network, as a number.\<close>

definition net_lo :: "IPNet \<Rightarrow> nat \<Rightarrow> nat" where
  "net_lo d n = ipval (net_IP d) div 2 ^ (32 - n) * 2 ^ (32 - n)"

lemma net_Contains_interval:
  assumes "net4 d n" "length v = 4"
  shows "net_Contains d v \<longleftrightarrow> net_lo d n \<le> ipval v \<and> ipval v < net_lo d n + 2 ^ (32 - n)"
  using net_Contains_net4 [OF assms(1), of v] assms(2) div_eq_interval
  by (simp add: net_lo_def)

lemma isUsed_ip_String:
  assumes "length t = 4" "ip_String t \<in> S"
  shows "isUsed S t"
proof -
  have "ip_Equal t (v4InV6Prefix @ t)"
    using assms(1) by (simp add: ip_Equal_def v4InV6Prefix_def)
  then have "ip_Equal t (ParseIP (ip_String t))" using assms(1) by (simp add: ParseIP_ip_String)
  then show ?thesis using assms(2) unfolding isUsed_def by blast
qed

lemma scanIP_spec:
  assumes "net4 d n" "length t = 4" "net_lo d n \<le> ipval t"
  shows "case scanIP d S t of
      Ret (Some u) \<Rightarrow> length u = 4 \<and> net_Contains d u \<and> \<not> isUsed S u \<and> ipval t \<le> ipval u \<and>
        (\<forall>v. length v = 4 \<and> ipval t \<le> ipval v \<and> ipval v < ipval u \<longrightarrow> isUsed S v)
    | Ret None \<Rightarrow> (\<forall>v. length v = 4 \<and> net_Contains d v \<and> ipval t \<le> ipval v \<longrightarrow> isUsed S v)
    | _ \<Rightarrow> False"
  using assms
proof (induction d S t rule: scanIP.induct)
  case (1 d S t)
  note len = "1.prems"(2)
  show ?case
  proof (cases "net_Contains d t \<and> isUsed S t")
    case False
    then show ?thesis
      using "1.prems" by (auto simp: scanIP.simps [of d S t] net_Contains_interval)
  next
    case True
    then have here: "isUsed S v" if "length v = 4" "ipval v = ipval t" for v
      using that len by (metis ipval_inject)
    show ?thesis
    proof (cases "incrementIP t 1")
      case (Ret t')
      then have t': "length t' = 4" "ipval t' = ipval t + 1"
        using incrementIP_val [OF len] by simp_all
      have split: "ipval t \<le> ipval v \<longleftrightarrow> ipval v = ipval t \<or> ipval t' \<le> ipval v" for v
        using t'(2) by linarith
      have "case scanIP d S t' of
          Ret (Some u) \<Rightarrow> length u = 4 \<and> net_Contains d u \<and> \<not> isUsed S u \<and> ipval t' \<le> ipval u \<and>
            (\<forall>v. length v = 4 \<and> ipval t' \<le> ipval v \<and> ipval v < ipval u \<longrightarrow> isUsed S v)
        | Ret None \<Rightarrow> (\<forall>v. length v = 4 \<and> net_Contains d v \<and> ipval t' \<le> ipval v \<longrightarrow> isUsed S v)
        | _ \<Rightarrow> False"
        using True Ret t' "1.prems" by (intro "1.IH") auto
      moreover have "scanIP d S t = scanIP d S t'"
        using True Ret by (simp add: scanIP.simps [of d S t])
      ultimately show ?thesis
        using here by (auto split: outcome.splits option.splits simp: split)
    next
      case (Fail e)
      then have "ipval t + 1 = 256 ^ 4" using incrementIP_val [OF len] by simp
      then have "ipval v = ipval t" if "length v = 4" "ipval t \<le> ipval v" for v
        using ipval_less [of v] that by simp
      then show ?thesis
        using True Fail here by (simp add: scanIP.simps [of d S t])
    qed (use incrementIP_val [OF len] in auto)
  qed
qed

text \<open>An IPv4 block: the part before the slash is a dotted IPv4 address.\<close>

definition cidr4 :: "string \<Rightarrow> bool" where
  "cidr4 cidr \<longleftrightarrow> parseIPv4 (takeWhile (\<lambda>c. c \<noteq> CHR ''/'') cidr) \<noteq> []"

lemma parse4_loop_result:
  "parse4_loop k first acc s = [] \<or>
    (\<exists>bs. length bs = length acc + k \<and> parse4_loop k first acc s = v4InV6Prefix @ bs)"
proof (induction k first acc s rule: parse4_loop.induct)
  case (1 first acc s)
  then show ?case by simp
next
  case (2 k first acc s)
  show ?case
  proof (cases "s = [] \<or> (\<not> first \<and> hd s \<noteq> CHR ''.'') \<or> dtoi (if first then s else tl s) = None")
    case True
    then show ?thesis by auto
  next
    case False
    then obtain n r where "dtoi (if first then s else tl s) = Some (n, r)" by auto
    with False 2 [of "(n, r)" n r] show ?thesis by (cases "n > 255") auto
  qed
qed

lemma parseIPv4_result:
  "parseIPv4 s = [] \<or> (\<exists>bs. length bs = 4 \<and> parseIPv4 s = v4InV6Prefix @ bs)"
  using parse4_loop_result [of 4 True "[]" s] by (simp add: parseIPv4_def)

lemma length_v4InV6Prefix [simp]: "length v4InV6Prefix = 12"
  by (simp add: v4InV6Prefix_def)

lemma CIDRMask_simps [simp]:
  "n \<le> 32 \<Longrightarrow> CIDRMask (int n) 32 = cidr_bytes 4 n"
  "n \<le> 128 \<Longrightarrow> CIDRMask (int n) 128 = cidr_bytes 16 n"
  by (simp_all add: CIDRMask_def)

lemma ParseCIDR_Inr:
  assumes "ParseCIDR cidr = Inr (ip, d)"
  shows "\<exists>n. net_IP d = ip_Mask ip (net_Mask d) \<and>
    (if parseIPv4 (takeWhile (\<lambda>c. c \<noteq> CHR ''/'') cidr) = []
     then n \<le> 128 \<and> net_Mask d = cidr_bytes 16 n
     else n \<le> 32 \<and> net_Mask d = cidr_bytes 4 n \<and>
       ip = parseIPv4 (takeWhile (\<lambda>c. c \<noteq> CHR ''/'') cidr))"
proof -
  define r where "r = dropWhile (\<lambda>c. c \<noteq> CHR ''/'') cidr"
  define ip4 where "ip4 = parseIPv4 (takeWhile (\<lambda>c. c \<noteq> CHR ''/'') cidr)"
  define l where "l = (if ip4 = [] then 16 else 4 :: nat)"
  have body: "ParseCIDR cidr = (if r = [] then Inl (''invalid CIDR address: '' @ cidr)
    else if (if ip4 = [] then parseIPv6 (takeWhile (\<lambda>c. c \<noteq> CHR ''/'') cidr) else ip4) = []
      then Inl (''invalid CIDR address: '' @ cidr)
    else case dtoi (tl r) of None \<Rightarrow> Inl (''invalid CIDR address: '' @ cidr)
      | Some (n, s) \<Rightarrow> if s \<noteq> [] \<or> n > 8 * l then Inl (''invalid CIDR address: '' @ cidr)
          else Inr ((if ip4 = [] then parseIPv6 (takeWhile (\<lambda>c. c \<noteq> CHR ''/'') cidr) else ip4),
            \<lparr>net_IP = ip_Mask (if ip4 = [] then parseIPv6 (takeWhile (\<lambda>c. c \<noteq> CHR ''/'') cidr) else ip4)
                (CIDRMask (int n) (8 * int l)),
              net_Mask = CIDRMask (int n) (8 * int l)\<rparr>))"
    unfolding ParseCIDR_def Let_def r_def ip4_def l_def by (rule refl)
  obtain n s where n: "dtoi (tl r) = Some (n, s)"
    using assms unfolding body by (cases "dtoi (tl r)") (auto split: if_split_asm)
  show ?thesis
    using assms unfolding body ip4_def [symmetric]
    by (cases "ip4 = []") (auto simp: l_def n intro!: exI [of _ n] split: if_split_asm)
qed

lemma ParseCIDR_cidr4:
  assumes "ParseCIDR cidr = Inr (ip, d)" "cidr4 cidr"
  obtains n where "net4 d n" "ip_Mask ip (net_Mask d) = net_IP d" "net_lo d n = ipval (net_IP d)"
proof -
  obtain bs where bs: "length bs = 4"
    "parseIPv4 (takeWhile (\<lambda>c. c \<noteq> CHR ''/'') cidr) = v4InV6Prefix @ bs"
    using parseIPv4_result assms(2) by (auto simp: cidr4_def)
  with ParseCIDR_Inr [OF assms(1)] assms(2) obtain n where
    n: "n \<le> 32" "net_Mask d = cidr_bytes 4 n" "ip = v4InV6Prefix @ bs"
    and nip: "net_IP d = ip_Mask ip (net_Mask d)"
    by (auto simp: cidr4_def)
  then have net: "net_IP d = map2 (AND) bs (cidr_bytes 4 n)"
    using bs(1) by (simp add: ip_Mask_def)
  then have "net4 d n" using n bs by (simp add: net4_def)
  moreover have "net_lo d n = ipval (net_IP d)"
    using ipval_masked [of n bs] bs(1) n(1) by (simp add: net_lo_def net)
  ultimately show thesis using that nip by metis
qed

section \<open>The allocator\<close>

text \<open>All that a request for an IPv4 block can do.\<close>

lemma GetUnreservedIP_cases:
  assumes "ParseCIDR cidr = Inr (ip, d)" "cidr4 cidr"
  obtains
    (found) t where "GetUnreservedIP cidr cloud a = (Ret (ip_String t), holdIP (ip_String t) a)"
      "length t = 4" "net_Contains d t" "\<not> isUsed (cloud \<union> pendingIPs a) t"
      "\<And>v. length v = 4 \<Longrightarrow> net_Contains d v \<Longrightarrow> ipval v < ipval t \<Longrightarrow>
        isUsed (cloud \<union> pendingIPs a) v"
  | (full) "GetUnreservedIP cidr cloud a =
        (Fail (Errorf (''all of the IPs in the cidr '' @ cidr @ '' are reserved'')), a)"
      "\<And>v. length v = 4 \<Longrightarrow> net_Contains d v \<Longrightarrow> isUsed (cloud \<union> pendingIPs a) v"
proof -
  obtain n where d: "net4 d n" "ip_Mask ip (net_Mask d) = net_IP d" "net_lo d n = ipval (net_IP d)"
    using assms by (rule ParseCIDR_cidr4)
  have len: "length (net_IP d) = 4" using d(1) by (simp add: net4_def)
  let ?S = "cloud \<union> pendingIPs a"
  have spec: "case scanIP d ?S (net_IP d) of
      Ret (Some u) \<Rightarrow> length u = 4 \<and> net_Contains d u \<and> \<not> isUsed ?S u \<and> ipval (net_IP d) \<le> ipval u \<and>
        (\<forall>v. length v = 4 \<and> ipval (net_IP d) \<le> ipval v \<and> ipval v < ipval u \<longrightarrow> isUsed ?S v)
    | Ret None \<Rightarrow> (\<forall>v. length v = 4 \<and> net_Contains d v \<and> ipval (net_IP d) \<le> ipval v \<longrightarrow> isUsed ?S v)
    | _ \<Rightarrow> False"
    by (rule scanIP_spec [OF d(1) len]) (simp only: d(3))
  have lo: "ipval (net_IP d) \<le> ipval v" if "length v = 4" "net_Contains d v" for v
    using net_Contains_interval [OF d(1) that(1)] that(2) d(3) by simp
  have run: "GetUnreservedIP cidr cloud a = (case scanIP d ?S (net_IP d) of
               Ret (Some t) \<Rightarrow> (Ret (ip_String t), holdIP (ip_String t) a)
             | Ret None \<Rightarrow>
                 (Fail (Errorf (''all of the IPs in the cidr '' @ cidr @ '' are reserved'')), a)
             | Fail e \<Rightarrow> (Fail e, a)
             | Panic p \<Rightarrow> (Panic p, a)
             | Blocked \<Rightarrow> (Blocked, a))"
    by (simp add: GetUnreservedIP_def assms(1) Let_def cloneIP_def d(2))
  show thesis
  proof (cases "scanIP d ?S (net_IP d)")
    case (Ret r)
    show thesis
    proof (cases r)
      case None
      then show thesis using spec run Ret lo by (intro full) auto
    next
      case (Some t)
      then show thesis using spec run Ret lo by (intro found [of t]) auto
    qed
  qed (use spec in auto)
qed

lemma GetUnreservedIP_Inl: "ParseCIDR cidr = Inl m \<Longrightarrow> GetUnreservedIP cidr cloud a = (Fail (Errorf m), a)"
  by (simp add: GetUnreservedIP_def)

lemma GetUnreservedIP_fresh:
  assumes "cidr4 cidr" "GetUnreservedIP cidr cloud a = (Ret r, b)"
  shows "r \<notin> cloud \<union> pendingIPs a \<and> b = holdIP r a"
proof -
  obtain ip d where pc: "ParseCIDR cidr = Inr (ip, d)"
    using assms(2) by (cases "ParseCIDR cidr") (auto simp: GetUnreservedIP_Inl)
  show ?thesis
    using pc assms(1)
  proof (cases rule: GetUnreservedIP_cases [of cidr ip d cloud a])
    case (found t)
    then have "r = ip_String t" "b = holdIP (ip_String t) a" using assms(2) by auto
    then show ?thesis using found isUsed_ip_String by blast
  qed (use assms(2) in auto)
qed

text \<open>The allocator as a reservation, for the requests for IPv4 blocks.\<close>

definition reserve_ip4 :: "string \<times> string set \<Rightarrow> (IPAllocator, string) prog" where
  "reserve_ip4 q = (if cidr4 (fst q) then GetUnreservedIP (fst q) (snd q)
     else failP (Errorf (''not an IPv4 block: '' @ fst q)))"

lemma reserve_ip4_Ret:
  "reserve_ip4 q a = (Ret r, b) \<Longrightarrow> r \<notin> pendingIPs a \<and> b = holdIP r a"
  using GetUnreservedIP_fresh by (auto simp: reserve_ip4_def failP_def split: if_splits)

interpretation ips: reservation pendingIPs "as_reserve reserve_ip4" "as_release ReleaseIP"
  by unfold_locales
    (auto simp: as_reserve_Some as_release_def ReleaseIP_def holdIP_def dest: reserve_ip4_Ret)

section \<open>What callers rely on\<close>

text \<open>
  C19. When \<open>GetUnreservedIP\<close> succeeds for an IPv4 block, the address returned lies in the
  block, is used neither by a NAS instance nor by another pending request (by any spelling of
  the address), every lower address of the block is used, and exactly that address is added
  to the pending ones.
\<close>

theorem GetUnreservedIP_success:
  assumes "ParseCIDR cidr = Inr (ip, d)" and "cidr4 cidr"
    and "GetUnreservedIP cidr cloud a = (Ret r, b)"
  shows "\<exists>t. r = ip_String t \<and> length t = 4 \<and> net_Contains d t \<and>
    r \<notin> cloud \<union> pendingIPs a \<and> \<not> isUsed (cloud \<union> pendingIPs a) t \<and>
    (\<forall>v. length v = 4 \<and> net_Contains d v \<and> ipval v < ipval t \<longrightarrow>
       isUsed (cloud \<union> pendingIPs a) v) \<and>
    b = a\<lparr>pendingIPs := insert r (pendingIPs a)\<rparr>"
  using assms(1,2)
proof (cases rule: GetUnreservedIP_cases [of cidr ip d cloud a])
  case (found t)
  then have "r = ip_String t" "b = holdIP r a" using assms(3) by auto
  then show ?thesis
    using found GetUnreservedIP_fresh [OF assms(2,3)] by (auto simp: holdIP_def)
qed (use assms(3) in auto)

text \<open>A block of four addresses, one used by an instance and one pending.\<close>

lemma example_block:
  "ParseCIDR ''192.168.9.0/30'' = Inr (v4InV6Prefix @ [192, 168, 9, 0],
     \<lparr>net_IP = [192, 168, 9, 0], net_Mask = [255, 255, 255, 252]\<rparr>)"
  "cidr4 ''192.168.9.0/30''"
  by (simp_all add: cidr4_def eval_simps)

lemma example_strings:
  "ip_String [192, 168, 9, 2] = ''192.168.9.2''"
  by (simp add: ip_String_4 show_nat.simps eval_simps)

lemma example_alloc:
  "GetUnreservedIP ''192.168.9.0/30'' {''192.168.9.0''} \<lparr>pendingIPs = {''192.168.9.1''}\<rparr> =
    (Ret ''192.168.9.2'', \<lparr>pendingIPs = {''192.168.9.2'', ''192.168.9.1''}\<rparr>)"
  by (simp add: GetUnreservedIP_def example_block v4InV6Prefix_def ip_Mask_def cloneIP_def)
    (simp add: scanIP.simps [of _ _ "[192, 168, 9, 0]"] scanIP.simps [of _ _ "[192, 168, 9, 1]"]
      scanIP.simps [of _ _ "[192, 168, 9, 2]"] isUsed_def ip_Equal_def ParseIP_def eval_simps
      v4InV6Prefix_def net_Contains_def networkNumberAndMask_def incrementIP_def cloneIP_def
      example_strings holdIP_def)

theorem GetUnreservedIP_success_witness:
  "\<exists>t. ''192.168.9.2'' = ip_String t \<and> length t = 4 \<and>
    net_Contains \<lparr>net_IP = [192, 168, 9, 0], net_Mask = [255, 255, 255, 252]\<rparr> t \<and>
    \<not> isUsed {''192.168.9.1'', ''192.168.9.0''} t"
  using GetUnreservedIP_success [OF example_block example_alloc] by auto



text \<open>
  However the requests of the gRPC server interleave, with addresses taken for IPv4 blocks
  by \<open>GetUnreservedIP\<close> and given back by \<open>ReleaseIP\<close>, no two of them hold the same address.
\<close>

theorem pending_ip_exclusive:
  assumes "(rstep (as_reserve reserve_ip4) (as_release ReleaseIP))\<^sup>*\<^sup>* (newIPAllocator S, Map.empty) (a, own)"
    and "own g = Some ip" and "own h = Some ip"
  shows "g = h"
  using assms by (rule ips.no_two_owners)

lemma example_hold:
  "(rstep (as_reserve reserve_ip4) (as_release ReleaseIP))\<^sup>*\<^sup>* (newIPAllocator {''192.168.9.1''}, Map.empty)
    (\<lparr>pendingIPs = {''192.168.9.2'', ''192.168.9.1''}\<rparr>, [5 \<mapsto> ''192.168.9.2''])"
proof (rule r_into_rtranclp, rule rstep.acquire)
  show "as_reserve reserve_ip4 (''192.168.9.0/30'', {''192.168.9.0''}) (newIPAllocator {''192.168.9.1''}) =
    Some (''192.168.9.2'', \<lparr>pendingIPs = {''192.168.9.2'', ''192.168.9.1''}\<rparr>)"
    by (simp only: as_reserve_Some reserve_ip4_def newIPAllocator_def example_alloc example_block
        fst_conv snd_conv if_True)
qed simp

theorem pending_ip_exclusive_witness: "newIPAllocator {''192.168.9.1''} = newIPAllocator {''192.168.9.1''} \<and> (5 :: nat) = 5"
proof
  show "(5 :: nat) = 5" by (rule pending_ip_exclusive [OF example_hold]) simp_all
qed simp

end
