(* ===== verification/Cidr.thy ===== *)
theory Cidr
  imports IPAllocator
begin

text \<open>
  The IP utilities of pkg/driver/configurator.go: private addresses, first and last address
  of a network, the division of a network into equal parts and the dropping of the parts
  that are in use, by which the configurator recommends a CIDR block for NAS instances.
\<close>

unbundle bit_operations_syntax

definition isPrivate :: "string \<Rightarrow> bool" where
  "isPrivate ipstr =
     (if HasPrefix ipstr ''192.168.'' \<or> HasPrefix ipstr ''10.'' then True
      else if HasPrefix ipstr ''172.'' then
        (let ip = ParseIP ipstr
         in if ip \<noteq> [] then (case ParseCIDR ''172.16.0.0/12'' of
                 Inr (_, cidr) \<Rightarrow> net_Contains cidr ip | Inl _ \<Rightarrow> False)
            else False)
      else False)"

text \<open>The network and its mask have the same length in every \<open>IPNet\<close> of the driver.\<close>

definition startIP :: "IPNet \<Rightarrow> IP" where
  "startIP cidr = map2 (AND) (net_IP cidr) (net_Mask cidr)"

definition endIP :: "IPNet \<Rightarrow> IP" where
  "endIP cidr = map2 (\<lambda>e m. e + NOT m) (startIP cidr) (net_Mask cidr)"

fun inc_bytes :: "byte list \<Rightarrow> byte list" where
  "inc_bytes [] = []"
| "inc_bytes (b # bs) = (if b + 1 > 0 then (b + 1) # bs else (b + 1) # inc_bytes bs)"

text \<open>The loop of \<open>incIP\<close> runs from the last byte to the first.\<close>

definition incIP :: "IP \<Rightarrow> IP" where
  "incIP ip = rev (inc_bytes (rev ip))"

fun div_loop :: "nat \<Rightarrow> IP \<Rightarrow> byte list \<Rightarrow> IPNet list" where
  "div_loop 0 start divMask = []"
| "div_loop (Suc k) start divMask =
     (let d = \<lparr>net_IP = start, net_Mask = divMask\<rparr>
      in d # div_loop k (incIP (endIP d)) divMask)"

definition divideNet :: "IPNet \<Rightarrow> int \<Rightarrow> gerror + IPNet list" where
  "divideNet cidr maskOffset =
     (if maskOffset \<le> 0 then Inl (Errorf ''mask offset must be positive value'')
      else let divNum = i64 (2 ^ nat maskOffset);
               (ones, bit) = mask_Size (net_Mask cidr);
               divMask = CIDRMask (ones + maskOffset) bit
           in if maskOffset > bit - ones
              then Inl (Errorf (''mask offset must not be greater than '' @ show_int (bit - ones)))
              else Inr (div_loop (nat divNum) (startIP cidr) divMask))"

record CidrDivs =
  cd_cidr :: IPNet
  cd_maskOffset :: int
  cd_divs :: "IPNet list"

definition newCidrDivs :: "IPNet \<Rightarrow> int \<Rightarrow> gerror + CidrDivs" where
  "newCidrDivs cidr maskOffset =
     (case divideNet cidr maskOffset of
        Inl e \<Rightarrow> Inl e
      | Inr ds \<Rightarrow> Inr \<lparr>cd_cidr = cidr, cd_maskOffset = maskOffset, cd_divs = ds\<rparr>)"

text \<open>\<open>xs[a:b]\<close>\<close>

definition slice :: "'a list \<Rightarrow> nat \<Rightarrow> nat \<Rightarrow> 'a list" where
  "slice xs a b = drop a (take b xs)"

definition dropHeadAndTail :: "CidrDivs \<Rightarrow> gerror + CidrDivs" where
  "dropHeadAndTail d =
     (let n = length (cd_divs d)
      in if n < 3 then Inl (Errorf (''no enough divs num='' @ show_nat n))
         else Inr (d\<lparr>cd_divs := slice (cd_divs d) 1 (n - 1)\<rparr>))"

fun first_index :: "('a \<Rightarrow> bool) \<Rightarrow> 'a list \<Rightarrow> nat option" where
  "first_index P [] = None"
| "first_index P (x # xs) = (if P x then Some 0 else map_option Suc (first_index P xs))"

definition dropWithIP :: "string \<Rightarrow> CidrDivs \<Rightarrow> gerror + CidrDivs" where
  "dropWithIP ipstr d =
     (let ip = ParseIP ipstr; ds = cd_divs d; n = length ds
      in if ip = [] then Inl (Errorf (''error parsing ip '' @ ipstr))
         else Inr (case first_index (\<lambda>v. net_Contains v ip) ds of
             None \<Rightarrow> d
           | Some index \<Rightarrow> d\<lparr>cd_divs :=
               if index = 0 then slice ds 1 n
               else if index = n - 1 then slice ds 0 (n - 1)
               else slice ds 0 index @ slice ds (index + 1) n\<rparr>))"

fun compare_bytes :: "byte list \<Rightarrow> byte list \<Rightarrow> int" where
  "compare_bytes (a # as) (b # bs) =
     (if a < b then 1 else if a > b then -1 else compare_bytes as bs)"
| "compare_bytes _ _ = 0"

definition compareIP :: "IP \<Rightarrow> IP \<Rightarrow> int" where
  "compareIP a b = compare_bytes (To16 a) (To16 b)"

definition isDevInRange :: "IP \<Rightarrow> IP \<Rightarrow> IPNet \<Rightarrow> bool" where
  "isDevInRange ipfrom ipto d =
     (if net_Contains d ipfrom \<or> net_Contains d ipto then True
      else if compareIP ipfrom (startIP d) > 0 \<and> compareIP (endIP d) ipto > 0 then True
      else False)"

text \<open>The loop over the divisions: first and last index in range.\<close>

fun range_scan :: "(IPNet \<Rightarrow> bool) \<Rightarrow> nat \<Rightarrow> (nat \<times> nat) option \<Rightarrow> IPNet list \<Rightarrow> (nat \<times> nat) option" where
  "range_scan P i r [] = r"
| "range_scan P i r (d # ds) =
     range_scan P (i + 1)
       (if P d then Some (case r of None \<Rightarrow> (i, i) | Some (f, t) \<Rightarrow> (f, i)) else r) ds"

definition dropWithIPRange :: "string \<Rightarrow> string \<Rightarrow> CidrDivs \<Rightarrow> gerror + CidrDivs" where
  "dropWithIPRange ipFrom ipTo d =
     (let ipfrom = ParseIP ipFrom; ipto = ParseIP ipTo; ds = cd_divs d; n = length ds
      in if ipfrom = [] then Inl (Errorf (''error parsing ip '' @ ipFrom))
         else if ipto = [] then Inl (Errorf (''erro parsing ip '' @ ipTo))
         else Inr (case range_scan (isDevInRange ipfrom ipto) 0 None ds of
             None \<Rightarrow> d
           | Some (divFrom, divTo) \<Rightarrow> d\<lparr>cd_divs :=
               if divFrom = 0 then slice ds (divTo + 1) n
               else if divFrom = n - 1 then slice ds 0 (n - 1)
               else slice ds 0 divFrom @ slice ds (divTo + 1) n\<rparr>))"

definition validateCIDRIP :: "string \<Rightarrow> gerror option" where
  "validateCIDRIP cidrip = (case ParseCIDR cidrip of Inl m \<Rightarrow> Some (Errorf m) | Inr _ \<Rightarrow> None)"

section \<open>First and last address\<close>

lemma length_startIP: "net4 d n \<Longrightarrow> length (startIP d) = 4"
  by (simp add: net4_def startIP_def)

lemma length_endIP: "net4 d n \<Longrightarrow> length (endIP d) = 4"
  by (simp add: net4_def startIP_def endIP_def)

lemma ipval_startIP: "net4 d n \<Longrightarrow> ipval (startIP d) = net_lo d n"
  using ipval_masked [of n "net_IP d"] by (auto simp: net4_def startIP_def net_lo_def)

lemma endIP_filled: "endIP d = map2 (\<lambda>x m. (x AND m) + NOT m) (net_IP d) (net_Mask d)"
proof -
  have "map2 (\<lambda>e m. e + NOT m) (map2 (AND) xs ms) ms = map2 (\<lambda>x m. (x AND m) + NOT m) xs ms"
    for xs ms :: "byte list"
    by (induction xs ms rule: list_induct2') simp_all
  then show ?thesis by (simp add: endIP_def startIP_def)
qed

lemma ipval_endIP: "net4 d n \<Longrightarrow> ipval (endIP d) = net_lo d n + 2 ^ (32 - n) - 1"
  using ipval_filled [of n "net_IP d"] by (auto simp: net4_def endIP_filled net_lo_def)

lemma ipval_rev_snoc: "ipval (bs @ [b]) = ipval bs * 256 + unat b"
  by (simp add: ipval_append)

lemma length_inc_bytes [simp]: "length (inc_bytes bs) = length bs"
  by (induction bs) simp_all

lemma ipval_inc_bytes: "ipval (rev (inc_bytes bs)) = (ipval (rev bs) + 1) mod 256 ^ length bs"
proof (induction bs)
  case Nil
  then show ?case by simp
next
  case (Cons b bs)
  have less: "ipval (rev bs) < 256 ^ length bs" using ipval_less [of "rev bs"] by simp
  show ?case
  proof (cases "b = 255")
    case True
    then have "inc_bytes (b # bs) = 0 # inc_bytes bs" and "unat b = 255" by simp_all
    then show ?thesis
      using Cons.IH mult_mod_right [of 256 "ipval (rev bs) + 1" "256 ^ length bs"]
      by (simp add: ipval_rev_snoc algebra_simps)
  next
    case False
    then have "b + 1 > 0" "unat (b + 1) = unat b + 1"
      using unat_inc [of b] by (auto simp: word_less_nat_alt)
    moreover have "ipval (rev bs) * 256 + unat b + 1 < 256 * 256 ^ length bs"
      using less byte_not_max [OF False] by linarith
    ultimately show ?thesis by (simp add: ipval_rev_snoc)
  qed
qed

lemma ipval_incIP: "ipval (incIP ip) = (ipval ip + 1) mod 256 ^ length ip"
  using ipval_inc_bytes [of "rev ip"] by (simp add: incIP_def)

lemma length_incIP [simp]: "length (incIP ip) = length ip"
  by (simp add: incIP_def)

end
