(* ===== verification/Shared.thy ===== *)
theory Shared
  imports NfsJob Cidr
begin

text \<open>
  What the controller reads from the cluster and the cloud to place a volume on a shared NAS
  instance (pkg/driver/shared_utils.go), the cluster's UID and the security group's name
  (pkg/driver/securitygroup_syncer.go), and the annotations of the claim
  (pkg/driver/controller.go).
\<close>

text \<open>
  The values of \<open>NifcloudNasDriverConfig\<close>; its clients are the environment, and the region and
  the endpoint for tests are those of the cloud client. The intervals of the backoffs are
  parameters of \<open>retry\<close>.
\<close>

record config =
  cfg_Name :: string
  cfg_Version :: string
  cfg_NodeID :: string
  cfg_RunController :: bool
  cfg_RunNode :: bool
  cfg_RestoreClstID :: bool
  cfg_ClusterUID :: string
  cfg_Region :: string
  cfg_DevEp :: string
  cfg_PrivateIfName :: string
  cfg_PrivateIPReg :: bool
  cfg_Configurator :: bool
  cfg_Hatoba :: bool
  cfg_CidrBlkRcmd :: bool
  cfg_CfgSnapRepo :: bool
  cfg_DefaultSnapEndpoint :: string

definition ListPVsP :: "'z env \<Rightarrow> ('z world_scheme, PersistentVolume list) prog" where
  "ListPVsP E = wrapP (\<lambda>e. Errorf (''Error getting PV list : '' @ errText e)) (api ListPVs (listPVs E))"

text \<open>A volume belongs to an instance when its handle contains the instance's name.\<close>

definition in_nas :: "string \<Rightarrow> PersistentVolume \<Rightarrow> bool" where
  "in_nas nasName pv = (case pv_csi pv of None \<Rightarrow> False | Some (d, handle) \<Rightarrow> Contains handle nasName)"

definition reserved_step :: "string \<Rightarrow> int64 \<Rightarrow> PersistentVolume \<Rightarrow> int64" where
  "reserved_step nasName used pv =
     (if in_nas nasName pv then
        (case pv_capacity pv of Some (Some capBytes) \<Rightarrow> i64 (used + capBytes) | _ \<Rightarrow> used)
      else used)"

definition getNasInstanceReservedCap :: "'z env \<Rightarrow> string \<Rightarrow> ('z world_scheme, int64) prog" where
  "getNasInstanceReservedCap E nasName =
     bindP (ListPVsP E) (\<lambda>pvs. retP (foldl (reserved_step nasName) 0 pvs))"

definition noOtherPvsInSharedNas :: "'z env \<Rightarrow> string \<Rightarrow> string \<Rightarrow> ('z world_scheme, bool) prog" where
  "noOtherPvsInSharedNas E name nasName =
     bindP (ListPVsP E) (\<lambda>pvs.
       if \<not> list_ex (in_nas nasName) pvs
       then failP (Errorf (''Nas '' @ nasName @ '' not found in PV list''))
       else retP (list_all (\<lambda>pv. in_nas nasName pv \<longrightarrow> name = pv_name pv) pvs))"

definition getSharedNameFromExistingPv :: "'z env \<Rightarrow> string \<Rightarrow> ('z world_scheme, string) prog" where
  "getSharedNameFromExistingPv E nasName =
     bindP (ListPVsP E) (\<lambda>pvs.
     bindP (eachP pvs (\<lambda>pv. case pv_csi pv of
         None \<Rightarrow> retP None
       | Some (d, handle) \<Rightarrow>
           if Contains handle nasName then
             (let tokens = Split handle (CHR ''/'')
              in if length tokens \<noteq> 3 then failP (Errorf (''VolumeHandle format error : '' @ handle))
                 else retP (Some (tokens ! 1)))
           else retP None)) (\<lambda>r. case r of
         Some n \<Rightarrow> retP n
       | None \<Rightarrow> failP (Errorf (''Cannot find VolumeHandle '' @ nasName))))"

text \<open>On an error the caller drops the name, so the model returns the error alone.\<close>

definition getSharedNameFromExistingNas ::
  "'z env \<Rightarrow> string \<Rightarrow> ('z world_scheme, string \<times> bool) prog" where
  "getSharedNameFromExistingNas E nasName =
     bindP (ListNasInstances E) (\<lambda>instances.
     bindP (eachP instances (\<lambda>n.
         bindP (derefP (ni_Identifier n)) (\<lambda>ident.
           if Contains ident nasName then
             bindP (derefP (ni_Status n)) (\<lambda>st.
               retP (if st \<noteq> ''deleting'' then Some ident else None))
           else retP None))) (\<lambda>r. case r of
         Some ident \<Rightarrow> retP (ident, True)
       | None \<Rightarrow> retP (nasName, False)))"

definition getClusterUID :: "'z env \<Rightarrow> config \<Rightarrow> ('z world_scheme, string) prog" where
  "getClusterUID E cfg =
     (if cfg_ClusterUID cfg \<noteq> '''' then retP (cfg_ClusterUID cfg)
      else wrapP (\<lambda>e. Errorf (''Error getting namespace : '' @ errText e))
        (api (GetNamespace ''kube-system'') (\<lambda>h. getNamespace E h ''kube-system'')))"

definition getSecurityGroupName :: "'z env \<Rightarrow> config \<Rightarrow> ('z world_scheme, string) prog" where
  "getSecurityGroupName E cfg =
     bindP (wrapP (\<lambda>e. Errorf (''Error getting namespace UUID: '' @ errText e)) (getClusterUID E cfg))
       (\<lambda>uid. retP (''cluster-'' @ uid))"

text \<open>\<open>validateCIDRIP\<close> and \<open>validatePermission\<close> as checks that fail with the annotation's error.\<close>

definition annotation_check :: "gerror option \<Rightarrow> ('s, unit) prog" where
  "annotation_check r = (case r of
       None \<Rightarrow> retP ()
     | Some e \<Rightarrow> failP (Errorf (''Error getting PVC annotation : '' @ errText e)))"

text \<open>The CIDR block and the permission of the claim, each empty when not given.\<close>

definition claim_annotations :: "config \<Rightarrow> PersistentVolumeClaim \<Rightarrow> ('s, string \<times> string) prog" where
  "claim_annotations cfg pvc =
     bindP (case map_of (pvc_annotations pvc) (cfg_Name cfg @ ''/reservedIPv4Cidr'') of
         None \<Rightarrow> retP ''''
       | Some v \<Rightarrow>
           (let v' = (if \<not> Contains v ''/'' then v @ ''/32'' else v)
            in bindP (annotation_check (validateCIDRIP v')) (\<lambda>_. retP v'))) (\<lambda>cidrip.
     bindP (case map_of (pvc_annotations pvc) (cfg_Name cfg @ ''/permission'') of
         None \<Rightarrow> retP ''''
       | Some v \<Rightarrow> bindP (annotation_check (validatePermission v)) (\<lambda>_. retP v)) (\<lambda>permission.
     retP (cidrip, permission)))"

definition getAnnotationsFromPVC ::
  "'z env \<Rightarrow> config \<Rightarrow> string \<Rightarrow> ('z world_scheme, string \<times> string) prog" where
  "getAnnotationsFromPVC E cfg name =
     (let pvcUIDs = SplitN name (CHR ''-'') 2
      in if length pvcUIDs < 2
         then failP (Errorf ''Error getting IP from PVC : Cannot split UID'')
         else bindP (wrapP (\<lambda>e. Errorf (''Error getting PVC list : '' @ errText e))
                (api ListPVCs (listPVCs E))) (\<lambda>pvcs.
              bindP (eachP pvcs (\<lambda>pvc.
                  if pvc_uid pvc = pvcUIDs ! 1
                  then bindP (claim_annotations cfg pvc) (\<lambda>a. retP (Some a))
                  else retP None)) (\<lambda>r. case r of
                Some a \<Rightarrow> retP a
              | None \<Rightarrow> failP (Errorf (''Error PVC '' @ pvcUIDs ! 1 @ '' not found'')))))"

section \<open>Which calls are made\<close>

text \<open>The calls that change nothing outside.\<close>

fun reading :: "call \<Rightarrow> bool" where
  "reading (DescribeNASInstances n) = True"
| "reading (DescribeNASSecurityGroups n) = True"
| "reading ListPVs = True"
| "reading ListPVCs = True"
| "reading ListCSINodes = True"
| "reading ListStorageClasses = True"
| "reading (GetNamespace n) = True"
| "reading (GetJob ns n) = True"
| "reading (ListPods ns) = True"
| "reading (GetPodLogs ns n) = True"
| "reading (GetSecret ns n) = True"
| "reading ListSnapshotContents = True"
| "reading (GetSnapshotClass n) = True"
| "reading (ListBuckets r e) = True"
| "reading ListNodes = True"
| "reading (GetCSINode n) = True"
| "reading ListSnapshotClasses = True"
| "reading (DescribeClusters e) = True"
| "reading DescribeInstances = True"
| "reading (DescribePrivateLans n) = True"
| "reading (DescribeDhcpStatus r) = True"
| "reading DescribeDBInstances = True"
| "reading (InterfaceAddress n) = True"
| "reading (CheckMountPoint p) = True"
| "reading (StatPath p) = True"
| "reading (StatFileSystem p) = True"
| "reading (RandomString n) = True"
| "reading ReadClock = True"
| "reading _ = False"

lemma keeps_ListPVsP: "C ListPVs \<Longrightarrow> keeps (extends C) (ListPVsP E)"
  by (simp add: ListPVsP_def world_intros)

lemma keeps_shared:
  assumes "\<And>c. reading c \<Longrightarrow> C c"
  shows "keeps (extends C) (getNasInstanceReservedCap E nas)"
    and "keeps (extends C) (noOtherPvsInSharedNas E name nas)"
    and "keeps (extends C) (getSharedNameFromExistingPv E nas)"
    and "keeps (extends C) (getSharedNameFromExistingNas E nas)"
    and "keeps (extends C) (getClusterUID E cfg)"
    and "keeps (extends C) (getSecurityGroupName E cfg)"
  using assms
  by (auto simp: getNasInstanceReservedCap_def noOtherPvsInSharedNas_def Let_def
      getSharedNameFromExistingPv_def getSharedNameFromExistingNas_def getClusterUID_def
      getSecurityGroupName_def intro!: world_intros keeps_ListPVsP keeps_cloud
      split: option.split)

lemma keeps_annotation_check: "keeps (extends C) (annotation_check r)"
  by (auto simp: annotation_check_def intro!: world_intros split: option.split)

lemma keeps_getAnnotationsFromPVC:
  assumes "\<And>c. reading c \<Longrightarrow> C c"
  shows "keeps (extends C) (getAnnotationsFromPVC E cfg name)"
  using assms
  by (auto simp: getAnnotationsFromPVC_def claim_annotations_def Let_def
      intro!: world_intros keeps_annotation_check split: option.split)

end
