(* ===== verification/Restic.thy ===== *)
theory Restic
  imports Shared
begin

text \<open>
  Snapshots with restic (pkg/driver/restic.go): the repository's address, the jobs, their
  execution with a temporary secret, and what their output says. Decoding JSON and RFC 3339
  times is left to the record \<open>codec\<close> (parameters): the decoded value or the error.
\<close>

record ResticSnapshot =
  rs_ShortID :: string
  rs_ID :: string
  rs_Time :: string
  rs_Paths :: "string list"
  rs_Hostname :: string
  rs_Username :: string
  rs_Tree :: string
  rs_Parent :: string

definition GetSourceVolumeID :: "ResticSnapshot \<Rightarrow> string" where
  "GetSourceVolumeID snap =
     (case rs_Paths snap of [] \<Rightarrow> '''' | p # _ \<Rightarrow> snd (path_split p))"

text \<open>The fields of the summary that are read.\<close>

record ResticBackupSummary =
  sum_TotalBytesProcessed :: int64
  sum_SnapshotID :: string

text \<open>A time is its seconds and nanoseconds; \<open>time_proto\<close> is \<open>ptypes.TimestampProto\<close>.\<close>

record codec =
  json_snapshots :: "string \<Rightarrow> gerror + ResticSnapshot list"
  json_summary :: "string \<Rightarrow> gerror + ResticBackupSummary"
  time_parse :: "string \<Rightarrow> gerror + (int64 \<times> int64)"
  time_proto :: "int64 \<times> int64 \<Rightarrow> gerror + (int64 \<times> int64)"

record CSISnapshot =
  snap_SnapshotId :: string
  snap_SourceVolumeId :: string
  snap_CreationTime :: "int64 \<times> int64"
  snap_ReadyToUse :: bool
  snap_SizeBytes :: int64

definition newCSISnapshot :: "codec \<Rightarrow> ResticSnapshot \<Rightarrow> int64 \<Rightarrow> gerror + CSISnapshot" where
  "newCSISnapshot J snapshot sizeBytes =
     (case time_parse J (rs_Time snapshot) of
        Inl e \<Rightarrow> Inl (Errorf (''Error getting timestamp : '' @ errText e))
      | Inr ts \<Rightarrow> (case time_proto J ts of
          Inl e \<Rightarrow> Inl (Errorf (''Error converting timestamp : '' @ errText e))
        | Inr tsp \<Rightarrow>
            (let volumeID = GetSourceVolumeID snapshot
             in if volumeID = '''' then Inl (Errorf ''Error getting SourceVolumeID'')
                else Inr \<lparr>snap_SnapshotId = rs_ShortID snapshot, snap_SourceVolumeId = volumeID,
                  snap_CreationTime = tsp, snap_ReadyToUse = True,
                  snap_SizeBytes = (if sizeBytes \<noteq> 0 then sizeBytes else 0)\<rparr>)))"

text \<open>Decoders that decode nothing, for concrete runs that decode nothing.\<close>

definition no_codec :: codec where
  "no_codec = \<lparr>json_snapshots = \<lambda>s. Inl (Errorf ''invalid character''),
     json_summary = \<lambda>s. Inl (Errorf ''invalid character''),
     time_parse = \<lambda>s. Inl (Errorf ''cannot parse''), time_proto = \<lambda>t. Inl (Errorf ''out of range'')\<rparr>"

section \<open>The repository\<close>

record restic =
  r_pw :: string
  r_accesskey :: string
  r_secretkey :: string
  r_repository :: string
  r_image :: string

text \<open>A nil map is \<open>None\<close>; empty keys are taken from the process environment.\<close>

definition newRestic :: "'z env \<Rightarrow> params option \<Rightarrow> gerror + restic" where
  "newRestic E secrets =
     (case secrets of
        None \<Rightarrow> Inl (Errorf ''secrets must not be nil'')
      | Some ps \<Rightarrow>
          (let ak = (if param ps ''accesskey'' = '''' then getenv E ''AWS_ACCESS_KEY_ID''
                     else param ps ''accesskey'');
               sk = (if param ps ''secretkey'' = '''' then getenv E ''AWS_SECRET_ACCESS_KEY''
                     else param ps ''secretkey'')
           in if ak = '''' then Inl (Errorf ''cannot get accesskey from env or secrets'')
              else if sk = '''' then Inl (Errorf ''cannot get secretkey from env or secrets'')
              else if param ps ''resticRepository'' = ''''
                then Inl (Errorf (CHR 0x27 # ''resticRepository'' @ CHR 0x27 # '' not found in restic secrets''))
              else if param ps ''resticPassword'' = ''''
                then Inl (Errorf (CHR 0x27 # ''resticPassword'' @ CHR 0x27 # '' not found in restic secrets''))
              else Inr \<lparr>r_pw = param ps ''resticPassword'', r_accesskey = ak, r_secretkey = sk,
                r_repository = param ps ''resticRepository'', r_image = ''restic/restic:0.12.0''\<rparr>))"

text \<open>Endpoint, bucket, prefix and scheme.\<close>

definition parseRepositry :: "string \<Rightarrow> gerror + (string \<times> string \<times> string \<times> string)" where
  "parseRepositry s =
     (case (if HasPrefix s ''s3:https//'' then Some (''https'', drop 10 s)
            else if HasPrefix s ''s3:http//'' then Some (''http'', drop 9 s)
            else if HasPrefix s ''s3://'' then Some (''https'', drop 5 s)
            else if HasPrefix s ''s3:'' then Some (''https'', drop 3 s)
            else None) of
        None \<Rightarrow> Inl (Errorf ''repository invalid format'')
      | Some (scheme, r) \<Rightarrow>
          (let path = SplitN r (CHR ''/'') 3
           in if length path < 2
              then Inl (Errorf ''cannot parse endpoint and bucket from repository'')
              else Inr (path ! 0, path ! 1, (if length path > 2 then path ! 2 else ''''), scheme)))"

text \<open>
  Opening the session and listing the buckets are one call of the environment, given the
  region and the endpoint's URL; the error of either is returned as it is.
\<close>

definition checkBucket :: "'z env \<Rightarrow> restic \<Rightarrow> ('z world_scheme, unit) prog" where
  "checkBucket E r =
     bindP (liftP (parseRepositry (r_repository r))) (\<lambda>(ep, bucket, prefix, scheme).
       let region = SplitN ep (CHR ''.'') 2 ! 0;
           url = scheme @ ''://'' @ ep
       in bindP (api (ListBuckets region url) (\<lambda>h. listBuckets E h region url)) (\<lambda>buckets.
            if bucket \<in> set buckets then retP () else failP (Errorf ''bucket not found'')))"

section \<open>Jobs\<close>

definition resticSecretName :: string where
  "resticSecretName = ''restic-secrets''"

definition resticSecret :: "restic \<Rightarrow> string \<Rightarrow> Secret" where
  "resticSecret r namespace =
     \<lparr>sec_name = resticSecretName, sec_namespace = namespace,
      sec_data = [(''resticPassword'', r_pw r), (''accesskey'', r_accesskey r),
        (''secretkey'', r_secretkey r), (''resticRepository'', r_repository r)], sec_annotations = []\<rparr>"

definition resticJob :: "restic \<Rightarrow> string \<Rightarrow> string \<Rightarrow> Job" where
  "resticJob r name namespace =
     \<lparr>job_name = name, job_namespace = namespace, job_image = r_image r, job_args = [],
      job_env = [(''AWS_ACCESS_KEY_ID'', resticSecretName, ''accesskey''),
        (''AWS_SECRET_ACCESS_KEY'', resticSecretName, ''secretkey''),
        (''RESTIC_PASSWORD'', resticSecretName, ''resticPassword''),
        (''RESTIC_REPOSITORY'', resticSecretName, ''resticRepository'')],
      job_mounts = [], job_volumes = [], job_hostname = '''', job_backoffLimit = 0\<rparr>"

definition with_volume :: "string \<Rightarrow> volume_source \<Rightarrow> string \<Rightarrow> bool \<Rightarrow> Job \<Rightarrow> Job" where
  "with_volume name src path ro job =
     job\<lparr>job_volumes := job_volumes job @ [(name, src)],
         job_mounts := job_mounts job @ [(name, path, ro)]\<rparr>"

definition resticJobListSnapshots :: "restic \<Rightarrow> Job \<times> Secret" where
  "resticJobListSnapshots r =
     (with_args [''snapshots'', ''--json''] (resticJob r ''restic-job-list-snapshots'' ''default''),
      resticSecret r ''default'')"

definition resticJobBackup :: "restic \<Rightarrow> string \<Rightarrow> string \<Rightarrow> string \<Rightarrow> string \<Rightarrow> Job \<times> Secret" where
  "resticJobBackup r volumeID pvc namespace clusterUID =
     ((with_volume ''pvc'' (Claim pvc) (''/'' @ volumeID) True
        (with_args [''backup'', ''--json'', ''--tag'', clusterUID, ''/'' @ volumeID]
          (resticJob r (''restic-job-backup-'' @ volumeID) namespace)))
        \<lparr>job_hostname := ''restic-backup-job''\<rparr>,
      resticSecret r namespace)"

definition resticJobDelete :: "restic \<Rightarrow> string \<Rightarrow> Job \<times> Secret" where
  "resticJobDelete r snapshotID =
     (with_args [''forget'', ''--prune'', snapshotID]
        (resticJob r (''restic-job-delete-'' @ snapshotID) ''default''),
      resticSecret r ''default'')"

definition resticJobInit :: "restic \<Rightarrow> Job \<times> Secret" where
  "resticJobInit r =
     (with_args [''init''] (resticJob r ''restic-job-init'' ''default''), resticSecret r ''default'')"

definition resticJobRestore :: "restic \<Rightarrow> string \<Rightarrow> string \<Rightarrow> string \<Rightarrow> string \<Rightarrow> Job \<times> Secret" where
  "resticJobRestore r snapID ip path snapPath =
     (with_volume ''restore-target'' (NFS ip path) (path_join [''/mnt'', snapPath]) False
        (with_args [''restore'', ''-t'', ''/mnt'', snapID]
          (resticJob r (''restic-job-restore-'' @ snapID) ''default'')),
      resticSecret r ''default'')"

section \<open>Execution\<close>

text \<open>The map \<open>testResticPodLog\<close> is empty outside the tests.\<close>

definition testResticPodLog :: params where
  "testResticPodLog = []"

definition log_line :: "string \<Rightarrow> string \<Rightarrow> string" where
  "log_line name line =
     (if Contains line ''fake logs'' then param testResticPodLog name else line)"

text \<open>
  The lines of the log are its pieces between newlines, the last one read together with the
  end of the stream; the output is the line at which the loop stops.
\<close>

fun scan_logs :: "string \<Rightarrow> string \<Rightarrow> string list \<Rightarrow> string" where
  "scan_logs name out [] = out"
| "scan_logs name out [p] = (if p \<noteq> '''' then log_line name p else out)"
| "scan_logs name out (p # q # ps) =
     (let out = log_line name (p @ [CHR 0x0A])
      in if Contains out ''summary'' \<or> Contains out ''Fatal:'' then out
         else scan_logs name out (q # ps))"

definition doResticJob :: "'z env \<Rightarrow> Job \<times> Secret \<Rightarrow> ('z world_scheme, string) prog" where
  "doResticJob E js =
     (let job = fst js; secret = snd js; name = job_name job; namespace = job_namespace job
      in bindP (tryP (api (CreateSecret secret) (\<lambda>h. createSecret E h secret))) (\<lambda>r.
         case (case r of Inl e \<Rightarrow> if IsAlreadyExists e then None else Some e | Inr _ \<Rightarrow> None) of
           Some e \<Rightarrow> failP (Errorf (''Creating restic secret error - '' @ errText e))
         | None \<Rightarrow>
             deferP (\<lambda>_. bindP (tryP (api (DeleteSecret namespace (sec_name secret))
                 (\<lambda>h. deleteSecret E h namespace (sec_name secret)))) (\<lambda>_. retP ()))
             (bindP (start_job E ''restic'' job) (\<lambda>_.
              deferP (\<lambda>_. bindP (tryP (DeleteJobP E namespace name)) (\<lambda>_. retP ()))
              (bindP (tryP (retry E (chkJobCompleted E namespace name))) (\<lambda>r.
               bindP (wrapP (\<lambda>e. Errorf (''Listing job pods error - '' @ errText e))
                 (api (ListPods namespace) (\<lambda>h. listPods E h namespace))) (\<lambda>pods.
               bindP (eachP pods (\<lambda>pod.
                 if pod_owners pod \<noteq> [] \<and> hd (pod_owners pod) = name then
                   bindP (wrapP (\<lambda>e. Errorf (''Logs request error - '' @ errText e))
                     (api (GetPodLogs namespace (pod_name pod))
                       (\<lambda>h. podLogs E h namespace (pod_name pod)))) (\<lambda>logs.
                     let out = scan_logs name '''' (Split logs (CHR 0x0A))
                     in case r of
                          Inl e \<Rightarrow> failP (Errorf (out @ '' : '' @ ''Error doing restic job - '' @ errText e))
                        | Inr _ \<Rightarrow> retP (Some out))
                 else retP None)) (\<lambda>o1. case o1 of
                   Some out \<Rightarrow> retP out
                 | None \<Rightarrow> failP (Errorf (''Cannot find pod for job '' @ name))))))))))"

section \<open>Which calls are made\<close>

fun restic_call :: "call \<Rightarrow> bool" where
  "restic_call (CreateSecret s) = True"
| "restic_call (DeleteSecret ns n) = True"
| "restic_call c = job_call c"

lemma restic_call_job: "job_call c \<Longrightarrow> restic_call c"
  by (cases c) simp_all

lemma keeps_doResticJob:
  assumes "retry_contract E" and "\<And>c. restic_call c \<Longrightarrow> C c"
  shows "keeps (extends C) (doResticJob E js)"
  using assms restic_call_job
  by (auto simp: doResticJob_def Let_def DeleteJobP_def
      intro!: world_intros keeps_start_job keeps_chkJobCompleted split: option.split sum.split)

lemma keeps_checkBucket:
  assumes "\<And>c. reading c \<Longrightarrow> C c"
  shows "keeps (extends C) (checkBucket E r)"
  using assms by (auto simp: checkBucket_def Let_def intro!: world_intros split: prod.split)

section \<open>What is left behind, what is parsed\<close>

lemma createSecret_quiet: "createSecret quiet_env h j = Inl (Errorf ''unavailable'')"
  by (simp add: quiet_env_def)


definition example_restic :: restic where
  "example_restic = \<lparr>r_pw = ''pw'', r_accesskey = ''a'', r_secretkey = ''s'',
     r_repository = ''s3:jp-east-2.storage.api.nifcloud.com/csi-snapshot'', r_image = ''restic/restic:0.12.0''\<rparr>"


text \<open>
  A repository \<open>s3:endpoint/bucket\<close> or \<open>s3:endpoint/bucket/prefix\<close> is taken apart into its
  parts, with the scheme \<open>https\<close>.
\<close>

theorem parseRepositry_parts:
  assumes "CHR ''/'' \<notin> set ep" and "CHR ''/'' \<notin> set bucket"
    and "ep \<noteq> ''''" and "ep \<notin> {''https'', ''http''}"
  shows "parseRepositry (''s3:'' @ ep @ ''/'' @ bucket) = Inr (ep, bucket, '''', ''https'') \<and>
    parseRepositry (''s3:'' @ ep @ ''/'' @ bucket @ ''/'' @ pre) = Inr (ep, bucket, pre, ''https'')"
proof -
  have no: "\<not> HasPrefix (ep @ CHR ''/'' # r) (p @ CHR ''/'' # q)"
    if "CHR ''/'' \<notin> set p" "p \<noteq> ep" for p q r
    using that assms(1) by (auto simp: HasPrefix_iff dest!: first_separator_unique)
  have sel: "parseRepositry (''s3:'' @ ep @ CHR ''/'' # r) =
      (let path = SplitN (ep @ CHR ''/'' # r) (CHR ''/'') 3
       in if length path < 2 then Inl (Errorf ''cannot parse endpoint and bucket from repository'')
          else Inr (path ! 0, path ! 1, (if length path > 2 then path ! 2 else ''''), ''https''))" for r
    using no [of "''https''" r "''/''"] no [of "''http''" r "''/''"] no [of "''''" r "''/''"] assms(3,4)
    by (auto simp: parseRepositry_def HasPrefix_Cons HasPrefix_Nil)
  have "SplitN (ep @ CHR ''/'' # bucket) (CHR ''/'') 3 = [ep, bucket]"
    "SplitN (ep @ CHR ''/'' # bucket @ CHR ''/'' # pre) (CHR ''/'') 3 = [ep, bucket, pre]"
    using assms(1,2) by (simp_all add: numeral_3_eq_3 SplitN_first SplitN_only del: SplitN.simps(3))
  then show ?thesis
    using sel [of bucket] sel [of "bucket @ ''/'' @ pre"] by simp
qed

theorem parseRepositry_parts_witness:
  "parseRepositry ''s3:jp-east-2.storage.api.nifcloud.com/csi-snapshot-95mhh'' =
    Inr (''jp-east-2.storage.api.nifcloud.com'', ''csi-snapshot-95mhh'', '''', ''https'')"
  using parseRepositry_parts [of "''jp-east-2.storage.api.nifcloud.com''" "''csi-snapshot-95mhh''"] by simp

text \<open>
  A repository given with its scheme, \<open>s3:https://endpoint/bucket\<close>, the form restic
  documents, is accepted but taken apart wrongly: the endpoint is \<open>https:\<close> and the bucket is
  empty (the code looks for \<open>s3:https//\<close>, without the colon).
\<close>

theorem parseRepositry_with_scheme:
  "parseRepositry (''s3:https://'' @ rest) = Inr (''https:'', '''', rest, ''https'')"
  by (simp add: parseRepositry_def HasPrefix_Cons HasPrefix_Nil numeral_3_eq_3 numeral_2_eq_2)

end
