(* ===== verification/Snapshot.thy ===== *)
theory Snapshot
  imports Restic
begin

text \<open>
  The snapshot operations of the controller (pkg/driver/snapshot.go): create, delete, list and
  restore, each by restic jobs, with the secrets taken from the request or found through the
  snapshot's class.
\<close>

definition getPVCFromVolumeID :: "'z env \<Rightarrow> string \<Rightarrow> ('z world_scheme, string \<times> string) prog" where
  "getPVCFromVolumeID E volumeID =
     (let pvcUIDs = SplitN volumeID (CHR ''-'') 2
      in if length pvcUIDs < 2 then failP (Errorf (''Error splitting UID '' @ volumeID))
         else bindP (wrapP (\<lambda>e. Errorf (''Error getting PVC list : '' @ errText e))
                (api ListPVCs (listPVCs E))) (\<lambda>pvcs.
              case find (\<lambda>pvc. pvc_uid pvc = pvcUIDs ! 1) pvcs of
                Some pvc \<Rightarrow> retP (pvc_name pvc, pvc_namespace pvc)
              | None \<Rightarrow> failP (Errorf (''Error PVC '' @ pvcUIDs ! 1 @ '' not found''))))"

definition sanitizeJSON :: "string \<Rightarrow> string" where
  "sanitizeJSON input =
     (case find (\<lambda>l. HasPrefix l ''['' \<or> HasPrefix l ''{'') (Split input (CHR 0x0A)) of
        Some l \<Rightarrow> l | None \<Rightarrow> '''')"

text \<open>A failure with a gRPC status made of a prefix and the error's text.\<close>

definition statusP :: "code \<Rightarrow> string \<Rightarrow> ('s, 'a) prog \<Rightarrow> ('s, 'a) prog" where
  "statusP c pre m = wrapP (\<lambda>e. StatusErr c (pre @ errText e)) m"

section \<open>Create\<close>

text \<open>The repository is checked by a list job; when its key is missing it is initialised.\<close>

definition ensure_repository :: "'z env \<Rightarrow> restic \<Rightarrow> ('z world_scheme, unit) prog" where
  "ensure_repository E r =
     bindP (tryP (doResticJob E (resticJobListSnapshots r))) (\<lambda>chk. case chk of
         Inr _ \<Rightarrow> retP ()
       | Inl e \<Rightarrow>
           if Contains (errText e) ''specified key does not exist'' then
             bindP (statusP Internal ''Checking bucket failed : '' (checkBucket E r)) (\<lambda>_.
             bindP (statusP Internal ''Initializing repository failed : ''
               (doResticJob E (resticJobInit r))) (\<lambda>_. retP ()))
           else failP (StatusErr Internal (''Checking repository failed : '' @ errText e)))"

definition CreateSnapshot ::
  "'z env \<Rightarrow> codec \<Rightarrow> config \<Rightarrow> string \<Rightarrow> string \<Rightarrow> params option \<Rightarrow> ('z world_scheme, CSISnapshot) prog" where
  "CreateSnapshot E J cfg name sourceVolumeID secrets =
     (if name = '''' then failP (StatusErr InvalidArgument ''CreateSnapshot name must be provided'')
      else if sourceVolumeID = ''''
        then failP (StatusErr InvalidArgument ''CreateSnapshot sourceVolumeId must be provided'')
      else let pvID = snd (path_split sourceVolumeID)
      in bindP (statusP InvalidArgument (''Cannot find pvc bounded to '' @ name @ '' : '')
           (getPVCFromVolumeID E pvID)) (\<lambda>(pvc, namespace).
         bindP (statusP Internal ''Error configure restic job : '' (liftP (newRestic E secrets))) (\<lambda>r.
         bindP (ensure_repository E r) (\<lambda>_.
         bindP (statusP Internal ''Error getting namespace UID : '' (getClusterUID E cfg)) (\<lambda>uid.
         bindP (statusP Internal ''Error running backup job : ''
           (doResticJob E (resticJobBackup r pvID pvc namespace (''cluster-'' @ uid)))) (\<lambda>output.
         bindP (wrapP (\<lambda>e. StatusErr Internal (''Error persing restic backup summary : '' @ errText e @ '' : '' @ output))
           (liftP (json_summary J (sanitizeJSON output)))) (\<lambda>summary.
         bindP (statusP Internal ''Error running list snapshots job : ''
           (doResticJob E (resticJobListSnapshots r))) (\<lambda>output.
         bindP (wrapP (\<lambda>e. StatusErr Internal (''Error persing restic snapshot : '' @ errText e @ '' : '' @ output))
           (liftP (json_snapshots J (sanitizeJSON output)))) (\<lambda>snaps.
         case find (\<lambda>snap. rs_ShortID snap = sum_SnapshotID summary) snaps of
           None \<Rightarrow> failP (StatusErr Internal ''Snapshot not found in list'')
         | Some snap \<Rightarrow> statusP Internal ''Error translating restic snapshot : ''
             (liftP (newCSISnapshot J snap (sum_TotalBytesProcessed summary))))))))))))"

section \<open>Delete and list\<close>

text \<open>Every error of \<open>doResticJob\<close> comes with an empty output, which the messages append.\<close>

definition DeleteSnapshot ::
  "'z env \<Rightarrow> string \<Rightarrow> params option \<Rightarrow> ('z world_scheme, unit) prog" where
  "DeleteSnapshot E snapshotID secrets =
     (if snapshotID = '''' then failP (StatusErr InvalidArgument ''Snapshot ID not provided'')
      else bindP (statusP Internal ''Error configure restic job : '' (liftP (newRestic E secrets))) (\<lambda>r.
           bindP (wrapP (\<lambda>e. StatusErr Internal (''Error running delete snapshot job : '' @ errText e @ '' : ''))
             (doResticJob E (resticJobDelete r snapshotID))) (\<lambda>_. retP ())))"

fun translate_all :: "codec \<Rightarrow> ResticSnapshot list \<Rightarrow> gerror + CSISnapshot list" where
  "translate_all J [] = Inr []"
| "translate_all J (snap # snaps) =
     (case newCSISnapshot J snap 0 of
        Inl e \<Rightarrow> Inl e
      | Inr x \<Rightarrow> (case translate_all J snaps of Inl e \<Rightarrow> Inl e | Inr xs \<Rightarrow> Inr (x # xs)))"

definition ListSnapshots ::
  "'z env \<Rightarrow> codec \<Rightarrow> string \<Rightarrow> string \<Rightarrow> params option \<Rightarrow> ('z world_scheme, CSISnapshot list) prog" where
  "ListSnapshots E J snapshotID volumeID secrets =
     bindP (statusP Internal ''Error configure restic job : '' (liftP (newRestic E secrets))) (\<lambda>r.
     bindP (wrapP (\<lambda>e. StatusErr Internal (''Error running list snapshots job : '' @ errText e @ '' : ''))
       (doResticJob E (resticJobListSnapshots r))) (\<lambda>output.
     bindP (wrapP (\<lambda>e. StatusErr Internal (''Error persing restic backup summary : '' @ errText e @ '' : '' @ output))
       (liftP (json_snapshots J output))) (\<lambda>snaps.
     if snapshotID \<noteq> '''' then
       (case find (\<lambda>snap. rs_ShortID snap = snapshotID) snaps of
          None \<Rightarrow> retP []
        | Some snap \<Rightarrow> bindP (statusP Internal ''Error translating restic snapshot : ''
            (liftP (newCSISnapshot J snap 0))) (\<lambda>x. retP [x]))
     else statusP Internal ''Error translating restic snapshot : ''
       (liftP (translate_all J
         (filter (\<lambda>snap. volumeID = '''' \<or> volumeID = GetSourceVolumeID snap) snaps))))))"

section \<open>Restore\<close>

definition getSecretsFromSnapshotClass :: "'z env \<Rightarrow> string \<Rightarrow> ('z world_scheme, params) prog" where
  "getSecretsFromSnapshotClass E className =
     bindP (wrapP (\<lambda>e. Errorf (''Error getting volumesnapshotclass '' @ className @ '' : '' @ errText e))
       (api (GetSnapshotClass className) (\<lambda>h. getSnapshotClass E h className))) (\<lambda>ps.
     let n = param ps ''csi.storage.k8s.io/snapshotter-secret-name'';
         ns = param ps ''csi.storage.k8s.io/snapshotter-secret-namespace''
     in if n = '''' then failP (Errorf ''Error csi.storage.k8s.io/snapshotter-secret-name not found in parameters'')
        else if ns = '''' then failP (Errorf ''Error csi.storage.k8s.io/snapshotter-secret-namespace not found in parameters'')
        else wrapP (\<lambda>e. Errorf (''Error getting secret : '' @ errText e))
          (api (GetSecret ns n) (\<lambda>h. getSecret E h ns n)))"

definition getSecretsFromSnapshotID :: "'z env \<Rightarrow> string \<Rightarrow> ('z world_scheme, params) prog" where
  "getSecretsFromSnapshotID E snapshotID =
     bindP (wrapP (\<lambda>e. Errorf (''Error getting volumesnapshotcontents list : '' @ errText e))
       (api ListSnapshotContents (listSnapshotContents E))) (\<lambda>contents.
     bindP (eachP contents (\<lambda>c.
       bindP (derefP (sct_handle c)) (\<lambda>handle.
         if handle = snapshotID then bindP (derefP (sct_class c)) (\<lambda>n. retP (Some n))
         else retP None))) (\<lambda>r.
     let className = pstr r
     in if className = ''''
        then failP (Errorf (''Error snapshotId '' @ snapshotID @ '' not found in volumesnapshotcontents''))
        else getSecretsFromSnapshotClass E className))"

text \<open>A CSI volume; its context maps \<open>ip\<close> and \<open>path\<close>, its content source is a snapshot ID.\<close>

record Volume =
  vol_VolumeId :: string
  vol_CapacityBytes :: int64
  vol_ip :: string
  vol_path :: string
  vol_ContentSource :: "string option"

definition restoreSnapshot :: "'z env \<Rightarrow> codec \<Rightarrow> string \<Rightarrow> Volume \<Rightarrow> ('z world_scheme, unit) prog" where
  "restoreSnapshot E J snapshotID vol =
     bindP (wrapP (\<lambda>e. Errorf (''Error getting secrets for '' @ snapshotID @ '' : '' @ errText e))
       (getSecretsFromSnapshotID E snapshotID)) (\<lambda>secrets.
     bindP (wrapP (\<lambda>e. Errorf (''Error configure restic job : '' @ errText e))
       (liftP (newRestic E (Some secrets)))) (\<lambda>r.
     bindP (wrapP (\<lambda>e. Errorf (''Error running list snapshots job : '' @ errText e))
       (doResticJob E (resticJobListSnapshots r))) (\<lambda>output.
     bindP (wrapP (\<lambda>e. Errorf (''Error persing restic snapshot : '' @ errText e @ '' : '' @ output))
       (liftP (json_snapshots J output))) (\<lambda>snaps.
     case find (\<lambda>snp. rs_ShortID snp = snapshotID) snaps of
       None \<Rightarrow> failP (Errorf ''Snapshot not found in list'')
     | Some snap \<Rightarrow>
         bindP (wrapP (\<lambda>e. Errorf (''Error running restore snapshot job : '' @ errText e @ '' : ''))
           (doResticJob E (resticJobRestore r snapshotID (vol_ip vol) (path_join [''/'', vol_path vol])
             (GetSourceVolumeID snap)))) (\<lambda>_. retP ())))))"

section \<open>Which calls are made\<close>

text \<open>Snapshot operations only read, and run jobs with their secret.\<close>

definition snapshot_call :: "call \<Rightarrow> bool" where
  "snapshot_call c \<longleftrightarrow> reading c \<or> restic_call c"

lemma keeps_statusP: "keeps (extends C) m \<Longrightarrow> keeps (extends C) (statusP c pre m)"
  by (simp add: statusP_def ext.keeps_wrap)

lemma keeps_restic_programs:
  assumes "retry_contract E" and "\<And>c. snapshot_call c \<Longrightarrow> C c"
  shows "keeps (extends C) (doResticJob E js)"
    and "keeps (extends C) (checkBucket E r)"
    and "keeps (extends C) (getClusterUID E cfg)"
  using assms by (auto simp: snapshot_call_def intro: keeps_doResticJob keeps_checkBucket keeps_shared)

lemma keeps_getPVC:
  assumes "\<And>c. snapshot_call c \<Longrightarrow> C c"
  shows "keeps (extends C) (getPVCFromVolumeID E vid)"
  using assms by (auto simp: getPVCFromVolumeID_def snapshot_call_def Let_def intro!: world_intros split: option.split)

lemma keeps_ensure_repository:
  assumes "retry_contract E" and "\<And>c. snapshot_call c \<Longrightarrow> C c"
  shows "keeps (extends C) (ensure_repository E r)"
  using assms
  by (auto simp: ensure_repository_def intro!: world_intros keeps_restic_programs keeps_statusP split: sum.split)

lemma keeps_secrets:
  assumes "\<And>c. snapshot_call c \<Longrightarrow> C c"
  shows "keeps (extends C) (getSecretsFromSnapshotID E sid)"
  using assms
  by (auto simp: getSecretsFromSnapshotID_def getSecretsFromSnapshotClass_def snapshot_call_def Let_def
      intro!: world_intros)

lemma keeps_restoreSnapshot:
  assumes "retry_contract E" and "\<And>c. snapshot_call c \<Longrightarrow> C c"
  shows "keeps (extends C) (restoreSnapshot E J sid vol)"
  using assms
  by (auto simp: restoreSnapshot_def intro!: world_intros keeps_restic_programs keeps_secrets split: option.split)

lemma keeps_snapshot_ops:
  assumes "retry_contract E" and "\<And>c. snapshot_call c \<Longrightarrow> C c"
  shows "keeps (extends C) (CreateSnapshot E J cfg name vid secrets)"
    and "keeps (extends C) (DeleteSnapshot E sid secrets)"
    and "keeps (extends C) (ListSnapshots E J sid vid secrets)"
  using assms
  by (auto simp: CreateSnapshot_def DeleteSnapshot_def ListSnapshots_def Let_def
      intro!: world_intros keeps_statusP keeps_restic_programs keeps_getPVC keeps_ensure_repository
      split: option.split)

end
