(* ===== verification/Driver.thy ===== *)
theory Driver
  imports Shared
begin

text \<open>
  The driver object (pkg/driver/driver.go): the checks of its configuration, the capabilities
  it announces and the check of the capabilities a volume is requested with.
\<close>

datatype access_mode =
    UNKNOWN | SINGLE_NODE_WRITER | SINGLE_NODE_READER_ONLY | MULTI_NODE_READER_ONLY
  | MULTI_NODE_SINGLE_WRITER | MULTI_NODE_MULTI_WRITER | OtherMode int

fun mode_String :: "access_mode \<Rightarrow> string" where
  "mode_String UNKNOWN = ''UNKNOWN''"
| "mode_String SINGLE_NODE_WRITER = ''SINGLE_NODE_WRITER''"
| "mode_String SINGLE_NODE_READER_ONLY = ''SINGLE_NODE_READER_ONLY''"
| "mode_String MULTI_NODE_READER_ONLY = ''MULTI_NODE_READER_ONLY''"
| "mode_String MULTI_NODE_SINGLE_WRITER = ''MULTI_NODE_SINGLE_WRITER''"
| "mode_String MULTI_NODE_MULTI_WRITER = ''MULTI_NODE_MULTI_WRITER''"
| "mode_String (OtherMode n) = show_int n"

text \<open>\<open>MountType m\<close> holds a pointer to the file system type and the mount flags.\<close>

datatype access_type = MountType "(string \<times> string list) option" | BlockType

record VolumeCapability =
  vc_mode :: "access_mode option"
  vc_type :: "access_type option"

datatype controller_rpc =
  CTRL_UNKNOWN | CREATE_DELETE_VOLUME | CREATE_DELETE_SNAPSHOT | LIST_SNAPSHOTS | OtherRpc int

datatype node_rpc = GET_VOLUME_STATS | OtherNodeRpc int

record driver =
  drv_config :: config
  drv_vcap :: "access_mode list"
  drv_cscap :: "controller_rpc list"
  drv_nscap :: "node_rpc list"

text \<open>\<open>vcap\<close> is a map from a mode to itself: the list of its keys.\<close>

definition addVolumeCapabilityAccessModes :: "access_mode list \<Rightarrow> driver \<Rightarrow> driver" where
  "addVolumeCapabilityAccessModes vc d = d\<lparr>drv_vcap := remdups (drv_vcap d @ vc)\<rparr>"

definition addControllerServiceCapabilities :: "controller_rpc list \<Rightarrow> driver \<Rightarrow> driver" where
  "addControllerServiceCapabilities cl d = d\<lparr>drv_cscap := cl\<rparr>"

definition addNodeServiceCapabilities :: "node_rpc list \<Rightarrow> driver \<Rightarrow> driver" where
  "addNodeServiceCapabilities nl d = d\<lparr>drv_nscap := nl\<rparr>"

text \<open>The construction of the servers is in the theories of the servers.\<close>

definition NewNifcloudNasDriver :: "config \<Rightarrow> gerror + driver" where
  "NewNifcloudNasDriver c =
     (if cfg_Name c = '''' then Inl (Errorf ''driver name missing'')
      else if cfg_Version c = '''' then Inl (Errorf ''driver version missing'')
      else if cfg_NodeID c = '''' \<and> cfg_RunNode c then Inl (Errorf ''node id missing'')
      else if \<not> cfg_RunController c \<and> \<not> cfg_RunNode c
        then Inl (Errorf ''must run at least one controller or node service'')
      else let d = \<lparr>drv_config = c, drv_vcap = [], drv_cscap = [], drv_nscap = []\<rparr>;
               d = addVolumeCapabilityAccessModes
                 [SINGLE_NODE_WRITER, SINGLE_NODE_READER_ONLY, MULTI_NODE_READER_ONLY,
                  MULTI_NODE_SINGLE_WRITER, MULTI_NODE_MULTI_WRITER] d;
               d = (if cfg_RunNode c then addNodeServiceCapabilities [GET_VOLUME_STATS] d else d);
               d = (if cfg_RunController c then addControllerServiceCapabilities
                 [CREATE_DELETE_VOLUME, CREATE_DELETE_SNAPSHOT, LIST_SNAPSHOTS] d else d)
           in Inr d)"

definition validateVolumeCapability :: "driver \<Rightarrow> VolumeCapability option \<Rightarrow> gerror + unit" where
  "validateVolumeCapability d c =
     (case c of
        None \<Rightarrow> Inl (Errorf ''volume capability must be provided'')
      | Some c \<Rightarrow> (case vc_mode c of
          None \<Rightarrow> Inl (Errorf ''volume capability access mode not set'')
        | Some mode \<Rightarrow>
            if mode \<notin> set (drv_vcap d)
            then Inl (Errorf (''driver does not support access mode: '' @ mode_String mode))
            else (case vc_type c of
                None \<Rightarrow> Inl (Errorf ''volume capability access type not set'')
              | Some (MountType (Some m)) \<Rightarrow> Inr ()
              | Some _ \<Rightarrow> Inl (Errorf ''driver only supports mount access type volume capability''))))"

fun each_capability :: "driver \<Rightarrow> VolumeCapability option list \<Rightarrow> gerror + unit" where
  "each_capability d [] = Inr ()"
| "each_capability d (c # cs) =
     (case validateVolumeCapability d c of Inl e \<Rightarrow> Inl e | Inr _ \<Rightarrow> each_capability d cs)"

definition validateVolumeCapabilities :: "driver \<Rightarrow> VolumeCapability option list \<Rightarrow> gerror + unit" where
  "validateVolumeCapabilities d caps =
     (if caps = [] then Inl (Errorf ''volume capabilities must be provided'')
      else each_capability d caps)"

definition ValidateControllerServiceRequest :: "driver \<Rightarrow> controller_rpc \<Rightarrow> gerror + unit" where
  "ValidateControllerServiceRequest d c =
     (if c = CTRL_UNKNOWN then Inr ()
      else if c \<in> set (drv_cscap d) then Inr ()
      else Inl (StatusErr InvalidArgument ''Invalid controller service request''))"

section \<open>What is accepted\<close>

definition good_capability :: "VolumeCapability option \<Rightarrow> bool" where
  "good_capability c \<longleftrightarrow> (\<exists>mode m. c = Some \<lparr>vc_mode = Some mode, vc_type = Some (MountType (Some m))\<rparr> \<and>
     mode \<in> {SINGLE_NODE_WRITER, SINGLE_NODE_READER_ONLY, MULTI_NODE_READER_ONLY,
       MULTI_NODE_SINGLE_WRITER, MULTI_NODE_MULTI_WRITER})"

lemma NewNifcloudNasDriver_vcap:
  "NewNifcloudNasDriver c = Inr d \<Longrightarrow>
    set (drv_vcap d) = {SINGLE_NODE_WRITER, SINGLE_NODE_READER_ONLY, MULTI_NODE_READER_ONLY,
       MULTI_NODE_SINGLE_WRITER, MULTI_NODE_MULTI_WRITER}"
  by (auto simp: NewNifcloudNasDriver_def addVolumeCapabilityAccessModes_def
      addNodeServiceCapabilities_def addControllerServiceCapabilities_def Let_def split: if_splits)

lemma validate_one:
  assumes "NewNifcloudNasDriver cfg = Inr d"
  shows "validateVolumeCapability d c = Inr () \<longleftrightarrow> good_capability c"
proof (cases c)
  case None
  then show ?thesis by (simp add: validateVolumeCapability_def good_capability_def)
next
  case (Some v)
  obtain m t where v: "v = \<lparr>vc_mode = m, vc_type = t\<rparr>" by (cases v)
  show ?thesis
    unfolding validateVolumeCapability_def good_capability_def Some v option.case
      NewNifcloudNasDriver_vcap [OF assms]
    by (auto split: option.splits access_type.splits)
qed

lemma each_capability_iff:
  "each_capability d cs = Inr () \<longleftrightarrow> (\<forall>c \<in> set cs. validateVolumeCapability d c = Inr ())"
proof (induction cs)
  case (Cons c cs)
  then show ?case by (cases "validateVolumeCapability d c") auto
qed simp

text \<open>
  A driver that was constructed accepts a list of volume capabilities exactly when it is not
  empty and each one is a mount (not a block) with one of the five access modes of CSI.
\<close>

theorem validateVolumeCapabilities_iff:
  assumes "NewNifcloudNasDriver cfg = Inr d"
  shows "validateVolumeCapabilities d caps = Inr () \<longleftrightarrow>
    caps \<noteq> [] \<and> (\<forall>c \<in> set caps. good_capability c)"
  using validate_one [OF assms] by (simp add: validateVolumeCapabilities_def each_capability_iff)

definition example_config :: config where
  "example_config = \<lparr>cfg_Name = ''nas.csi.storage.nifcloud.com'', cfg_Version = ''v0.6.0c'',
     cfg_NodeID = '''', cfg_RunController = True, cfg_RunNode = False, cfg_RestoreClstID = True,
     cfg_ClusterUID = ''uid-1'', cfg_Region = ''jp-east-1'', cfg_DevEp = '''',
     cfg_PrivateIfName = ''ens192'', cfg_PrivateIPReg = False, cfg_Configurator = True, cfg_Hatoba = False,
     cfg_CidrBlkRcmd = False, cfg_CfgSnapRepo = False,
     cfg_DefaultSnapEndpoint = ''jp-east-2.storage.api.nifcloud.com''\<rparr>"

definition example_driver :: driver where
  "example_driver = \<lparr>drv_config = example_config,
     drv_vcap = [SINGLE_NODE_WRITER, SINGLE_NODE_READER_ONLY, MULTI_NODE_READER_ONLY,
       MULTI_NODE_SINGLE_WRITER, MULTI_NODE_MULTI_WRITER],
     drv_cscap = [CREATE_DELETE_VOLUME, CREATE_DELETE_SNAPSHOT, LIST_SNAPSHOTS], drv_nscap = []\<rparr>"

lemma example_driver_new: "NewNifcloudNasDriver example_config = Inr example_driver"
  by (simp add: NewNifcloudNasDriver_def example_config_def example_driver_def
      addVolumeCapabilityAccessModes_def addControllerServiceCapabilities_def)

theorem validateVolumeCapabilities_iff_witness:
  "validateVolumeCapabilities example_driver
     [Some \<lparr>vc_mode = Some MULTI_NODE_MULTI_WRITER, vc_type = Some (MountType (Some ('''', [])))\<rparr>] = Inr ()"
  using validateVolumeCapabilities_iff [OF example_driver_new]
  by (simp add: good_capability_def)

text \<open>
  A driver is constructed exactly when it has a name and a version, runs at least one of the
  two services, and has a node ID if it runs the node service; the controller's requests it
  then accepts are those it announces.
\<close>

theorem NewNifcloudNasDriver_iff:
  "(\<exists>d. NewNifcloudNasDriver c = Inr d \<and>
      (\<forall>r. ValidateControllerServiceRequest d r = Inr () \<longleftrightarrow>
        r = CTRL_UNKNOWN \<or> cfg_RunController c \<and>
          r \<in> {CREATE_DELETE_VOLUME, CREATE_DELETE_SNAPSHOT, LIST_SNAPSHOTS})) \<longleftrightarrow>
   cfg_Name c \<noteq> '''' \<and> cfg_Version c \<noteq> '''' \<and> (cfg_RunController c \<or> cfg_RunNode c) \<and>
   (cfg_RunNode c \<longrightarrow> cfg_NodeID c \<noteq> '''')"
  by (auto simp: NewNifcloudNasDriver_def addVolumeCapabilityAccessModes_def
      addNodeServiceCapabilities_def addControllerServiceCapabilities_def Let_def
      ValidateControllerServiceRequest_def)

theorem NewNifcloudNasDriver_iff_witness:
  "\<exists>d. NewNifcloudNasDriver example_config = Inr d \<and>
    ValidateControllerServiceRequest d LIST_SNAPSHOTS = Inr ()"
  using NewNifcloudNasDriver_iff [of example_config] by (auto simp: example_config_def)

end
