(* ===== verification/NameHolder.thy ===== *)
theory NameHolder
  imports Reservation
begin

text \<open>
  \<open>InstanceNameHolder\<close> (pkg/driver/utils.go): the names of the NAS instances that a
  CreateVolume request is working on. The Go map always stores \<open>true\<close>, so it is its set of
  keys. Each method runs under the mutex, so it is one step.
\<close>

record InstanceNameHolder =
  creatingInstanceNames :: "string set"

definition newInstanceNameHolder :: InstanceNameHolder where
  "newInstanceNameHolder = \<lparr>creatingInstanceNames = {}\<rparr>"

definition SetCreating :: "string \<Rightarrow> (InstanceNameHolder, unit) prog" where
  "SetCreating name c =
     (if name \<in> creatingInstanceNames c
      then (Fail (Errorf (''Instance '' @ name @ '' is about to create in other Create request'')), c)
      else (Ret (), c\<lparr>creatingInstanceNames := insert name (creatingInstanceNames c)\<rparr>))"

definition IsCreating :: "string \<Rightarrow> InstanceNameHolder \<Rightarrow> bool" where
  "IsCreating name c \<longleftrightarrow> name \<in> creatingInstanceNames c"

definition UnsetCreating :: "string \<Rightarrow> (InstanceNameHolder, unit) prog" where
  "UnsetCreating name c =
     (Ret (), c\<lparr>creatingInstanceNames := creatingInstanceNames c - {name}\<rparr>)"

text \<open>The holder as a reservation: the key reserved is the name asked for.\<close>

definition reserve_name :: "string \<Rightarrow> (InstanceNameHolder, string) prog" where
  "reserve_name name = bindP (SetCreating name) (\<lambda>_. retP name)"

lemma reserve_name_Ret:
  "reserve_name q s = (Ret k, t) \<longleftrightarrow>
     k = q \<and> q \<notin> creatingInstanceNames s \<and>
     t = s\<lparr>creatingInstanceNames := insert q (creatingInstanceNames s)\<rparr>"
  by (auto simp: reserve_name_def SetCreating_def bindP_def retP_def)

interpretation names: reservation creatingInstanceNames
  "as_reserve reserve_name" "as_release UnsetCreating"
  by unfold_locales (auto simp: as_reserve_Some reserve_name_Ret as_release_def UnsetCreating_def)

text \<open>
  However the requests of the gRPC server interleave, no two of them work on the same NAS
  instance name at the same time.
\<close>

theorem instance_name_exclusive:
  assumes "(rstep (as_reserve reserve_name) (as_release UnsetCreating))\<^sup>*\<^sup>* (newInstanceNameHolder, Map.empty) (c, own)"
    and "own g = Some name" and "own h = Some name"
  shows "g = h"
  using assms by (rule names.no_two_owners)

lemma example_creating:
  "(rstep (as_reserve reserve_name) (as_release UnsetCreating))\<^sup>*\<^sup>* (newInstanceNameHolder, Map.empty)
    (\<lparr>creatingInstanceNames = {''pvc-1''}\<rparr>, [3 \<mapsto> ''pvc-1''])"
  by (rule r_into_rtranclp, rule rstep.acquire [where q = "''pvc-1''"])
    (simp_all add: as_reserve_Some reserve_name_Ret newInstanceNameHolder_def)

theorem instance_name_exclusive_witness:
  "reserve_name ''pvc-1'' newInstanceNameHolder = (Ret ''pvc-1'', \<lparr>creatingInstanceNames = {''pvc-1''}\<rparr>) \<and>
    (3 :: nat) = 3"
proof
  show "(3 :: nat) = 3" by (rule instance_name_exclusive [OF example_creating]) simp_all
qed (simp add: reserve_name_Ret newInstanceNameHolder_def)

end
