(* ===== verification/ResourceQueue.thy ===== *)
theory ResourceQueue
  imports GoProgram
begin

text \<open>
  \<open>OperateResourceQueue\<close> (pkg/driver/utils.go): the queue that lets one create (or delete)
  operation on shared NAS instances run at a time. \<open>Queue\<close> takes the queue's mutex and
  returns while holding it; \<open>UnsetQueue\<close>, called by the failing handler or by the informer
  event of the persistent volume, releases it. The second half interleaves the handlers and
  the informer.
\<close>

record OperateResourceQueue =
  q_name :: string
  resources :: "string \<rightharpoonup> bool"
  queueMutex :: bool \<comment> \<open>locked\<close>

definition newOperateResourceQueue :: "string \<Rightarrow> OperateResourceQueue" where
  "newOperateResourceQueue name = \<lparr>q_name = name, resources = Map.empty, queueMutex = False\<rparr>"

text \<open>\<open>Queue\<close> up to the lock: the duplicate check and the pending entry.\<close>

definition queue_enter :: "string \<Rightarrow> OperateResourceQueue \<Rightarrow> gerror + OperateResourceQueue" where
  "queue_enter name q =
     (case resources q name of
        Some _ \<Rightarrow> Inl (Errorf (''Duplicate Queue called for '' @ name @ '' in '' @ q_name q))
      | None \<Rightarrow> Inr (q\<lparr>resources := (resources q)(name \<mapsto> False)\<rparr>))"

text \<open>\<open>Queue\<close> from the lock on; \<open>None\<close> while another goroutine holds the mutex.\<close>

definition queue_acquire :: "string \<Rightarrow> OperateResourceQueue \<Rightarrow> OperateResourceQueue option" where
  "queue_acquire name q =
     (if queueMutex q then None
      else Some (q\<lparr>queueMutex := True, resources := (resources q)(name \<mapsto> True)\<rparr>))"

definition Queue :: "string \<Rightarrow> (OperateResourceQueue, unit) prog" where
  "Queue name q =
     (case queue_enter name q of
        Inl e \<Rightarrow> (Fail e, q)
      | Inr q1 \<Rightarrow> (case queue_acquire name q1 of
          None \<Rightarrow> (Blocked, q1) | Some q2 \<Rightarrow> (Ret (), q2)))"

definition UnsetQueue :: "string \<Rightarrow> (OperateResourceQueue, unit) prog" where
  "UnsetQueue name q =
     (case resources q name of
        Some True \<Rightarrow>
          (let q1 = q\<lparr>resources := (resources q)(name := None)\<rparr>
           in if queueMutex q1 then (Ret (), q1\<lparr>queueMutex := False\<rparr>)
              else (Panic ''sync: unlock of unlocked mutex'', q1))
      | _ \<Rightarrow> (Ret (), q))"

section \<open>The queue alone\<close>

text \<open>The mutex is locked exactly when one entry, and then only one, is operating.\<close>

definition queue_inv :: "OperateResourceQueue \<Rightarrow> bool" where
  "queue_inv q \<longleftrightarrow>
     (queueMutex q \<longleftrightarrow> (\<exists>n. resources q n = Some True)) \<and>
     (\<forall>n m. resources q n = Some True \<and> resources q m = Some True \<longrightarrow> n = m)"

lemma queue_inv_new: "queue_inv (newOperateResourceQueue name)"
  by (simp add: queue_inv_def newOperateResourceQueue_def)

lemma queue_inv_enter: "queue_inv q \<Longrightarrow> queue_enter name q = Inr q' \<Longrightarrow> queue_inv q'"
proof -
  assume inv: "queue_inv q" and r: "queue_enter name q = Inr q'"
  have "queueMutex q' = queueMutex q" "resources q' n = Some True \<longleftrightarrow> resources q n = Some True" for n
    using r by (auto simp: queue_enter_def split: option.splits if_splits)
  with inv show "queue_inv q'" by (simp add: queue_inv_def)
qed

lemma queue_inv_acquire: "queue_inv q \<Longrightarrow> queue_acquire name q = Some q' \<Longrightarrow> queue_inv q'"
  by (auto simp: queue_inv_def queue_acquire_def split: if_splits)

lemma UnsetQueue_inv:
  "queue_inv q \<Longrightarrow> UnsetQueue name q = (r, q') \<Longrightarrow> r = Ret () \<and> queue_inv q'"
  by (auto simp: queue_inv_def UnsetQueue_def Let_def split: option.splits bool.splits if_splits)

lemma Queue_inv: "queue_inv q \<Longrightarrow> Queue name q = (r, q') \<Longrightarrow> queue_inv q'"
  by (auto simp: Queue_def split: sum.splits option.splits
      dest: queue_inv_enter queue_inv_acquire intro: queue_inv_acquire queue_inv_enter)

lemma Queue_Unset:
  assumes "Queue name q = (Ret (), q1)"
  shows "UnsetQueue name q1 = (Ret (), q)"
  using assms
  by (cases q) (auto simp: Queue_def queue_enter_def queue_acquire_def UnsetQueue_def
      fun_upd_idem split: option.splits if_splits)

section \<open>Handlers and informer interleaved\<close>

text \<open>
  A handler for the resource \<open>n\<close> waits for the mutex, then runs until it returns: with an
  error it unsets its entry, with success it leaves the entry to the informer's event. A
  second request for a resource that is in the queue is refused by \<open>Queue\<close>, and the
  deferred function of the refused handler unsets the entry of that name all the same (rule
  \<open>duplicate\<close>, taken only if \<open>dup\<close> holds).
\<close>

datatype phase = Waiting | Running

type_synonym qsys = "OperateResourceQueue \<times> (nat \<rightharpoonup> string \<times> phase)"

inductive qstep :: "bool \<Rightarrow> qsys \<Rightarrow> qsys \<Rightarrow> bool" for dup where
  enter: "ts g = None \<Longrightarrow> queue_enter n q = Inr q' \<Longrightarrow> qstep dup (q, ts) (q', ts(g \<mapsto> (n, Waiting)))"
| duplicate: "dup \<Longrightarrow> ts g = None \<Longrightarrow> queue_enter n q = Inl e \<Longrightarrow> UnsetQueue n q = (Ret (), q') \<Longrightarrow>
    qstep dup (q, ts) (q', ts)"
| acquire: "ts g = Some (n, Waiting) \<Longrightarrow> queue_acquire n q = Some q' \<Longrightarrow>
    qstep dup (q, ts) (q', ts(g \<mapsto> (n, Running)))"
| error: "ts g = Some (n, Running) \<Longrightarrow> UnsetQueue n q = (Ret (), q') \<Longrightarrow>
    qstep dup (q, ts) (q', ts(g := None))"
| success: "ts g = Some (n, Running) \<Longrightarrow> qstep dup (q, ts) (q, ts(g := None))"
| event: "(\<forall>g. ts g \<noteq> Some (n, Running)) \<Longrightarrow> UnsetQueue n q = (Ret (), q') \<Longrightarrow>
    qstep dup (q, ts) (q', ts)"

inductive qreach :: "bool \<Rightarrow> string \<Rightarrow> qsys \<Rightarrow> bool" for dup name where
  start: "qreach dup name (newOperateResourceQueue name, Map.empty)"
| step: "qreach dup name c \<Longrightarrow> qstep dup c d \<Longrightarrow> qreach dup name d"

lemma qreach_queue_inv: "qreach dup name c \<Longrightarrow> queue_inv (fst c)"
proof (induction rule: qreach.induct)
  case start
  then show ?case by (simp add: queue_inv_new)
next
  case (step c d)
  from step.hyps(2) step.IH show ?case
    by (cases rule: qstep.cases)
      (auto dest: queue_inv_enter queue_inv_acquire UnsetQueue_inv)
qed

text \<open>Without duplicates every handler owns the entry of its name.\<close>

definition owners_inv :: "qsys \<Rightarrow> bool" where
  "owners_inv c \<longleftrightarrow> (\<forall>g n p. snd c g = Some (n, p) \<longrightarrow>
      resources (fst c) n = Some (p = Running) \<and>
      (\<forall>h p'. snd c h = Some (n, p') \<longrightarrow> h = g))"

lemma UnsetQueue_resources:
  "UnsetQueue n q = (Ret (), q') \<Longrightarrow>
    resources q' = (if resources q n = Some True then (resources q)(n := None) else resources q)"
  by (auto simp: UnsetQueue_def Let_def split: option.splits bool.splits if_splits)

lemma qstep_owners_inv:
  assumes "qstep False c d" "owners_inv c" "queue_inv (fst c)"
  shows "owners_inv d"
  using assms
proof (cases rule: qstep.cases)
  case (enter ts g n q q')
  then show ?thesis
    using assms(2) by (auto simp: owners_inv_def queue_enter_def split: option.splits)
next
  case (acquire ts g n q q')
  then show ?thesis
    using assms(2) by (auto simp: owners_inv_def queue_acquire_def split: if_splits)
next
  case (error ts g n q q')
  then show ?thesis
    using assms(2) by (auto simp: owners_inv_def UnsetQueue_resources)
next
  case (success ts g n q)
  then show ?thesis using assms(2) by (auto simp: owners_inv_def)
next
  case (event ts n q q')
  then show ?thesis
    using assms(2) by (auto simp: owners_inv_def UnsetQueue_resources)
qed simp

lemma qreach_owners_inv: "qreach False name c \<Longrightarrow> owners_inv c"
proof (induction rule: qreach.induct)
  case start
  then show ?case by (simp add: owners_inv_def)
next
  case (step c d)
  then show ?case using qstep_owners_inv qreach_queue_inv by blast
qed

text \<open>
  C12. In every interleaving of handlers and informer events in which no request arrives for a
  resource that is already in the queue, at most one handler is past \<open>Queue\<close>: two handlers
  that are running are the same one.
\<close>

theorem queue_mutual_exclusion:
  assumes "qreach False name (q, ts)"
    and "ts g = Some (n, Running)" and "ts h = Some (m, Running)"
  shows "g = h"
proof -
  have own: "owners_inv (q, ts)" and inv: "queue_inv q"
    using qreach_owners_inv qreach_queue_inv assms(1) by fastforce+
  from own assms(2,3) have "resources q n = Some True" "resources q m = Some True"
    by (auto simp: owners_inv_def)
  with inv have "n = m" by (auto simp: queue_inv_def)
  with own assms(2,3) show ?thesis by (fastforce simp: owners_inv_def)
qed

lemma qreach_one_running:
  "qreach dup name
    (\<lparr>q_name = name, resources = [n \<mapsto> True], queueMutex = True\<rparr>, [g \<mapsto> (n, Running)])"
proof -
  let ?q0 = "newOperateResourceQueue name"
  let ?q1 = "?q0\<lparr>resources := [n \<mapsto> False]\<rparr>"
  let ?q2 = "?q1\<lparr>queueMutex := True, resources := [n \<mapsto> True]\<rparr>"
  have "qstep dup (?q0, Map.empty) (?q1, [g \<mapsto> (n, Waiting)])"
    by (rule qstep.enter) (simp_all add: queue_enter_def newOperateResourceQueue_def)
  moreover have "qstep dup (?q1, [g \<mapsto> (n, Waiting)]) (?q2, [g \<mapsto> (n, Waiting)](g \<mapsto> (n, Running)))"
    by (rule qstep.acquire) (simp_all add: queue_acquire_def newOperateResourceQueue_def)
  ultimately have "qreach dup name (?q2, [g \<mapsto> (n, Waiting)](g \<mapsto> (n, Running)))"
    by (blast intro: qreach.intros)
  then show ?thesis by (simp add: newOperateResourceQueue_def)
qed

theorem queue_mutual_exclusion_witness:
  "qreach False ''q'' (\<lparr>q_name = ''q'', resources = [''pv'' \<mapsto> True], queueMutex = True\<rparr>,
      [7 \<mapsto> (''pv'', Running)]) \<and> (7 :: nat) = 7"
proof -
  have run: "qreach False ''q'' (\<lparr>q_name = ''q'', resources = [''pv'' \<mapsto> True], queueMutex = True\<rparr>,
      [7 \<mapsto> (''pv'', Running)])"
    by (rule qreach_one_running)
  moreover have "(7 :: nat) = 7"
    by (rule queue_mutual_exclusion [OF run]) simp_all
  ultimately show ?thesis ..
qed

text \<open>
  No reachable interleaving, duplicate requests included, makes \<open>UnsetQueue\<close> unlock a
  mutex that is not locked (which ends the Go program): it always returns.
\<close>

theorem UnsetQueue_never_panics:
  assumes "qreach dup name (q, ts)"
  shows "fst (UnsetQueue n q) = Ret ()"
  using qreach_queue_inv [OF assms] UnsetQueue_inv [of q n] by (metis fst_conv prod.collapse)

theorem UnsetQueue_never_panics_witness:
  "fst (UnsetQueue ''pv'' \<lparr>q_name = ''q'', resources = [''pv'' \<mapsto> True], queueMutex = True\<rparr>) = Ret ()"
  by (rule UnsetQueue_never_panics [OF qreach_one_running [of True _ _ 0]])

text \<open>
  With duplicate requests the exclusion is lost: while the handler of \<open>pvc-a\<close> runs, a
  second request for \<open>pvc-a\<close> is refused by \<open>Queue\<close>, but its deferred \<open>UnsetQueue\<close> removes the
  entry of the first and unlocks the mutex, so the handler of \<open>pvc-b\<close> runs beside it.
\<close>

theorem queue_duplicate_breaks_exclusion:
  "\<exists>q ts. qreach True ''Creating PVs queue'' (q, ts) \<and>
     ts 0 = Some (''pvc-a'', Running) \<and> ts 1 = Some (''pvc-b'', Running)"
proof -
  let ?n = "''Creating PVs queue''"
  let ?q = "\<lambda>a. \<lparr>q_name = ?n, resources = a, queueMutex = True\<rparr>"
  let ?e = "\<lambda>a. \<lparr>q_name = ?n, resources = a, queueMutex = False\<rparr>"
  let ?t0 = "[0 \<mapsto> (''pvc-a'', Running)]"
  have 0: "qreach True ?n (?q [''pvc-a'' \<mapsto> True], ?t0)"
    by (rule qreach_one_running)
  have "qstep True (?q [''pvc-a'' \<mapsto> True], ?t0) (?e Map.empty, ?t0)"
    by (rule qstep.duplicate [where n = "''pvc-a''" and g = 2])
      (simp_all add: queue_enter_def UnsetQueue_def)
  with 0 have 1: "qreach True ?n (?e Map.empty, ?t0)" by (rule qreach.step)
  have "qstep True (?e Map.empty, ?t0) (?e [''pvc-b'' \<mapsto> False], ?t0(1 \<mapsto> (''pvc-b'', Waiting)))"
    by (rule qstep.enter) (simp_all add: queue_enter_def)
  with 1 have 2: "qreach True ?n (?e [''pvc-b'' \<mapsto> False], ?t0(1 \<mapsto> (''pvc-b'', Waiting)))"
    by (rule qreach.step)
  have "qstep True (?e [''pvc-b'' \<mapsto> False], ?t0(1 \<mapsto> (''pvc-b'', Waiting)))
     (?q [''pvc-b'' \<mapsto> True], ?t0(1 \<mapsto> (''pvc-b'', Waiting), 1 \<mapsto> (''pvc-b'', Running)))"
    by (rule qstep.acquire) (simp_all add: queue_acquire_def)
  with 2 have 3: "qreach True ?n
      (?q [''pvc-b'' \<mapsto> True], ?t0(1 \<mapsto> (''pvc-b'', Waiting), 1 \<mapsto> (''pvc-b'', Running)))"
    by (rule qreach.step)
  show ?thesis by (intro exI conjI, rule 3) simp_all
qed

end
