(* ===== verification/Controller.thy ===== *)
theory Controller
  imports Snapshot Driver NameHolder ResourceQueue
begin

text \<open>
  The controller service (pkg/driver/controller.go, and \<open>convertSharedRequest\<close> of
  pkg/driver/shared_utils.go). Its state is the history of the outside calls and the four
  in-memory holders; a handler is one program on that state. Requests that run at the same
  time are interleaved in the theories of the holders and, as whole handlers, in Handlers and
  Concurrency; here a handler runs alone, with an arbitrary environment, and \<open>Blocked\<close> is a handler that waits for the queue's mutex.
\<close>

section \<open>State\<close>

record sys = world +
  ipAllocator :: IPAllocator
  nasNameHolder :: InstanceNameHolder
  creatingPvsQueue :: OperateResourceQueue
  deletingPvsQueue :: OperateResourceQueue

type_synonym cenv = "unit sys_ext env"

definition newControllerServer :: "history \<Rightarrow> sys" where
  "newControllerServer h = \<lparr>trace = h, ipAllocator = newIPAllocator {},
     nasNameHolder = newInstanceNameHolder,
     creatingPvsQueue = newOperateResourceQueue ''Creating PVs queue'',
     deletingPvsQueue = newOperateResourceQueue ''Deleting PVs queue''\<rparr>"

text \<open>A program on one of the holders, run on the controller's state.\<close>

definition zoomP :: "('s \<Rightarrow> 'x) \<Rightarrow> ('x \<Rightarrow> 's \<Rightarrow> 's) \<Rightarrow> ('x, 'a) prog \<Rightarrow> ('s, 'a) prog" where
  "zoomP get put m s = (case m (get s) of (r, x) \<Rightarrow> (r, put x s))"

definition on_ips :: "(IPAllocator, 'a) prog \<Rightarrow> (sys, 'a) prog" where
  "on_ips = zoomP ipAllocator (\<lambda>x s. s\<lparr>ipAllocator := x\<rparr>)"

definition on_names :: "(InstanceNameHolder, 'a) prog \<Rightarrow> (sys, 'a) prog" where
  "on_names = zoomP nasNameHolder (\<lambda>x s. s\<lparr>nasNameHolder := x\<rparr>)"

definition on_creating :: "(OperateResourceQueue, 'a) prog \<Rightarrow> (sys, 'a) prog" where
  "on_creating = zoomP creatingPvsQueue (\<lambda>x s. s\<lparr>creatingPvsQueue := x\<rparr>)"

definition on_deleting :: "(OperateResourceQueue, 'a) prog \<Rightarrow> (sys, 'a) prog" where
  "on_deleting = zoomP deletingPvsQueue (\<lambda>x s. s\<lparr>deletingPvsQueue := x\<rparr>)"

text \<open>The informer's handlers, given the key of the object or the error of computing it.\<close>

definition pvAdded :: "gerror + string \<Rightarrow> (sys, unit) prog" where
  "pvAdded key = (case key of Inl e \<Rightarrow> retP () | Inr k \<Rightarrow> on_creating (UnsetQueue k))"

definition pvDeleted :: "gerror + string \<Rightarrow> (sys, unit) prog" where
  "pvDeleted key = (case key of Inl e \<Rightarrow> retP () | Inr k \<Rightarrow> on_deleting (UnsetQueue k))"

section \<open>Requests\<close>

datatype content_source = SnapshotSource "string option" | OtherSource

record CreateVolumeRequest =
  req_Name :: string
  req_Caps :: "VolumeCapability option list"
  req_Params :: params
  req_CapRange :: capacity_range
  req_Source :: "content_source option"

section \<open>Placing a shared volume\<close>

definition num_error_text :: "string \<Rightarrow> num_error \<Rightarrow> string" where
  "num_error_text s e = ''strconv.ParseInt: parsing '' @ quoted s @
     (case e of ErrSyntax \<Rightarrow> '': invalid syntax'' | ErrRange \<Rightarrow> '': value out of range'')"

definition errorf_pre :: "string \<Rightarrow> ('s, 'a) prog \<Rightarrow> ('s, 'a) prog" where
  "errorf_pre pre m = wrapP (\<lambda>e. Errorf (pre @ errText e)) m"

text \<open>The search for an instance with room: at most the ten names \<open>001\<close> to \<open>010\<close>.\<close>

fun place_loop :: "'z env \<Rightarrow> string \<Rightarrow> int64 \<Rightarrow> string \<Rightarrow> nat list \<Rightarrow> ('z world_scheme, string) prog" where
  "place_loop E sharedNamePrefix capBytes sharedName [] = retP sharedName"
| "place_loop E sharedNamePrefix capBytes sharedName (i # is) =
     (let sharedName = sharedNamePrefix @ show_03d i
      in bindP (errorf_pre ''Error getting reserved cap of shared nas: ''
           (getNasInstanceReservedCap E sharedName)) (\<lambda>reservedBytes.
         if reservedBytes = 0 then
           bindP (errorf_pre ''Error getting existing nas names: ''
             (getSharedNameFromExistingNas E sharedName)) (\<lambda>(sharedName, ok).
           if ok then retP sharedName
           else bindP (api (RandomString 5) (\<lambda>h. Inr (randomString E h 5))) (\<lambda>r.
                retP (sharedName @ ''-'' @ r)))
         else
           bindP (errorf_pre ''Error getting shared nas name: ''
             (getSharedNameFromExistingPv E sharedName)) (\<lambda>sharedName.
           bindP (errorf_pre ''Error getting nas instance: '' (GetNasInstance E sharedName)) (\<lambda>nas.
           bindP (getNasInstanceCapacityBytes nas) (\<lambda>total.
           if capBytes \<le> i64 (total - reservedBytes) then retP sharedName
           else if i = 10 then failP (Errorf ''Cannot create more than 10 shared NASs'')
           else place_loop E sharedNamePrefix capBytes sharedName is)))))"

text \<open>The part of \<open>convertSharedRequest\<close> that runs once the request is first in the queue.\<close>

definition choose_shared ::
  "'z env \<Rightarrow> config \<Rightarrow> CreateVolumeRequest \<Rightarrow> ('z world_scheme, string \<times> int64) prog" where
  "choose_shared E cfg req =
     (let capBytes = getRequestCapacityNoMinimum (req_CapRange req);
          v = param (req_Params req) ''capacityParInstanceGiB''
      in case ParseInt v of
           (_, Some e) \<Rightarrow>
             failP (Errorf (''Invalid value in capacityParInstanceGiB: '' @ num_error_text v e))
         | (sharedCapGiBytes, None) \<Rightarrow>
             (let sharedCapBytes = GbToBytes sharedCapGiBytes
              in if capBytes > sharedCapBytes
                 then failP (Errorf (''Request capacity '' @ show_int capBytes @
                        '' is too big to share a NAS instance''))
                 else bindP (errorf_pre ''Error getting namespace UID: '' (getClusterUID E cfg)) (\<lambda>clusterUID.
                      bindP (place_loop E
                        (''cluster-'' @ clusterUID @ ''-shd'' @ param (req_Params req) ''instanceType'')
                        capBytes '''' [1..<11]) (\<lambda>sharedName.
                      retP (sharedName, sharedCapBytes)))))"

definition convertSharedRequest ::
  "cenv \<Rightarrow> driver \<Rightarrow> string \<Rightarrow> CreateVolumeRequest \<Rightarrow> (sys, string \<times> int64) prog" where
  "convertSharedRequest E drv name req =
     (if param (req_Params req) ''shared'' \<noteq> ''true''
      then retP (name, getRequestCapacity (req_CapRange req) minVolumeSize)
      else bindP (errorf_pre ''Error creating queue: '' (on_creating (Queue name))) (\<lambda>_.
           choose_shared E (drv_config drv) req))"

section \<open>Parts of CreateVolume\<close>

definition chkNasInstanceAvailable :: "'z env \<Rightarrow> string \<Rightarrow> ('z world_scheme, attempt) prog" where
  "chkNasInstanceAvailable E name =
     bindP (tryP (GetNasInstance E name)) (\<lambda>r. case r of
         Inl e \<Rightarrow> retP (Permanent e)
       | Inr chkNas \<Rightarrow>
           bindP (derefP (ni_Status chkNas)) (\<lambda>st.
             let msg = Errorf (''NASInstance '' @ name @ '' status: '' @ st)
             in if st = ''available'' then retP Done
                else if st \<noteq> ''creating'' \<and> st \<noteq> ''modifying'' then retP (Permanent msg)
                else retP (Transient msg)))"

definition waitForNASInstanceAvailable :: "'z env \<Rightarrow> string \<Rightarrow> ('z world_scheme, unit) prog" where
  "waitForNASInstanceAvailable E name = retry E (chkNasInstanceAvailable E name)"

fun private_addresses :: "NASInstance list \<Rightarrow> ('s, string set) prog" where
  "private_addresses [] = retP {}"
| "private_addresses (n # ns) =
     bindP (derefP (ni_Endpoint n)) (\<lambda>ep.
     bindP (derefP ep) (\<lambda>ip.
     bindP (private_addresses ns) (\<lambda>ips. retP (insert ip ips))))"

definition getCloudInstancesReservedIPs :: "'z env \<Rightarrow> ('z world_scheme, string set) prog" where
  "getCloudInstancesReservedIPs E =
     bindP (statusP Aborted '''' (ListNasInstances E)) private_addresses"

definition reserveIP :: "cenv \<Rightarrow> string \<Rightarrow> (sys, string) prog" where
  "reserveIP E cidr =
     bindP (getCloudInstancesReservedIPs E) (\<lambda>ips. on_ips (GetUnreservedIP cidr ips))"

definition nasInstanceToCSIVolume ::
  "config \<Rightarrow> NASInstance \<Rightarrow> CreateVolumeRequest \<Rightarrow> ('s, Volume) prog" where
  "nasInstanceToCSIVolume cfg n req =
     (let ip = getNasInstancePrivateIP n
      in bindP (GenerateVolumeIDFromNasInstance (cfg_Region cfg) n) (\<lambda>vid.
         if param (req_Params req) ''shared'' = ''true'' then
           retP \<lparr>vol_VolumeId = vid @ ''/'' @ req_Name req,
             vol_CapacityBytes = getRequestCapacityNoMinimum (req_CapRange req),
             vol_ip = ip, vol_path = req_Name req, vol_ContentSource = None\<rparr>
         else bindP (getNasInstanceCapacityBytes n) (\<lambda>bytes.
           retP \<lparr>vol_VolumeId = vid, vol_CapacityBytes = bytes,
             vol_ip = ip, vol_path = '''', vol_ContentSource = None\<rparr>)))"

text \<open>The snapshot named by the request's content source, empty when there is none.\<close>

definition source_snapshot :: "CreateVolumeRequest \<Rightarrow> ('s, string) prog" where
  "source_snapshot req =
     (case req_Source req of
        None \<Rightarrow> retP ''''
      | Some OtherSource \<Rightarrow> failP (StatusErr InvalidArgument ''Unsupported volumeContentSource type'')
      | Some (SnapshotSource None) \<Rightarrow>
          failP (StatusErr InvalidArgument ''Error retrieving snapshot from the volumeContentSource'')
      | Some (SnapshotSource (Some sid)) \<Rightarrow> retP sid)"

text \<open>From the instance on: wait until it is usable, prepare its files, restore a snapshot.\<close>

definition ready_instance :: "'z env \<Rightarrow> string \<Rightarrow> NASInstance \<Rightarrow> ('z world_scheme, NASInstance) prog" where
  "ready_instance E name n =
     bindP (derefP (ni_Status n)) (\<lambda>st.
     bindP (if st \<noteq> ''available'' then
              (if st = ''creating'' \<or> st = ''modifying'' then
                 bindP (statusP Internal ''Error waiting for NASInstance creating > available: ''
                   (waitForNASInstanceAvailable E name)) (\<lambda>_.
                 statusP Internal '''' (GetNasInstance E name))
               else failP (StatusErr Internal (''NAS Instance '' @ name @ '' status:'' @ st)))
            else retP n) (\<lambda>n.
     bindP (derefP (ni_NoRootSquash n)) (\<lambda>squash.
     if squash = ''false'' then
       bindP (statusP Internal '''' (ModifyNasInstance E name)) (\<lambda>_.
       bindP (statusP Internal ''Error waiting for NASInstance modifying > available: ''
         (waitForNASInstanceAvailable E name)) (\<lambda>_.
       statusP Internal '''' (GetNasInstance E name)))
     else retP n)))"

definition prepare_path ::
  "'z env \<Rightarrow> CreateVolumeRequest \<Rightarrow> string \<Rightarrow> NASInstance \<Rightarrow> ('z world_scheme, unit) prog" where
  "prepare_path E req permission n =
     (if param (req_Params req) ''shared'' = ''true'' then
        bindP (derefP (ni_Identifier n)) (\<lambda>ident.
        statusP Internal ''error making source path for shared NASInstance:''
          (makeSourcePath E (getNasInstancePrivateIP n) ident (req_Name req) permission))
      else if permission \<noteq> '''' then
        bindP (derefP (ni_Identifier n)) (\<lambda>ident.
        statusP Internal ''error changing source path mode for NASInstance:''
          (changeModeSourcePath E (getNasInstancePrivateIP n) ident '''' permission))
      else retP ())"

definition finish_volume ::
  "'z env \<Rightarrow> codec \<Rightarrow> config \<Rightarrow> CreateVolumeRequest \<Rightarrow> string \<Rightarrow> string \<Rightarrow> string \<Rightarrow> NASInstance \<Rightarrow>
   ('z world_scheme, Volume) prog" where
  "finish_volume E J cfg req name snapshotID permission n =
     bindP (ready_instance E name n) (\<lambda>n.
     bindP (prepare_path E req permission n) (\<lambda>_.
     bindP (nasInstanceToCSIVolume cfg n req) (\<lambda>vol.
     if snapshotID \<noteq> '''' then
       bindP (statusP Internal ''error restoring volume contents from snapshot''
         (restoreSnapshot E J snapshotID vol)) (\<lambda>_.
       retP (vol\<lparr>vol_ContentSource := Some snapshotID\<rparr>))
     else retP vol)))"

section \<open>CreateVolume\<close>

text \<open>
  A new instance. The deferred release of the address runs when \<open>CreateVolume\<close> returns, so
  the rest of the handler (\<open>rest\<close>) is inside it; when no address was reserved the empty string
  is released.
\<close>

definition create_instance ::
  "cenv \<Rightarrow> CreateNASInstanceInput \<Rightarrow> (NASInstance \<Rightarrow> (sys, Volume) prog) \<Rightarrow> (sys, Volume) prog" where
  "create_instance E nasInput rest =
     bindP (statusP Internal '''' (CreateNasInstance E nasInput)) (\<lambda>n. bindP (derefP n) rest)"

definition new_instance ::
  "cenv \<Rightarrow> CreateVolumeRequest \<Rightarrow> CreateNASInstanceInput \<Rightarrow> string \<Rightarrow>
   (NASInstance \<Rightarrow> (sys, Volume) prog) \<Rightarrow> (sys, Volume) prog" where
  "new_instance E req nasInput annotated rest =
     (if in_NetworkId nasInput \<noteq> None then
        (let cidr = (if annotated = '''' then param (req_Params req) ''reservedIpv4Cidr'' else annotated)
         in if cidr = ''''
            then failP (StatusErr InvalidArgument ''reservedIpv4Cidr must be provided'')
            else bindP (tryP (reserveIP E cidr)) (\<lambda>r. case r of
                Inl e \<Rightarrow> deferP (\<lambda>_. on_ips (ReleaseIP '''')) (failP e)
              | Inr reservedIP \<Rightarrow>
                  deferP (\<lambda>_. on_ips (ReleaseIP reservedIP))
                    (create_instance E
                      (nasInput\<lparr>in_MasterPrivateAddress := Some (reservedIP @ ''/24'')\<rparr>) rest)))
      else create_instance E nasInput rest)"

definition with_instance ::
  "cenv \<Rightarrow> CreateVolumeRequest \<Rightarrow> CreateNASInstanceInput \<Rightarrow> string \<Rightarrow> string \<Rightarrow>
   (NASInstance \<Rightarrow> (sys, Volume) prog) \<Rightarrow> (sys, Volume) prog" where
  "with_instance E req nasInput name annotated rest =
     bindP (tryP (GetNasInstance E name)) (\<lambda>r. case r of
         Inl e \<Rightarrow>
           if \<not> IsNotFoundErr e then failP (StatusErr Internal (errText e))
           else new_instance E req nasInput annotated rest
       | Inr n \<Rightarrow>
           bindP (statusP AlreadyExists '''' (compareNasInstanceWithInput (ptr_text E) n nasInput))
             (\<lambda>_. rest n))"

definition finalize_input :: "string \<Rightarrow> CreateNASInstanceInput \<Rightarrow> CreateNASInstanceInput" where
  "finalize_input sg i =
     (if pstr (in_NetworkId i) = ''net-COMMON_PRIVATE'' then i\<lparr>in_NetworkId := None\<rparr> else i)
       \<lparr>in_SecurityGroups := [sg]\<rparr>"

text \<open>The part of \<open>CreateVolume\<close> that runs while the instance's name is reserved.\<close>

definition create_named ::
  "cenv \<Rightarrow> codec \<Rightarrow> config \<Rightarrow> CreateVolumeRequest \<Rightarrow> string \<Rightarrow> int64 \<Rightarrow> (sys, Volume) prog" where
  "create_named E J cfg req name capBytes =
     bindP (statusP InvalidArgument '''' (liftP (GenerateNasInstanceInput name capBytes (req_Params req)))) (\<lambda>i.
     bindP (statusP InvalidArgument '''' (getSecurityGroupName E cfg)) (\<lambda>sg.
     let nasInput = finalize_input sg i
     in bindP (source_snapshot req) (\<lambda>snapshotID.
        bindP (statusP InvalidArgument '''' (getAnnotationsFromPVC E cfg (req_Name req)))
          (\<lambda>(annotated, permission).
        with_instance E req nasInput name annotated
          (finish_volume E J cfg req name snapshotID permission)))))"

text \<open>
  A panic ends the process, and the state with it: the deferred functions of the handlers
  look at the error only.
\<close>

definition on_error :: "(sys, unit) prog \<Rightarrow> 'a outcome \<Rightarrow> (sys, unit) prog" where
  "on_error m r = (case r of Fail e \<Rightarrow> m | _ \<Rightarrow> retP ())"

definition CreateVolume ::
  "cenv \<Rightarrow> codec \<Rightarrow> driver \<Rightarrow> CreateVolumeRequest \<Rightarrow> (sys, Volume) prog" where
  "CreateVolume E J drv req =
     (if req_Name req = ''''
      then failP (StatusErr InvalidArgument ''CreateVolume name must be provided'')
      else bindP (statusP InvalidArgument '''' (liftP (validateVolumeCapabilities drv (req_Caps req)))) (\<lambda>_.
        deferP (on_error (on_creating (UnsetQueue (req_Name req))))
          (bindP (statusP InvalidArgument '''' (convertSharedRequest E drv (req_Name req) req))
             (\<lambda>(name, capBytes).
           bindP (statusP Internal '''' (on_names (SetCreating name))) (\<lambda>_.
           deferP (\<lambda>_. on_names (UnsetCreating name))
             (create_named E J (drv_config drv) req name capBytes))))))"

section \<open>DeleteVolume\<close>

definition delete_instance :: "'z env \<Rightarrow> string \<Rightarrow> ('z world_scheme, unit) prog" where
  "delete_instance E ident = statusP Internal '''' (DeleteNasInstance E ident)"

definition delete_shared :: "cenv \<Rightarrow> NASInstance \<Rightarrow> string \<Rightarrow> (sys, unit) prog" where
  "delete_shared E nas sourcePath =
     bindP (statusP Internal ''deleting queue:'' (on_deleting (Queue sourcePath))) (\<lambda>_.
     bindP (derefP (ni_Identifier nas)) (\<lambda>ident.
     bindP (statusP Internal ''removing source path:''
       (removeSourcePath E (getNasInstancePrivateIP nas) ident sourcePath)) (\<lambda>_.
     bindP (statusP Internal ''checking other PVs on shared NAS:''
       (noOtherPvsInSharedNas E sourcePath ident)) (\<lambda>mustDeleted.
     if \<not> mustDeleted then retP () else delete_instance E ident))))"

definition DeleteVolume :: "cenv \<Rightarrow> string \<Rightarrow> (sys, unit) prog" where
  "DeleteVolume E volumeID =
     (if volumeID = '''' then failP (StatusErr InvalidArgument ''volume id is empty'')
      else let tokens = Split volumeID (CHR ''/'');
               shared = (length tokens = 3);
               vid = (if shared then Join (take 2 tokens) ''/'' else volumeID)
           in bindP (tryP (GetNasInstanceFromVolumeID E vid)) (\<lambda>r. case r of
                Inl e \<Rightarrow> retP ()
              | Inr nas \<Rightarrow>
                  if shared then
                    deferP (on_error (on_deleting (UnsetQueue (tokens ! 2))))
                      (delete_shared E nas (tokens ! 2))
                  else bindP (derefP (ni_Identifier nas)) (delete_instance E)))"

section \<open>The other calls\<close>

definition ValidateVolumeCapabilities ::
  "'z env \<Rightarrow> driver \<Rightarrow> string \<Rightarrow> VolumeCapability option list \<Rightarrow> ('z world_scheme, unit) prog" where
  "ValidateVolumeCapabilities E drv volumeID caps =
     (if volumeID = '''' then failP (StatusErr InvalidArgument ''volume id is empty'')
      else if caps = [] then failP (StatusErr InvalidArgument ''volume capabilities is empty'')
      else bindP (statusP NotFound '''' (GetNasInstanceFromVolumeID E volumeID)) (\<lambda>_.
           statusP InvalidArgument '''' (liftP (validateVolumeCapabilities drv caps))))"

definition ControllerGetCapabilities :: "driver \<Rightarrow> ('s, controller_rpc list) prog" where
  "ControllerGetCapabilities drv = retP (drv_cscap drv)"

definition ControllerPublishVolume :: "('s, unit) prog" where
  "ControllerPublishVolume = failP (StatusErr Unimplemented ''ControllerPublishVolume unsupported'')"

definition ControllerUnpublishVolume :: "('s, unit) prog" where
  "ControllerUnpublishVolume = failP (StatusErr Unimplemented ''ControllerUnpublishVolume unsupported'')"

definition ListVolumes :: "('s, unit) prog" where
  "ListVolumes = failP (StatusErr Unimplemented '''')"

definition GetCapacity :: "('s, unit) prog" where
  "GetCapacity = failP (StatusErr Unimplemented '''')"

definition ControllerExpandVolume :: "('s, unit) prog" where
  "ControllerExpandVolume = failP (StatusErr Unimplemented ''ControllerExpandVolume unsupported'')"

definition ControllerGetVolume :: "('s, unit) prog" where
  "ControllerGetVolume = failP (StatusErr Unimplemented ''ControllerGetVolume unsupported'')"

end
