(* ===== verification/ControllerFacts.thy ===== *)
theory ControllerFacts
  imports Controller
begin

text \<open>
  What the controller's handlers guarantee: which outside calls they can make, what they leave
  in the in-memory holders, and what a result or an error tells about the cloud.
\<close>

section \<open>Programs that only talk to the outside\<close>

lemma keeps_errorf_pre: "keeps (extends C) m \<Longrightarrow> keeps (extends C) (errorf_pre pre m)"
  by (simp add: errorf_pre_def ext.keeps_wrap)

lemma keeps_getNasInstanceCapacityBytes: "keeps (extends C) (getNasInstanceCapacityBytes n)"
  by (auto simp: getNasInstanceCapacityBytes_def intro!: world_intros split: prod.split option.split)

lemma keeps_place_loop:
  assumes "\<And>c. reading c \<Longrightarrow> C c"
  shows "keeps (extends C) (place_loop E pre cap sn is)"
  using assms
  by (induction "is" arbitrary: sn)
    (auto simp: Let_def intro!: world_intros keeps_errorf_pre keeps_shared keeps_cloud
      keeps_getNasInstanceCapacityBytes)

lemma keeps_wait:
  assumes "retry_contract E" and "\<And>c. reading c \<Longrightarrow> C c"
  shows "keeps (extends C) (waitForNASInstanceAvailable E name)"
  using assms
  by (auto simp: waitForNASInstanceAvailable_def chkNasInstanceAvailable_def Let_def
      intro!: world_intros keeps_cloud split: sum.split)

lemma keeps_private_addresses: "keeps (extends C) (private_addresses ns)"
  by (induction ns) (auto intro!: world_intros)

lemma keeps_reserved_ips:
  assumes "\<And>c. reading c \<Longrightarrow> C c"
  shows "keeps (extends C) (getCloudInstancesReservedIPs E)"
  using assms
  by (auto simp: getCloudInstancesReservedIPs_def intro!: world_intros keeps_statusP keeps_cloud
      keeps_private_addresses)

text \<open>The calls of \<open>CreateVolume\<close> once the instance exists.\<close>

definition finish_call :: "call \<Rightarrow> bool" where
  "finish_call c \<longleftrightarrow> snapshot_call c \<or> (\<exists>name. c = ModifyNASInstance name (Some ''true'') [])"

lemma job_snapshot_call: "job_call c \<Longrightarrow> snapshot_call c"
  using restic_call_job by (auto simp: snapshot_call_def)

lemma keeps_ready_instance:
  assumes "retry_contract E" and "\<And>c. finish_call c \<Longrightarrow> C c"
  shows "keeps (extends C) (ready_instance E name n)"
  using assms
  by (auto simp: ready_instance_def finish_call_def snapshot_call_def
      intro!: world_intros keeps_statusP keeps_cloud keeps_wait)

lemma keeps_prepare_path:
  assumes "retry_contract E" and "\<And>c. finish_call c \<Longrightarrow> C c"
  shows "keeps (extends C) (prepare_path E req perm n)"
  using assms job_snapshot_call
  by (auto simp: prepare_path_def finish_call_def
      intro!: world_intros keeps_statusP keeps_source_path)

lemma keeps_nasInstanceToCSIVolume: "keeps (extends C) (nasInstanceToCSIVolume cfg n req)"
  by (auto simp: nasInstanceToCSIVolume_def Let_def intro!: world_intros keeps_cloud
      keeps_getNasInstanceCapacityBytes)

lemma keeps_finish_volume:
  assumes "retry_contract E" and "\<And>c. finish_call c \<Longrightarrow> C c"
  shows "keeps (extends C) (finish_volume E J cfg req name sid perm n)"
  using assms
  by (auto simp: finish_volume_def finish_call_def intro!: world_intros keeps_statusP keeps_ready_instance
      keeps_prepare_path keeps_nasInstanceToCSIVolume keeps_restoreSnapshot)

lemma keeps_source_snapshot: "keeps (extends C) (source_snapshot req)"
  by (auto simp: source_snapshot_def intro!: world_intros split: option.split content_source.split)

lemma keeps_compare: "keeps (extends C) (compareNasInstanceWithInput ptr n i)"
proof -
  have "keeps (extends C) (sg_loop gs is)" for gs and "is" :: "string list"
    by (induction gs arbitrary: "is") (auto intro!: world_intros split: list.split)
  then show ?thesis
    by (auto simp: compareNasInstanceWithInput_def Let_def intro!: world_intros)
qed

section \<open>Programs on the holders\<close>

lemma zoom_run:
  "on_ips m s = (case m (ipAllocator s) of (r, x) \<Rightarrow> (r, s\<lparr>ipAllocator := x\<rparr>))"
  "on_names n s = (case n (nasNameHolder s) of (r, y) \<Rightarrow> (r, s\<lparr>nasNameHolder := y\<rparr>))"
  "on_creating k s = (case k (creatingPvsQueue s) of (r, z) \<Rightarrow> (r, s\<lparr>creatingPvsQueue := z\<rparr>))"
  "on_deleting l s = (case l (deletingPvsQueue s) of (r, z) \<Rightarrow> (r, s\<lparr>deletingPvsQueue := z\<rparr>))"
  by (simp_all add: on_ips_def on_names_def on_creating_def on_deleting_def zoomP_def)

lemma keeps_calls_on:
  "keeps (calls C) (on_ips m)" "keeps (calls C) (on_names n)"
  "keeps (calls C) (on_creating k)" "keeps (calls C) (on_deleting l)"
  by (auto intro!: keepsI simp: zoom_run calls_def split: prod.splits)

section \<open>Only reading before the instance is created\<close>

lemma keeps_calls_errorf_pre: "keeps (calls C) m \<Longrightarrow> keeps (calls C) (errorf_pre pre m)"
  by (simp add: errorf_pre_def call.keeps_wrap)

lemma keeps_choose_shared:
  assumes "\<And>c. reading c \<Longrightarrow> C c"
  shows "keeps (extends C) (choose_shared E cfg req)"
  using assms
  by (auto simp: choose_shared_def Let_def
      intro!: world_intros keeps_errorf_pre keeps_shared keeps_place_loop split: prod.split option.split)

lemma reads_convertSharedRequest: "keeps (calls reading) (convertSharedRequest E drv name req)"
  by (auto simp: convertSharedRequest_def
      intro!: call.keeps_bind call.keeps_ret keeps_calls_on keeps_calls_errorf_pre
        keeps_extends_calls [OF keeps_choose_shared])

lemma reads_reserveIP: "keeps (calls reading) (reserveIP E cidr)"
  by (auto simp: reserveIP_def intro!: call.keeps_rules keeps_calls_on
      keeps_extends_calls [OF keeps_reserved_ips])

lemma reads_statusP: "keeps (calls C) m \<Longrightarrow> keeps (calls C) (statusP c pre m)"
  by (simp add: statusP_def call.keeps_wrap)

section \<open>What a run of CreateVolume does outside\<close>

definition is_create :: "call \<Rightarrow> bool" where
  "is_create c \<longleftrightarrow> (\<exists>i. c = CreateNASInstance i)"

definition fails_internally :: "gerror \<Rightarrow> bool" where
  "fails_internally e \<longleftrightarrow> (\<exists>m. e = StatusErr Internal m)"

text \<open>
  \<open>volume_run r h\<close>: the calls \<open>h\<close> are reads, jobs and the setting of NoRootSquash, with at most
  one creation, and if the outcome \<open>r\<close> is an error other than \<open>Internal\<close> they are all reads.
\<close>

definition volume_run :: "'a outcome \<Rightarrow> history \<Rightarrow> bool" where
  "volume_run r h \<longleftrightarrow>
     list_all (\<lambda>c. finish_call c \<or> is_create c) h \<and> length (filter is_create h) \<le> 1 \<and>
     (\<forall>e. r = Fail e \<and> \<not> fails_internally e \<longrightarrow> list_all reading h)"

definition runs :: "('z world_scheme, 'a) prog \<Rightarrow> bool" where
  "runs m \<longleftrightarrow> (\<forall>s r t. m s = (r, t) \<longrightarrow> (\<exists>h. trace t = trace s @ h \<and> volume_run r h))"

definition internal :: "('s, 'a) prog \<Rightarrow> bool" where
  "internal m \<longleftrightarrow> (\<forall>s e t. m s = (Fail e, t) \<longrightarrow> fails_internally e)"

lemma finish_not_create: "finish_call c \<Longrightarrow> \<not> is_create c"
  by (auto simp: finish_call_def snapshot_call_def is_create_def)

lemma reading_finish: "reading c \<Longrightarrow> finish_call c"
  by (simp add: finish_call_def snapshot_call_def)

lemma reads_volume_run: "list_all reading h \<Longrightarrow> volume_run r h"
  using finish_not_create reading_finish
  by (auto simp: volume_run_def list_all_iff filter_empty_conv)

lemma finish_count: "list_all finish_call h \<Longrightarrow> filter is_create h = []"
  using finish_not_create by (auto simp: list_all_iff filter_empty_conv)

lemma reads_then_volume_run: "list_all reading h \<Longrightarrow> volume_run r k \<Longrightarrow> volume_run r (h @ k)"
proof -
  assume h: "list_all reading h" and k: "volume_run r k"
  then have "list_all finish_call h" by (simp add: list_all_iff reading_finish)
  then show ?thesis using h k by (auto simp: volume_run_def finish_count list_all_iff)
qed

lemma runsI: "(\<And>s r t. m s = (r, t) \<Longrightarrow> \<exists>h. trace t = trace s @ h \<and> volume_run r h) \<Longrightarrow> runs m"
  by (simp add: runs_def)

lemma runs_reads: "keeps (calls reading) m \<Longrightarrow> runs m"
  by (rule runsI) (metis calls_def keepsD reads_volume_run)

lemma runs_tail:
  assumes "keeps (calls finish_call) m" and "internal m"
  shows "runs m"
proof (rule runsI)
  fix s r t
  assume run: "m s = (r, t)"
  with assms(1) obtain h where "trace t = trace s @ h" "list_all finish_call h"
    unfolding calls_def keeps_def by (metis snd_conv)
  moreover have "r = Fail e \<Longrightarrow> fails_internally e" for e
    using assms(2) run unfolding internal_def by blast
  ultimately show "\<exists>h. trace t = trace s @ h \<and> volume_run r h"
    by (intro exI [of _ h]) (auto simp: volume_run_def finish_count list_all_iff)
qed

lemma runs_bind:
  assumes m: "keeps (calls reading) m" and f: "\<And>a. runs (f a)"
  shows "runs (bindP m f)"
  unfolding runs_def
proof (intro allI impI)
  fix s r t
  assume run: "bindP m f s = (r, t)"
  obtain o1 u where u: "m s = (o1, u)" by (cases "m s")
  then obtain h where h: "trace u = trace s @ h" "list_all reading h"
    using m by (auto simp: calls_def dest!: keepsD)
  show "\<exists>h. trace t = trace s @ h \<and> volume_run r h"
  proof (cases o1)
    case (Ret a)
    then have "f a u = (r, t)" using run u by (simp add: bindP_def)
    then obtain k where "trace t = trace u @ k" "volume_run r k"
      using f unfolding runs_def by blast
    then show ?thesis using h reads_then_volume_run [OF h(2)] by auto
  qed (use run u h reads_volume_run in \<open>auto simp: bindP_def\<close>)
qed

lemma volume_run_stop: "volume_run r h \<Longrightarrow> volume_run (Panic p) h" "volume_run r h \<Longrightarrow> volume_run Blocked h"
  by (simp_all add: volume_run_def)

lemma runs_defer:
  assumes m: "runs m" and d: "\<And>r s. trace (snd (d r s)) = trace s"
  shows "runs (deferP d m)"
  unfolding runs_def
proof (intro allI impI)
  fix s r t
  assume run: "deferP d m s = (r, t)"
  obtain o1 u where u: "m s = (o1, u)" by (cases "m s")
  then obtain h where h: "trace u = trace s @ h" "volume_run o1 h"
    using m unfolding runs_def by blast
  obtain o2 v where v: "d o1 u = (o2, v)" by (cases "d o1 u")
  then have tv: "trace v = trace u" using d [of o1 u] by simp
  show "\<exists>h. trace t = trace s @ h \<and> volume_run r h"
    using run u v tv h volume_run_stop
    by (auto simp: deferP_def split: outcome.splits)
qed

lemma internal_intros:
  "internal (retP a)" "internal (statusP Internal pre m)" "internal (derefP p)"
  "internal (failP (StatusErr Internal msg))"
  by (auto simp: internal_def retP_def statusP_def wrapP_def derefP_def failP_def fails_internally_def
      split: prod.splits outcome.splits option.splits)

lemma internal_bind: "internal m \<Longrightarrow> (\<And>a. internal (f a)) \<Longrightarrow> internal (bindP m f)"
  by (auto simp: internal_def bindP_def split: prod.splits outcome.splits)

lemma internal_getNasInstanceCapacityBytes: "internal (getNasInstanceCapacityBytes n)"
  by (auto simp: getNasInstanceCapacityBytes_def intro!: internal_intros internal_bind
      split: prod.split option.split)

lemma internal_finish_volume: "internal (finish_volume E J cfg req name sid perm n)"
  by (auto simp: finish_volume_def ready_instance_def prepare_path_def nasInstanceToCSIVolume_def
      GenerateVolumeIDFromNasInstance_def Let_def
      intro!: internal_intros internal_bind internal_getNasInstanceCapacityBytes)

lemma runs_create_instance:
  assumes "\<And>n. keeps (calls finish_call) (rest n)" and "\<And>n. internal (rest n)"
  shows "runs (create_instance E i rest)"
proof -
  have tail: "keeps (calls finish_call) (bindP (derefP n) rest)" "internal (bindP (derefP n) rest)" for n
    using assms by (auto intro!: call.keeps_rules internal_intros internal_bind)
  show ?thesis
    unfolding runs_def
  proof (intro allI impI)
    fix s r t
    assume run: "create_instance E i rest s = (r, t)"
    let ?c = "CreateNASInstance i"
    show "\<exists>h. trace t = trace s @ h \<and> volume_run r h"
    proof (cases "createNas E (trace s) i")
      case (Inl e)
      then have "r = Fail (StatusErr Internal (errText e))" "trace t = trace s @ [?c]"
        using run by (auto simp: create_instance_def CreateNasInstance_def statusP_def bindP_def
            wrapP_def api_def)
      then show ?thesis
        by (intro exI [of _ "[?c]"]) (simp add: volume_run_def is_create_def fails_internally_def)
    next
      case (Inr n)
      define u where "u = s\<lparr>trace := trace s @ [?c]\<rparr>"
      have run': "bindP (derefP n) rest u = (r, t)"
        using run Inr by (simp add: create_instance_def CreateNasInstance_def statusP_def wrapP_def
            bindP_def [of "\<lambda>s. _ s"] api_def u_def)
      then obtain k where k: "trace t = trace u @ k" "list_all finish_call k"
        using tail(1) unfolding calls_def keeps_def by (metis snd_conv)
      have "r = Fail e \<Longrightarrow> fails_internally e" for e
        using tail(2) run' by (auto simp: internal_def)
      then show ?thesis
        using k by (intro exI [of _ "?c # k"])
          (auto simp: volume_run_def u_def is_create_def finish_count list_all_iff)
    qed
  qed
qed

lemma trace_on:
  "trace (snd (on_ips m s)) = trace s" "trace (snd (on_names n s)) = trace s"
  "trace (snd (on_creating k s)) = trace s" "trace (snd (on_deleting l s)) = trace s"
  by (simp_all add: zoom_run split: prod.split)

lemma trace_on_error: "trace (snd (on_error (on_creating k) r s)) = trace s"
  "trace (snd (on_error (on_deleting k) r s)) = trace s"
  by (simp_all add: on_error_def trace_on retP_def split: outcome.split)

lemma runs_new_instance:
  assumes "\<And>n. keeps (calls finish_call) (rest n)" and "\<And>n. internal (rest n)"
  shows "runs (new_instance E req i annotated rest)"
  using runs_create_instance [OF assms]
  by (auto simp: new_instance_def Let_def
      intro!: runs_bind runs_reads [OF call.keeps_fail] runs_defer call.keeps_try reads_reserveIP trace_on
      split: sum.split)

lemma runs_with_instance:
  assumes "\<And>n. keeps (calls finish_call) (rest n)" and "\<And>n. internal (rest n)"
  shows "runs (with_instance E req i name annotated rest)"
proof -
  have "runs (bindP (statusP AlreadyExists '''' (compareNasInstanceWithInput (ptr_text E) n i)) (\<lambda>_. rest n))" for n
    by (rule runs_bind [OF reads_statusP [OF keeps_extends_calls [OF keeps_compare]]],
        rule runs_tail [OF assms])
  then show ?thesis
    using runs_new_instance [OF assms]
    by (auto simp: with_instance_def
        intro!: runs_bind [OF call.keeps_try] keeps_extends_calls keeps_cloud runs_reads [OF call.keeps_fail]
        split: sum.split)
qed

lemma runs_create_named:
  assumes "retry_contract E"
  shows "runs (create_named E J cfg req name cap)"
proof -
  have rest: "keeps (calls finish_call) (finish_volume E J cfg req name sid perm n)" for sid perm n
    by (rule keeps_extends_calls, rule keeps_finish_volume [OF assms])
  show ?thesis
    unfolding create_named_def Let_def
    by (intro runs_bind reads_statusP keeps_extends_calls ext.keeps_lift keeps_shared
        keeps_source_snapshot keeps_getAnnotationsFromPVC)
      (auto intro!: runs_with_instance rest internal_finish_volume split: prod.split)
qed

lemma runs_CreateVolume:
  assumes "retry_contract E"
  shows "runs (CreateVolume E J drv req)"
  unfolding CreateVolume_def
  by (auto intro!: runs_bind runs_defer reads_statusP call.keeps_rules keeps_calls_on
      reads_convertSharedRequest runs_create_named [OF assms] runs_reads [OF call.keeps_fail]
      trace_on trace_on_error split: prod.split)

section \<open>What a run leaves in the holders\<close>

definition held_within :: "sys \<Rightarrow> sys \<Rightarrow> bool" where
  "held_within s t \<longleftrightarrow> nasNameHolder t = nasNameHolder s \<and> creatingPvsQueue t = creatingPvsQueue s \<and>
     deletingPvsQueue t = deletingPvsQueue s \<and>
     pendingIPs (ipAllocator t) \<subseteq> pendingIPs (ipAllocator s)"

interpretation held: step_contract held_within
  by unfold_locales (auto simp: held_within_def)

lemma extends_fields:
  assumes "extends C s t"
  shows "ipAllocator t = ipAllocator s" "nasNameHolder t = nasNameHolder s"
    "creatingPvsQueue t = creatingPvsQueue s" "deletingPvsQueue t = deletingPvsQueue s"
  using assms by (auto simp: extends_def)

lemma held_extends: "keeps (extends C) m \<Longrightarrow> keeps held_within m" for m :: "(sys, 'a) prog"
proof (rule keepsI)
  fix s r t
  assume "keeps (extends C) m" "m s = (r, t)"
  then have "extends C s t" by (rule keepsD)
  then show "held_within s t" by (simp add: held_within_def extends_fields)
qed

lemma GetUnreservedIP_pending:
  assumes "GetUnreservedIP cidr cloud a = (r, b)"
  shows "pendingIPs b = (case r of Ret ip \<Rightarrow> insert ip (pendingIPs a) | _ \<Rightarrow> pendingIPs a)"
  using assms
  by (auto simp: GetUnreservedIP_def holdIP_def Let_def
      split: sum.splits prod.splits outcome.splits option.splits)

lemma reserveIP_run:
  assumes "reserveIP E cidr s = (r, t)"
  shows "nasNameHolder t = nasNameHolder s \<and> creatingPvsQueue t = creatingPvsQueue s \<and>
    deletingPvsQueue t = deletingPvsQueue s \<and>
    pendingIPs (ipAllocator t) =
      (case r of Ret ip \<Rightarrow> insert ip (pendingIPs (ipAllocator s)) | _ \<Rightarrow> pendingIPs (ipAllocator s))"
proof -
  obtain o1 u where u: "getCloudInstancesReservedIPs E s = (o1, u)"
    by (cases "getCloudInstancesReservedIPs E s")
  have "extends (\<lambda>_. True) s u"
    using keepsD [OF keeps_reserved_ips u] by simp
  note same = extends_fields [OF this]
  show ?thesis
  proof (cases o1)
    case (Ret ips)
    obtain o2 a where a: "GetUnreservedIP cidr ips (ipAllocator u) = (o2, a)"
      by (cases "GetUnreservedIP cidr ips (ipAllocator u)")
    have "r = o2 \<and> t = u\<lparr>ipAllocator := a\<rparr>"
      using assms u Ret a by (simp add: reserveIP_def bindP_def zoom_run)
    then show ?thesis
      using same GetUnreservedIP_pending [OF a] by (simp only:) simp
  qed (use assms u same in \<open>auto simp: reserveIP_def bindP_def\<close>)
qed

lemma held_create_instance:
  assumes "\<And>n. keeps held_within (rest n)"
  shows "keeps held_within (create_instance E i rest)"
  using assms
  by (auto simp: create_instance_def intro!: held.keeps_rules
      held_extends [OF keeps_statusP [OF keeps_cloud(3) [where C = "\<lambda>c. True"]]])

text \<open>
  The address reserved inside is released at the end, so the pending addresses do not grow.
\<close>

definition returns_held :: "(sys, 'a) prog \<Rightarrow> bool" where
  "returns_held m \<longleftrightarrow> (\<forall>s r t. m s = (r, t) \<and> r \<noteq> Blocked \<longrightarrow> held_within s t)"

lemma returns_held_keeps: "keeps held_within m \<Longrightarrow> returns_held m"
  by (metis keepsD returns_held_def)

lemma returns_held_bind:
  assumes "keeps held_within m" and "\<And>a. returns_held (f a)"
  shows "returns_held (bindP m f)"
  unfolding returns_held_def
proof (intro allI impI, elim conjE)
  fix s r t
  assume run: "bindP m f s = (r, t)" "r \<noteq> Blocked"
  obtain o1 u where u: "m s = (o1, u)" by (cases "m s")
  with assms(1) have su: "held_within s u" by (rule keepsD)
  show "held_within s t"
  proof (cases o1)
    case (Ret a)
    then have "held_within u t"
      using assms(2) run u unfolding returns_held_def by (simp add: bindP_def)
    with su show ?thesis by (rule held.R_trans)
  qed (use run u su in \<open>auto simp: bindP_def\<close>)
qed

lemma held_new_instance:
  assumes "\<And>n. keeps held_within (rest n)"
  shows "returns_held (new_instance E req i annotated rest)"
  unfolding returns_held_def
proof (intro allI impI, elim conjE)
  fix s r t
  assume run: "new_instance E req i annotated rest s = (r, t)" and nb: "r \<noteq> Blocked"
  define cidr where "cidr = (if annotated = '''' then param (req_Params req) ''reservedIpv4Cidr'' else annotated)"
  note create = keepsD [OF held_create_instance [OF assms]]
  show "held_within s t"
  proof (cases "in_NetworkId i = None \<or> cidr = ''''")
    case True
    then show ?thesis
      using run create held.R_refl
      by (auto simp: new_instance_def cidr_def [symmetric] Let_def failP_def split: if_splits)
  next
    case False
    then have body: "bindP (tryP (reserveIP E cidr)) (\<lambda>r. case r of
          Inl e \<Rightarrow> deferP (\<lambda>_. on_ips (ReleaseIP '''')) (failP e)
        | Inr ip \<Rightarrow> deferP (\<lambda>_. on_ips (ReleaseIP ip))
            (create_instance E (i\<lparr>in_MasterPrivateAddress := Some (ip @ ''/24'')\<rparr>) rest)) s = (r, t)"
      using run by (simp add: new_instance_def cidr_def Let_def)
    obtain ro u where u: "reserveIP E cidr s = (ro, u)" by (cases "reserveIP E cidr s")
    have grow: "nasNameHolder u = nasNameHolder s" "creatingPvsQueue u = creatingPvsQueue s"
      "deletingPvsQueue u = deletingPvsQueue s"
      "pendingIPs (ipAllocator u) \<subseteq> (case ro of Ret ip \<Rightarrow> insert ip (pendingIPs (ipAllocator s))
         | _ \<Rightarrow> pendingIPs (ipAllocator s))"
      using reserveIP_run [OF u] by simp_all
    show ?thesis
    proof (cases ro)
      case (Ret ip)
      let ?m = "create_instance E (i\<lparr>in_MasterPrivateAddress := Some (ip @ ''/24'')\<rparr>) rest"
      obtain o2 v where v: "?m u = (o2, v)" by (cases "?m u")
      then have "held_within u v" by (rule create)
      moreover have "deferP (\<lambda>_. on_ips (ReleaseIP ip)) ?m u = (r, t)"
        using body u Ret by (simp add: bindP_def tryP_def)
      moreover from this v nb have "t = v\<lparr>ipAllocator :=
          ipAllocator v\<lparr>pendingIPs := pendingIPs (ipAllocator v) - {ip}\<rparr>\<rparr>"
        by (cases o2) (auto simp: deferP_def zoom_run ReleaseIP_def)
      ultimately show ?thesis
        using grow Ret by (auto simp: held_within_def)
    next
      case (Fail e)
      then show ?thesis
        using body u grow
        by (auto simp: bindP_def tryP_def deferP_def failP_def zoom_run ReleaseIP_def held_within_def)
    qed (use body u grow in \<open>auto simp: bindP_def tryP_def held_within_def\<close>)
  qed
qed

lemma held_with_instance:
  assumes "\<And>n. keeps held_within (rest n)"
  shows "returns_held (with_instance E req i name annotated rest)"
  using held_new_instance [OF assms] assms
  by (auto simp: with_instance_def
      intro!: returns_held_bind held.keeps_try returns_held_keeps [OF held.keeps_fail]
        held_extends [OF keeps_cloud(1) [where C = "\<lambda>c. True"]]
        held_extends [OF keeps_statusP [OF keeps_compare [where C = "\<lambda>c. True"]]]
        returns_held_keeps [OF assms]
      split: sum.split)

lemma held_create_named:
  assumes "retry_contract E"
  shows "returns_held (create_named E J cfg req name cap)"
proof -
  have rest: "keeps held_within (finish_volume E J cfg req name sid perm n)" for sid perm n
    by (rule held_extends [where C = "\<lambda>c. True"], rule keeps_finish_volume [OF assms]) simp
  have reads: "keeps held_within (statusP c pre m)" if "keeps (extends (\<lambda>c. True)) m"
    for c pre and m :: "(sys, 'b) prog"
    by (rule held_extends, rule keeps_statusP, rule that)
  show ?thesis
    unfolding create_named_def Let_def
    by (intro returns_held_bind reads held_extends [OF keeps_source_snapshot [where C = "\<lambda>c. True"]]
        ext.keeps_lift keeps_shared keeps_getAnnotationsFromPVC TrueI)
      (auto intro!: held_with_instance rest split: prod.split)
qed

lemma convertSharedRequest_run:
  assumes "convertSharedRequest E drv name req s = (r, t)"
  shows "nasNameHolder t = nasNameHolder s \<and> ipAllocator t = ipAllocator s \<and>
    deletingPvsQueue t = deletingPvsQueue s \<and>
    (if param (req_Params req) ''shared'' = ''true'' then
       creatingPvsQueue t = snd (Queue name (creatingPvsQueue s)) \<and>
       (\<forall>a. r = Ret a \<longrightarrow> fst (Queue name (creatingPvsQueue s)) = Ret ())
     else creatingPvsQueue t = creatingPvsQueue s)"
proof (cases "param (req_Params req) ''shared'' = ''true''")
  case False
  then show ?thesis using assms by (simp add: convertSharedRequest_def retP_def)
next
  case True
  obtain o1 q where q: "Queue name (creatingPvsQueue s) = (o1, q)"
    by (cases "Queue name (creatingPvsQueue s)")
  define u where "u = s\<lparr>creatingPvsQueue := q\<rparr>"
  have run: "bindP (errorf_pre ''Error creating queue: '' (on_creating (Queue name)))
      (\<lambda>_. choose_shared E (drv_config drv) req) s = (r, t)"
    using assms True by (simp add: convertSharedRequest_def)
  show ?thesis
  proof (cases "o1 = Ret ()")
    case ret: True
    then have "choose_shared E (drv_config drv) req u = (r, t)"
      using run q by (simp add: bindP_def errorf_pre_def wrapP_def zoom_run u_def)
    then have "extends (\<lambda>c. True) u t" by (rule keepsD [OF keeps_choose_shared, rotated]) simp
    then show ?thesis using True q ret by (simp add: extends_fields u_def)
  next
    case False
    then have "t = u \<and> (\<forall>a. r \<noteq> Ret a)"
      using run q
      by (cases o1) (auto simp: bindP_def errorf_pre_def wrapP_def zoom_run u_def)
    then show ?thesis using True q by (simp add: u_def)
  qed
qed

text \<open>The body of \<open>CreateVolume\<close> under its first deferred function.\<close>

definition create_body :: "cenv \<Rightarrow> codec \<Rightarrow> driver \<Rightarrow> CreateVolumeRequest \<Rightarrow> (sys, Volume) prog" where
  "create_body E J drv req =
     bindP (statusP InvalidArgument '''' (convertSharedRequest E drv (req_Name req) req))
       (\<lambda>(name, capBytes).
     bindP (statusP Internal '''' (on_names (SetCreating name))) (\<lambda>_.
     deferP (\<lambda>_. on_names (UnsetCreating name))
       (create_named E J (drv_config drv) req name capBytes)))"

lemma create_body_run:
  assumes "retry_contract E" and "create_body E J drv req s = (r, t)" and "r \<noteq> Blocked"
  shows "nasNameHolder t = nasNameHolder s \<and>
    pendingIPs (ipAllocator t) \<subseteq> pendingIPs (ipAllocator s) \<and>
    deletingPvsQueue t = deletingPvsQueue s \<and>
    (if param (req_Params req) ''shared'' = ''true'' then
       creatingPvsQueue t = snd (Queue (req_Name req) (creatingPvsQueue s)) \<and>
       (\<forall>a. r = Ret a \<longrightarrow> fst (Queue (req_Name req) (creatingPvsQueue s)) = Ret ())
     else creatingPvsQueue t = creatingPvsQueue s)"
proof -
  obtain o1 u where u: "convertSharedRequest E drv (req_Name req) req s = (o1, u)"
    by (cases "convertSharedRequest E drv (req_Name req) req s")
  note conv = convertSharedRequest_run [OF u]
  show ?thesis
  proof (cases o1)
    case (Ret nc)
    obtain name cap where nc: "nc = (name, cap)" by (cases nc)
    have run: "bindP (statusP Internal '''' (on_names (SetCreating name))) (\<lambda>_.
        deferP (\<lambda>_. on_names (UnsetCreating name))
          (create_named E J (drv_config drv) req name cap)) u = (r, t)"
      using assms(2) u Ret nc by (simp add: create_body_def bindP_def statusP_def wrapP_def)
    show ?thesis
    proof (cases "name \<in> creatingInstanceNames (nasNameHolder u)")
      case True
      then have "t = u \<and> (\<forall>a. r \<noteq> Ret a)"
        using run by (auto simp: bindP_def statusP_def wrapP_def zoom_run SetCreating_def)
      then show ?thesis using conv by auto
    next
      case False
      define v where "v = u\<lparr>nasNameHolder := nasNameHolder u
        \<lparr>creatingInstanceNames := insert name (creatingInstanceNames (nasNameHolder u))\<rparr>\<rparr>"
      have inner: "deferP (\<lambda>_. on_names (UnsetCreating name))
          (create_named E J (drv_config drv) req name cap) v = (r, t)"
        using run False
        by (simp add: bindP_def statusP_def wrapP_def zoom_run SetCreating_def v_def)
      obtain o2 w where w: "create_named E J (drv_config drv) req name cap v = (o2, w)"
        by (cases "create_named E J (drv_config drv) req name cap v")
      have o2: "r = o2 \<and> t = w\<lparr>nasNameHolder := nasNameHolder w
          \<lparr>creatingInstanceNames := creatingInstanceNames (nasNameHolder w) - {name}\<rparr>\<rparr>"
        using inner w assms(3) by (cases o2) (auto simp: deferP_def zoom_run UnsetCreating_def)
      have "held_within v w"
        using held_create_named [OF assms(1)] w o2 assms(3) unfolding returns_held_def by blast
      then have hw: "nasNameHolder w = nasNameHolder v" "creatingPvsQueue w = creatingPvsQueue u"
        "deletingPvsQueue w = deletingPvsQueue u"
        "pendingIPs (ipAllocator w) \<subseteq> pendingIPs (ipAllocator u)"
        by (simp_all add: held_within_def v_def)
      have "nasNameHolder t = nasNameHolder u"
        using o2 hw(1) False by (simp add: v_def)
      then show ?thesis using conv o2 hw Ret by (auto split: if_splits)
    qed
  qed (use assms(2) u conv in \<open>auto simp: create_body_def bindP_def statusP_def wrapP_def\<close>)
qed

lemma statusP_ok: "statusP c pre (liftP (Inr a)) = retP a"
  by (simp add: fun_eq_iff statusP_def wrapP_def liftP_def retP_def)

lemma CreateVolume_body:
  "req_Name req \<noteq> '''' \<Longrightarrow> validateVolumeCapabilities drv (req_Caps req) = Inr () \<Longrightarrow>
    CreateVolume E J drv req =
      deferP (on_error (on_creating (UnsetQueue (req_Name req)))) (create_body E J drv req)"
  by (simp add: CreateVolume_def create_body_def statusP_ok)

lemma validate_Inr:
  "\<not> (a \<or> (\<exists>e. validateVolumeCapabilities drv caps = Inl e)) \<Longrightarrow> \<not> a \<and> validateVolumeCapabilities drv caps = Inr ()"
  by (cases "validateVolumeCapabilities drv caps") auto

end
