(* ===== verification/ControllerProps.thy ===== *)
theory ControllerProps
  imports ControllerFacts
begin

text \<open>
  The guarantees of the controller's handlers, each with a concrete run at which it applies.
\<close>

section \<open>A concrete run\<close>

definition example_env :: "'z env" where
  "example_env = quiet_env\<lparr>
     describeNas := \<lambda>h n. Inr [example_instance],
     listPVCs := \<lambda>h. Inr [\<lparr>pvc_name = ''claim'', pvc_namespace = ''default'', pvc_uid = ''1'',
       pvc_annotations = []\<rparr>]\<rparr>"

definition example_request :: CreateVolumeRequest where
  "example_request = \<lparr>req_Name = ''pvc-1'',
     req_Caps = [Some \<lparr>vc_mode = Some MULTI_NODE_MULTI_WRITER, vc_type = Some (MountType (Some ('''', [])))\<rparr>],
     req_Params = [(''networkId'', ''net-1'')], req_CapRange = None, req_Source = None\<rparr>"

lemma example_env_simps [simp]:
  "describeNas example_env h n = Inr [example_instance]"
  "listPVCs example_env h = Inr [\<lparr>pvc_name = ''claim'', pvc_namespace = ''default'', pvc_uid = ''1'',
       pvc_annotations = []\<rparr>]"
  "retry example_env = retry_n 2" "ptr_text example_env = ''0xc000010250''"
  by (simp_all add: example_env_def)

lemma retry_contract_example: "retry_contract example_env"
  by (rule retry_contract_quiet) simp

text \<open>What the concrete runs share.\<close>

lemma example_group: "getSecurityGroupName E example_config s = (Ret ''cluster-uid-1'', s)"
  by (simp add: getSecurityGroupName_def getClusterUID_def example_config_def bindP_def wrapP_def retP_def)

lemma example_allocated:
  "getAllocatedStorage minVolumeSize 0 = 100" "getAllocatedStorage 107374182400 0 = 100"
  by (simp_all add: getAllocatedStorage_def minVolumeSize_def Gb_def GbToBytes_def i64_def upt_rec)

lemma example_request_facts:
  "validateVolumeCapabilities example_driver (req_Caps example_request) = Inr ()"
  "drv_config example_driver = example_config" "req_Name example_request = ''pvc-1''"
  using validateVolumeCapabilities_iff [OF example_driver_new]
  by (simp_all add: example_request_def example_driver_def good_capability_def)

lemma example_no_source: "source_snapshot (example_request\<lparr>req_Params := ps\<rparr>) s = (Ret '''', s)"
  by (simp add: source_snapshot_def example_request_def retP_def)

text \<open>One claim, without annotations.\<close>

lemma one_claim_annotations:
  assumes "\<And>h. listPVCs E h = Inr [\<lparr>pvc_name = ''claim'', pvc_namespace = ''default'', pvc_uid = ''1'',
      pvc_annotations = []\<rparr>]"
  shows "getAnnotationsFromPVC E example_config ''pvc-1'' s = (Ret ('''', ''''), s\<lparr>trace := trace s @ [ListPVCs]\<rparr>)"
  by (simp add: getAnnotationsFromPVC_def claim_annotations_def assms bindP_def wrapP_def retP_def run_api
      eval_nat_numeral)

lemma example_input_run:
  "GenerateNasInstanceInput ''pvc-1'' minVolumeSize [(''networkId'', ''net-1'')] =
    Inr (example_input\<lparr>in_SecurityGroups := []\<rparr>)"
  by (simp add: GenerateNasInstanceInput_def read_params_step good_entry_def set_param_def example_allocated
      default_params_def example_input_def eval_simps)

lemma example_convert:
  "convertSharedRequest E drv (req_Name example_request) example_request s = (Ret (''pvc-1'', minVolumeSize), s)"
  by (simp add: convertSharedRequest_def example_request_def param_def pstr_def getRequestCapacity_def retP_def)

lemma example_finish:
  "finish_volume example_env J example_config example_request ''pvc-1'' '''' '''' example_instance s =
    (Ret \<lparr>vol_VolumeId = ''jp-east-1/pvc-1'', vol_CapacityBytes = 107374182400,
      vol_ip = ''192.168.9.2'', vol_path = '''', vol_ContentSource = None\<rparr>, s)"
  by (simp add: finish_volume_def ready_instance_def prepare_path_def nasInstanceToCSIVolume_def
      GenerateVolumeIDFromNasInstance_def getNasInstanceCapacityBytes_def getNasInstancePrivateIP_def
      example_instance_def example_request_def example_config_def param_def pstr_def
      bindP_def derefP_def retP_def ParseInt_100 GbToBytes_small)

definition example_volume :: Volume where
  "example_volume = \<lparr>vol_VolumeId = ''jp-east-1/pvc-1'', vol_CapacityBytes = 107374182400,
      vol_ip = ''192.168.9.2'', vol_path = '''', vol_ContentSource = None\<rparr>"

lemma example_named:
  "create_named example_env J example_config example_request ''pvc-1'' minVolumeSize s =
    (Ret example_volume, s\<lparr>trace := trace s @ [ListPVCs, DescribeNASInstances (Some ''pvc-1'')]\<rparr>)"
proof -
  have gen: "GenerateNasInstanceInput ''pvc-1'' minVolumeSize (req_Params example_request) =
      Inr (example_input\<lparr>in_SecurityGroups := []\<rparr>)"
    using example_input_run by (simp add: example_request_def)
  have src: "source_snapshot example_request u = (Ret '''', u)" for u :: sys
    using example_no_source [of "req_Params example_request"] by simp
  have ann: "getAnnotationsFromPVC example_env example_config (req_Name example_request) u =
      (Ret ('''', ''''), u\<lparr>trace := trace u @ [ListPVCs]\<rparr>)" for u :: sys
    by (simp add: example_request_facts one_claim_annotations)
  have cmp: "compareNasInstanceWithInput p example_instance
      (finalize_input ''cluster-uid-1'' (example_input\<lparr>in_SecurityGroups := []\<rparr>)) u = (Ret (), u)" for u :: sys and p
    by (simp add: compareNasInstanceWithInput_def finalize_input_def example_instance_def example_input_def
        pstr_def ParseInt_100 bindP_def derefP_def retP_def Let_def)
  have inst: "with_instance example_env example_request
      (finalize_input ''cluster-uid-1'' (example_input\<lparr>in_SecurityGroups := []\<rparr>)) ''pvc-1'' ''''
      (finish_volume example_env J example_config example_request ''pvc-1'' '''' '''') u =
    (Ret example_volume, u\<lparr>trace := trace u @ [DescribeNASInstances (Some ''pvc-1'')]\<rparr>)" for u
    by (simp add: with_instance_def GetNasInstance_def first_item_def tryP_def bindP_def run_api retP_def
        statusP_def wrapP_def cmp example_finish example_volume_def)
  show ?thesis
    by (simp add: create_named_def gen statusP_def wrapP_def liftP_def bindP_def example_group src ann inst Let_def)
qed

lemma example_create:
  "CreateVolume example_env J example_driver example_request (newControllerServer []) =
    (Ret example_volume, (newControllerServer [])
       \<lparr>trace := [ListPVCs, DescribeNASInstances (Some ''pvc-1'')]\<rparr>)"
  using example_convert
  by (simp add: CreateVolume_def example_request_facts statusP_def wrapP_def liftP_def bindP_def deferP_def
      zoom_run SetCreating_def UnsetCreating_def example_named on_error_def
      retP_def newControllerServer_def newInstanceNameHolder_def)

section \<open>CreateVolume\<close>



text \<open>
  C2. When CreateVolume returns, the instance name it had reserved is free again and no address
  stays pending: the names being created are those of before, and the pending addresses are
  not more than before.
\<close>

theorem CreateVolume_releases:
  assumes "retry_contract E" and "CreateVolume E J drv req s = (r, t)" and "r \<noteq> Blocked"
  shows "creatingInstanceNames (nasNameHolder t) = creatingInstanceNames (nasNameHolder s) \<and>
    pendingIPs (ipAllocator t) \<subseteq> pendingIPs (ipAllocator s) \<and>
    deletingPvsQueue t = deletingPvsQueue s"
proof (cases "req_Name req = '''' \<or> (\<exists>e. validateVolumeCapabilities drv (req_Caps req) = Inl e)")
  case True
  then have "t = s"
    using assms(2)
    by (cases "req_Name req = ''''")
      (auto simp: CreateVolume_def failP_def bindP_def statusP_def wrapP_def liftP_def)
  then show ?thesis by simp
next
  case False
  then have run: "deferP (on_error (on_creating (UnsetQueue (req_Name req)))) (create_body E J drv req) s = (r, t)"
    using assms(2) validate_Inr [OF False] by (simp add: CreateVolume_body)
  obtain o1 u where u: "create_body E J drv req s = (o1, u)" by (cases "create_body E J drv req s")
  have nb: "o1 \<noteq> Blocked" using run u assms(3) by (auto simp: deferP_def)
  have "nasNameHolder t = nasNameHolder u" "ipAllocator t = ipAllocator u"
    "deletingPvsQueue t = deletingPvsQueue u"
    using run u by (auto simp: deferP_def on_error_def retP_def zoom_run
        split: outcome.splits prod.splits)
  then show ?thesis using create_body_run [OF assms(1) u nb] by simp
qed

theorem CreateVolume_releases_witness:
  "creatingInstanceNames (nasNameHolder (snd (CreateVolume example_env no_codec example_driver example_request
     (newControllerServer [])))) = {}"
  using CreateVolume_releases [OF retry_contract_example example_create]
  by (simp only: example_create snd_conv) (simp add: newControllerServer_def newInstanceNameHolder_def)

text \<open>
  C3. A shared request that finds the queue free and its volume not queued leaves the queue as
  it was when it fails, and on success holds the queue's mutex with its volume operating, until
  the informer's event.
\<close>

theorem CreateVolume_queue:
  assumes "retry_contract E" and "CreateVolume E J drv req s = (r, t)"
    and "param (req_Params req) ''shared'' = ''true''"
    and "resources (creatingPvsQueue s) (req_Name req) = None" and "\<not> queueMutex (creatingPvsQueue s)"
  shows "case r of
      Ret v \<Rightarrow> queueMutex (creatingPvsQueue t) \<and>
        resources (creatingPvsQueue t) = (resources (creatingPvsQueue s))(req_Name req \<mapsto> True)
    | Fail e \<Rightarrow> creatingPvsQueue t = creatingPvsQueue s
    | _ \<Rightarrow> True"
proof (cases "req_Name req = '''' \<or> (\<exists>e. validateVolumeCapabilities drv (req_Caps req) = Inl e)")
  case True
  then have "t = s \<and> (\<exists>e. r = Fail e)"
    using assms(2)
    by (cases "req_Name req = ''''")
      (auto simp: CreateVolume_def failP_def bindP_def statusP_def wrapP_def liftP_def)
  then show ?thesis by auto
next
  case False
  then have run: "deferP (on_error (on_creating (UnsetQueue (req_Name req)))) (create_body E J drv req) s = (r, t)"
    using assms(2) validate_Inr [OF False] by (simp add: CreateVolume_body)
  obtain o1 u where u: "create_body E J drv req s = (o1, u)" by (cases "create_body E J drv req s")
  define q where "q = (creatingPvsQueue s)\<lparr>queueMutex := True,
      resources := (resources (creatingPvsQueue s))(req_Name req \<mapsto> True)\<rparr>"
  have Q: "Queue (req_Name req) (creatingPvsQueue s) = (Ret (), q)"
    using assms(4,5) by (simp add: Queue_def queue_enter_def queue_acquire_def q_def)
  have U: "UnsetQueue (req_Name req) q = (Ret (), creatingPvsQueue s)"
    by (rule Queue_Unset [OF Q])
  show ?thesis
  proof (cases o1)
    case (Ret v)
    then have "creatingPvsQueue u = q" using create_body_run [OF assms(1) u] assms(3) Q by simp
    moreover have "r = Ret v" "t = u"
      using run u Ret by (auto simp: deferP_def on_error_def retP_def)
    ultimately show ?thesis by (simp add: q_def)
  next
    case (Fail e)
    then have "creatingPvsQueue u = q" using create_body_run [OF assms(1) u] assms(3) Q by simp
    moreover from this have "r = Fail e" "t = u\<lparr>creatingPvsQueue := creatingPvsQueue s\<rparr>"
      using run u Fail U by (auto simp: deferP_def on_error_def zoom_run)
    ultimately show ?thesis by simp
  next
    case (Panic p)
    then show ?thesis using run u by (auto simp: deferP_def on_error_def retP_def)
  next
    case Blocked
    then show ?thesis using run u by (auto simp: deferP_def)
  qed
qed

text \<open>A shared request: the first volume of the first shared instance.\<close>

definition shared_env :: "'z env" where
  "shared_env = example_env\<lparr>listPVs := \<lambda>h. Inr [], createJob := \<lambda>h j. Inr (),
     deleteJob := \<lambda>h ns n. Inr (), getJob := \<lambda>h ns n. Inr [''Complete'']\<rparr>"

lemma shared_env_simps [simp]:
  "describeNas shared_env h n = Inr [example_instance]"
  "listPVCs shared_env h = Inr [\<lparr>pvc_name = ''claim'', pvc_namespace = ''default'', pvc_uid = ''1'',
       pvc_annotations = []\<rparr>]"
  "listPVs shared_env h = Inr []" "createJob shared_env h j = Inr ()"
  "deleteJob shared_env h ns m = Inr ()" "getJob shared_env h ns m = Inr [''Complete'']"
  "retry shared_env = retry_n 2" "ptr_text shared_env = ''0xc000010250''"
  "randomString shared_env h k = replicate k (CHR ''x'')"
  by (simp_all add: shared_env_def) (simp_all add: example_env_def)

definition shared_request :: CreateVolumeRequest where
  "shared_request = example_request\<lparr>req_Params :=
     [(''networkId'', ''net-1''), (''shared'', ''true''), (''capacityParInstanceGiB'', ''100'')]\<rparr>"

definition shared_name :: string where
  "shared_name = ''cluster-uid-1-shd001-xxxxx''"

lemma shared_facts:
  "validateVolumeCapabilities example_driver (req_Caps shared_request) = Inr ()" "req_Name shared_request = ''pvc-1''"
  "param (req_Params shared_request) ''shared'' = ''true''" "source_snapshot shared_request s = (Ret '''', s)"
  using example_request_facts example_no_source by (simp_all add: shared_request_def param_def pstr_def)

lemma shared_generated:
  "GenerateNasInstanceInput shared_name 107374182400 (req_Params shared_request) =
   Inr (example_input\<lparr>in_SecurityGroups := [], in_Identifier := Some shared_name\<rparr>)"
  using example_allocated
  by (simp add: GenerateNasInstanceInput_def read_params_step good_entry_def set_param_def
      default_params_def example_input_def shared_request_def example_request_def eval_simps)

lemma empty_queue:
  "Queue n (newOperateResourceQueue m) =
    (Ret (), \<lparr>q_name = m, resources = [n \<mapsto> True], queueMutex = True\<rparr>)"
  by (simp add: Queue_def queue_enter_def queue_acquire_def newOperateResourceQueue_def)

lemma shared_place:
  "choose_shared shared_env example_config shared_request s =
    (Ret (shared_name, 107374182400),
     s\<lparr>trace := trace s @ [ListPVs, DescribeNASInstances None, RandomString 5]\<rparr>)" for s :: sys
proof -
  have no: "\<not> Contains ''pvc-1'' ''cluster-uid-1-shd001''"
    by (simp add: HasPrefix_def)
  have e3: "show_03d (Suc 0) = ''001''"
    by (simp add: show_03d_def show_nat.simps eval_simps Let_def numeral_2_eq_2)
  have upt: "[Suc 0..<11] = Suc 0 # [2..<11]" by (simp add: upt_rec)
  have reserved: "getNasInstanceReservedCap shared_env n u = (Ret 0, u\<lparr>trace := trace u @ [ListPVs]\<rparr>)"
    for n and u :: sys
    by (simp add: getNasInstanceReservedCap_def ListPVsP_def bindP_def wrapP_def run_api retP_def)
  have existing: "getSharedNameFromExistingNas shared_env ''cluster-uid-1-shd001'' u =
      (Ret (''cluster-uid-1-shd001'', False), u\<lparr>trace := trace u @ [DescribeNASInstances None]\<rparr>)" for u :: sys
    using no by (simp add: getSharedNameFromExistingNas_def ListNasInstances_def bindP_def run_api retP_def
        derefP_def example_instance_def)
  have "place_loop shared_env ''cluster-uid-1-shd'' 0 '''' [1..<11] u =
      (Ret shared_name, u\<lparr>trace := trace u @ [ListPVs, DescribeNASInstances None, RandomString 5]\<rparr>)" for u :: sys
    by (simp add: upt e3 Let_def errorf_pre_def wrapP_def bindP_def reserved existing run_api retP_def
        shared_name_def eval_nat_numeral)
  then show ?thesis
    by (simp add: choose_shared_def shared_request_def example_request_def param_def pstr_def
        getRequestCapacityNoMinimum_def getRequestCapacity_def ParseInt_100 GbToBytes_small
        getClusterUID_def example_config_def errorf_pre_def wrapP_def bindP_def retP_def Let_def)
qed

definition shared_volume :: Volume where
  "shared_volume = \<lparr>vol_VolumeId = ''jp-east-1/pvc-1/pvc-1'', vol_CapacityBytes = 0,
      vol_ip = ''192.168.9.2'', vol_path = ''pvc-1'', vol_ContentSource = None\<rparr>"

definition shared_job :: Job where
  "shared_job = with_args [''mkdir'', path_join [''/mnt'', ''pvc-1'']]
     (nfsJob ''192.168.9.2'' ''/'' ''pvc-1'' ''default'')"

lemma shared_finish:
  "finish_volume shared_env J example_config shared_request name '''' '''' example_instance s =
    (Ret shared_volume,
     s\<lparr>trace := trace s @ [CreateJob shared_job, GetJob ''default'' ''pvc-1'', DeleteJob ''default'' ''pvc-1'']\<rparr>)"
  for s :: sys
proof -
  have jn: "job_name shared_job = ''pvc-1''" "job_namespace shared_job = ''default''"
    by (simp_all add: shared_job_def with_args_def nfsJob_def)
  have job: "doNfsJob shared_env shared_job u =
      (Ret (), u\<lparr>trace := trace u @ [CreateJob shared_job, GetJob ''default'' ''pvc-1'', DeleteJob ''default'' ''pvc-1'']\<rparr>)"
    for u :: sys
    by (simp add: doNfsJob_def jn start_job_def CreateJobP_def DeleteJobP_def chkJobCompleted_def
        tryP_def bindP_def deferP_def run_api retP_def Let_def numeral_2_eq_2)
  show ?thesis
    by (simp add: finish_volume_def ready_instance_def prepare_path_def makeSourcePath_def
        shared_job_def [symmetric] job statusP_def wrapP_def
        nasInstanceToCSIVolume_def GenerateVolumeIDFromNasInstance_def getNasInstancePrivateIP_def
        example_instance_def shared_request_def example_request_def example_config_def param_def pstr_def
        getRequestCapacityNoMinimum_def getRequestCapacity_def shared_volume_def
        bindP_def derefP_def retP_def Let_def)
qed

definition shared_calls :: history where
  "shared_calls = [ListPVs, DescribeNASInstances None, RandomString 5, ListPVCs,
     DescribeNASInstances (Some shared_name), CreateJob shared_job, GetJob ''default'' ''pvc-1'',
     DeleteJob ''default'' ''pvc-1'']"

lemma shared_create:
  "CreateVolume shared_env J example_driver shared_request (newControllerServer []) =
    (Ret shared_volume, (newControllerServer [])\<lparr>trace := shared_calls,
       creatingPvsQueue := \<lparr>q_name = ''Creating PVs queue'', resources = [''pvc-1'' \<mapsto> True],
         queueMutex = True\<rparr>\<rparr>)"
proof -
  let ?i = "example_input\<lparr>in_SecurityGroups := [], in_Identifier := Some shared_name\<rparr>"
  have ann: "getAnnotationsFromPVC shared_env example_config (req_Name shared_request) u =
      (Ret ('''', ''''), u\<lparr>trace := trace u @ [ListPVCs]\<rparr>)" for u :: sys
    by (simp add: shared_facts one_claim_annotations)
  have cmp: "compareNasInstanceWithInput p example_instance (finalize_input ''cluster-uid-1'' ?i) u = (Ret (), u)"
    for u :: sys and p
    by (simp add: compareNasInstanceWithInput_def finalize_input_def example_instance_def example_input_def
        pstr_def ParseInt_100 bindP_def derefP_def retP_def Let_def)
  have inst: "with_instance shared_env shared_request (finalize_input ''cluster-uid-1'' ?i) shared_name ''''
      (finish_volume shared_env J example_config shared_request shared_name '''' '''') u =
    (Ret shared_volume, u\<lparr>trace := trace u @ [DescribeNASInstances (Some shared_name), CreateJob shared_job,
      GetJob ''default'' ''pvc-1'', DeleteJob ''default'' ''pvc-1'']\<rparr>)" for u
    by (simp add: with_instance_def GetNasInstance_def first_item_def tryP_def bindP_def run_api retP_def
        statusP_def wrapP_def cmp shared_finish)
  have named: "create_named shared_env J example_config shared_request shared_name 107374182400 u =
    (Ret shared_volume, u\<lparr>trace := trace u @ [ListPVCs, DescribeNASInstances (Some shared_name), CreateJob shared_job,
      GetJob ''default'' ''pvc-1'', DeleteJob ''default'' ''pvc-1'']\<rparr>)" for u
    by (simp add: create_named_def shared_generated statusP_def wrapP_def liftP_def bindP_def example_group shared_facts(4) ann inst Let_def)
  have conv: "convertSharedRequest shared_env example_driver ''pvc-1'' shared_request (newControllerServer []) =
      (Ret (shared_name, 107374182400), (newControllerServer [])
        \<lparr>trace := [ListPVs, DescribeNASInstances None, RandomString 5],
         creatingPvsQueue := \<lparr>q_name = ''Creating PVs queue'', resources = [''pvc-1'' \<mapsto> True], queueMutex = True\<rparr>\<rparr>)"
    by (simp add: convertSharedRequest_def shared_facts example_request_facts(2) errorf_pre_def wrapP_def bindP_def zoom_run empty_queue
        newControllerServer_def shared_place)
  show ?thesis
    by (simp add: CreateVolume_def shared_facts example_request_facts(2) statusP_def wrapP_def liftP_def bindP_def deferP_def
        conv [unfolded newControllerServer_def newInstanceNameHolder_def]
        zoom_run SetCreating_def UnsetCreating_def named on_error_def shared_calls_def
        retP_def newControllerServer_def newInstanceNameHolder_def)
qed

theorem CreateVolume_queue_witness:
  "queueMutex (creatingPvsQueue (snd (CreateVolume shared_env no_codec example_driver shared_request (newControllerServer []))))"
proof -
  have "param (req_Params shared_request) ''shared'' = ''true''"
    by (simp add: shared_request_def param_def pstr_def)
  moreover have "resources (creatingPvsQueue (newControllerServer [])) (req_Name shared_request) = None"
    "\<not> queueMutex (creatingPvsQueue (newControllerServer []))"
    by (simp_all add: newControllerServer_def newOperateResourceQueue_def)
  ultimately show ?thesis
    using CreateVolume_queue [OF retry_contract_quiet shared_create] by (simp add: shared_create)
qed

end
