(* ===== verification/DeleteProps.thy ===== *)
theory DeleteProps
  imports ControllerProps
begin

text \<open>
  The guarantees of DeleteVolume: which instance it deletes and when, what it leaves in the
  queue, and which directory its job removes.
\<close>

section \<open>Deleting a shared volume\<close>

lemma deferP_trace:
  assumes "deferP d m s = (r, t)" and "m s = (o1, v)" and "\<And>r s. trace (snd (d r s)) = trace s"
  shows "trace t = trace v"
proof -
  obtain o2 w where "d o1 v = (o2, w)" by (cases "d o1 v")
  then show ?thesis
    using assms(1,2) assms(3) [of o1 v] by (auto simp: deferP_def split: outcome.splits)
qed

lemma noOtherPvs_run:
  "noOtherPvsInSharedNas E name nas s =
    (case listPVs E (trace s) of
       Inl e \<Rightarrow> (Fail (Errorf (''Error getting PV list : '' @ errText e)), s\<lparr>trace := trace s @ [ListPVs]\<rparr>)
     | Inr pvs \<Rightarrow>
         (if list_ex (in_nas nas) pvs
          then Ret (list_all (\<lambda>pv. in_nas nas pv \<longrightarrow> name = pv_name pv) pvs)
          else Fail (Errorf (''Nas '' @ nas @ '' not found in PV list'')),
          s\<lparr>trace := trace s @ [ListPVs]\<rparr>))"
  by (simp add: noOtherPvsInSharedNas_def ListPVsP_def bindP_def wrapP_def api_def retP_def failP_def
      split: sum.split)

definition no_delete :: "call \<Rightarrow> bool" where
  "no_delete c \<longleftrightarrow> (\<forall>x. c \<noteq> DeleteNASInstance x)"

definition last_volume :: "cenv \<Rightarrow> history \<Rightarrow> string \<Rightarrow> string \<Rightarrow> bool" where
  "last_volume E h name nas \<longleftrightarrow> (\<exists>pvs. listPVs E h = Inr pvs \<and> list_ex (in_nas nas) pvs \<and>
     (\<forall>pv \<in> set pvs. in_nas nas pv \<longrightarrow> pv_name pv = name))"

lemma delete_instance_run:
  "trace (snd (delete_instance E nas s)) = trace s @ [DeleteNASInstance nas]"
  by (simp add: delete_instance_def statusP_def wrapP_def DeleteNasInstance_def api_def split: sum.split)

lemma delete_shared_run:
  assumes "retry_contract E" and "delete_shared E n path s = (r, t)"
  obtains (kept) k where "trace t = trace s @ k" "list_all no_delete k"
    | (deleted) k nas where "ni_Identifier n = Some nas"
        "trace t = trace s @ k @ [ListPVs, DeleteNASInstance nas]" "list_all no_delete k"
        "last_volume E (trace s @ k) path nas"
proof -
  obtain o1 u where u: "on_deleting (Queue path) s = (o1, u)" by (cases "on_deleting (Queue path) s")
  have tu: "trace u = trace s" using trace_on(4) [of "Queue path" s] u by simp
  show thesis
  proof (cases "\<exists>nas. o1 = Ret () \<and> ni_Identifier n = Some nas")
    case False
    then have "trace t = trace s @ []"
      using assms(2) u tu
      by (cases o1) (auto simp: delete_shared_def bindP_def statusP_def wrapP_def derefP_def
          split: option.splits)
    then show thesis by (rule kept) simp
  next
    case True
    then obtain nas where nas: "ni_Identifier n = Some nas" "o1 = Ret ()" by blast
    let ?rm = "removeSourcePath E (getNasInstancePrivateIP n) nas path"
    obtain o2 v where v: "?rm u = (o2, v)" by (cases "?rm u")
    have "extends no_delete u v"
      by (rule keepsD [OF keeps_source_path(3) [OF assms(1)] v]) (auto simp: no_delete_def)
    then obtain k where k: "trace v = trace s @ k" "list_all no_delete k"
      using tu by (auto simp: extends_def)
    have rest: "bindP (statusP Internal ''removing source path:'' ?rm) (\<lambda>_.
        bindP (statusP Internal ''checking other PVs on shared NAS:'' (noOtherPvsInSharedNas E path nas))
          (\<lambda>mustDeleted. if \<not> mustDeleted then retP () else delete_instance E nas)) u = (r, t)"
      using assms(2) u nas by (simp add: delete_shared_def bindP_def statusP_def wrapP_def derefP_def)
    show thesis
    proof (cases "o2 = Ret () \<and> last_volume E (trace v) path nas")
      case True
      then obtain pvs where pvs: "listPVs E (trace v) = Inr pvs" "list_ex (in_nas nas) pvs"
        "list_all (\<lambda>pv. in_nas nas pv \<longrightarrow> path = pv_name pv) pvs"
        by (auto simp: last_volume_def list_all_iff)
      then have "delete_instance E nas (v\<lparr>trace := trace v @ [ListPVs]\<rparr>) = (r, t)"
        using rest v True by (simp add: bindP_def statusP_def wrapP_def noOtherPvs_run)
      then have "trace t = trace v @ [ListPVs] @ [DeleteNASInstance nas]"
        using delete_instance_run [of E nas "v\<lparr>trace := trace v @ [ListPVs]\<rparr>"] by simp
      moreover have "last_volume E (trace s @ k) path nas" using True k(1) by metis
      ultimately show thesis using k nas by (intro deleted) simp_all
    next
      case False
      have "trace t = trace v \<or> trace t = trace v @ [ListPVs]"
      proof (cases "o2 = Ret ()")
        case ret: True
        then have "\<not> (\<exists>pvs. listPVs E (trace v) = Inr pvs \<and> list_ex (in_nas nas) pvs \<and>
            list_all (\<lambda>pv. in_nas nas pv \<longrightarrow> path = pv_name pv) pvs)"
          using False by (auto simp: last_volume_def list_all_iff)
        then show ?thesis
          using rest v ret
          by (auto simp: bindP_def statusP_def wrapP_def noOtherPvs_run retP_def split: sum.splits if_splits)
      next
        case False
        then show ?thesis
          using rest v by (cases o2) (auto simp: bindP_def statusP_def wrapP_def)
      qed
      then show thesis
        using k kept [of k] kept [of "k @ [ListPVs]"] by (auto simp: no_delete_def)
    qed
  qed
qed

text \<open>
  C4. DeleteVolume of a shared volume deletes an instance only as its last call, only the one it
  looked up by the name in the volume ID, and only when the list of persistent volumes fetched
  just before holds volumes of that instance, all of them the volume being deleted.
\<close>

theorem DeleteVolume_keeps_shared_instance:
  assumes "retry_contract E" and "DeleteVolume E vid s = (r, t)"
    and "Split vid (CHR ''/'') = [region, name, path]"
    and "trace t = trace s @ h" and "DeleteNASInstance x \<in> set h"
  shows "\<exists>k n ns. describeNas E (trace s) (Some name) = Inr (n # ns) \<and> ni_Identifier n = Some x \<and>
    h = k @ [ListPVs, DeleteNASInstance x] \<and> list_all no_delete k \<and>
    last_volume E (trace s @ k) path x"
proof -
  have parts: "CHR ''/'' \<notin> set region" "CHR ''/'' \<notin> set name" "vid \<noteq> ''''"
    using Split_sep_free [of region vid] Split_sep_free [of name vid] assms(3) by auto
  then have two: "Split (region @ ''/'' @ name) (CHR ''/'') = [region, name]"
    using Split_append [of "CHR ''/''" region name] by (simp add: Split_no_sep)
  let ?u = "s\<lparr>trace := trace s @ [DescribeNASInstances (Some name)]\<rparr>"
  have run: "bindP (tryP (GetNasInstance E name)) (\<lambda>r. case r of
      Inl e \<Rightarrow> retP ()
    | Inr nas \<Rightarrow> deferP (on_error (on_deleting (UnsetQueue path))) (delete_shared E nas path)) s = (r, t)"
    using assms(2,3) parts(3) two by (simp add: DeleteVolume_def GetNasInstanceFromVolumeID_def Let_def eval_nat_numeral)
  show ?thesis
  proof (cases "\<exists>n ns. describeNas E (trace s) (Some name) = Inr (n # ns)")
    case False
    then have "h = [DescribeNASInstances (Some name)]"
      using run assms(4)
      by (auto simp: GetNasInstance_def first_item_def tryP_def bindP_def api_def retP_def panicP_def
          split: sum.splits list.splits)
    then show ?thesis using assms(5) by simp
  next
    case True
    then obtain n ns where n: "describeNas E (trace s) (Some name) = Inr (n # ns)" by blast
    have "deferP (on_error (on_deleting (UnsetQueue path))) (delete_shared E n path) ?u = (r, t)"
      using run n by (simp add: GetNasInstance_def first_item_def tryP_def bindP_def api_def retP_def)
    moreover obtain o1 v where v: "delete_shared E n path ?u = (o1, v)"
      by (cases "delete_shared E n path ?u")
    ultimately have tv: "trace t = trace v" by (rule deferP_trace) (rule trace_on_error)
    from assms(1) v show ?thesis
    proof (cases rule: delete_shared_run)
      case (kept k)
      then have "h = DescribeNASInstances (Some name) # k" using tv assms(4) by simp
      then show ?thesis using kept(2) assms(5) by (auto simp: list_all_iff no_delete_def)
    next
      case (deleted k nas)
      then have h: "h = (DescribeNASInstances (Some name) # k) @ [ListPVs, DeleteNASInstance nas]"
        using tv assms(4) by simp
      then have x: "x = nas" using assms(5) deleted(3) by (auto simp: list_all_iff no_delete_def)
      show ?thesis
        using n deleted h
        by (intro exI [of _ "DescribeNASInstances (Some name) # k"] exI [of _ n] exI [of _ ns])
          (simp add: x no_delete_def)
    qed
  qed
qed

lemma Split_app_sep: "Split (a @ sep # b) sep = Split a sep @ Split b sep"
  by (induction a sep rule: Split.induct) (auto split: list.splits)

definition delete_env :: "'z env" where
  "delete_env = shared_env\<lparr>deleteNas := \<lambda>h n. Inr (),
     listPVs := \<lambda>h. Inr [\<lparr>pv_name = ''pvc-1'',
       pv_csi = Some (''nas.csi.storage.nifcloud.com'', ''jp-east-1/pvc-1/pvc-1''),
       pv_capacity = Some (Some 0)\<rparr>]\<rparr>"

lemma delete_env_simps [simp]:
  "describeNas delete_env h n = Inr [example_instance]" "deleteNas delete_env h m = Inr ()"
  "listPVs delete_env h = Inr [\<lparr>pv_name = ''pvc-1'',
     pv_csi = Some (''nas.csi.storage.nifcloud.com'', ''jp-east-1/pvc-1/pvc-1''),
     pv_capacity = Some (Some 0)\<rparr>]"
  "createJob delete_env h j = Inr ()" "deleteJob delete_env h m m' = Inr ()"
  "getJob delete_env h m m' = Inr [''Complete'']" "retry delete_env = retry_n 2"
  by (simp_all add: delete_env_def)

definition remove_job :: Job where
  "remove_job = with_args [''rm'', ''-rf'', path_join [''/mnt'', ''pvc-1'']]
     (nfsJob ''192.168.9.2'' ''/'' ''pvc-1'' ''default'')"

lemma delete_run:
  "DeleteVolume delete_env ''jp-east-1/pvc-1/pvc-1'' (newControllerServer []) =
    (Ret (), (newControllerServer [])\<lparr>trace := [DescribeNASInstances (Some ''pvc-1''), CreateJob remove_job,
       GetJob ''default'' ''pvc-1'', DeleteJob ''default'' ''pvc-1'', ListPVs, DeleteNASInstance ''pvc-1''],
     deletingPvsQueue := \<lparr>q_name = ''Deleting PVs queue'', resources = [''pvc-1'' \<mapsto> True], queueMutex = True\<rparr>\<rparr>)"
proof -
  have jn: "job_name remove_job = ''pvc-1''" "job_namespace remove_job = ''default''"
    by (simp_all add: remove_job_def with_args_def nfsJob_def)
  have job: "doNfsJob delete_env remove_job u =
      (Ret (), u\<lparr>trace := trace u @ [CreateJob remove_job, GetJob ''default'' ''pvc-1'', DeleteJob ''default'' ''pvc-1'']\<rparr>)"
    for u :: sys
    by (simp add: doNfsJob_def jn start_job_def CreateJobP_def DeleteJobP_def chkJobCompleted_def
        tryP_def bindP_def deferP_def run_api retP_def Let_def numeral_2_eq_2)
  have nas: "ni_Identifier example_instance = Some ''pvc-1''"
    "getNasInstancePrivateIP example_instance = ''192.168.9.2''"
    by (simp_all add: example_instance_def getNasInstancePrivateIP_def)
  have other: "noOtherPvsInSharedNas delete_env ''pvc-1'' ''pvc-1'' u =
      (Ret True, u\<lparr>trace := trace u @ [ListPVs]\<rparr>)" for u :: sys
    by (simp add: noOtherPvs_run in_nas_def HasPrefix_def)
  have shared: "delete_shared delete_env example_instance ''pvc-1'' u =
      (Ret (), u\<lparr>trace := trace u @ [CreateJob remove_job, GetJob ''default'' ''pvc-1'',
         DeleteJob ''default'' ''pvc-1'', ListPVs, DeleteNASInstance ''pvc-1''],
       deletingPvsQueue := \<lparr>q_name = ''Deleting PVs queue'', resources = [''pvc-1'' \<mapsto> True], queueMutex = True\<rparr>\<rparr>)"
    if "deletingPvsQueue u = newOperateResourceQueue ''Deleting PVs queue''" for u
    using that by (simp add: delete_shared_def nas derefP_def bindP_def statusP_def wrapP_def zoom_run empty_queue
        removeSourcePath_def remove_job_def [symmetric] job other delete_instance_def DeleteNasInstance_def
        run_api retP_def)
  show ?thesis
    by (simp add: DeleteVolume_def GetNasInstanceFromVolumeID_def GetNasInstance_def first_item_def
        tryP_def bindP_def run_api retP_def deferP_def shared on_error_def newControllerServer_def
        numeral_2_eq_2 numeral_3_eq_3 Let_def)
qed

theorem DeleteVolume_keeps_shared_instance_witness:
  "last_volume delete_env [DescribeNASInstances (Some ''pvc-1''), CreateJob remove_job,
     GetJob ''default'' ''pvc-1'', DeleteJob ''default'' ''pvc-1''] ''pvc-1'' ''pvc-1''"
proof -
  have "Split ''jp-east-1/pvc-1/pvc-1'' (CHR ''/'') = [''jp-east-1'', ''pvc-1'', ''pvc-1'']"
    by simp
  from DeleteVolume_keeps_shared_instance [OF retry_contract_quiet delete_run this, of
      "[DescribeNASInstances (Some ''pvc-1''), CreateJob remove_job, GetJob ''default'' ''pvc-1'',
        DeleteJob ''default'' ''pvc-1'', ListPVs, DeleteNASInstance ''pvc-1'']" "''pvc-1''"]
  show ?thesis by (auto simp: newControllerServer_def)
qed

section \<open>Failing lookups\<close>

text \<open>
  C37. Any error of the lookup is taken for a missing instance: DeleteVolume then reports success
  having only asked for the instance. An outage of the API while a volume is deleted therefore
  leaves its instance behind.
\<close>

theorem DeleteVolume_lookup_error:
  assumes "Split vid (CHR ''/'') = [region, name]"
    and "describeNas E (trace s) (Some name) = Inl e"
  shows "DeleteVolume E vid s = (Ret (), s\<lparr>trace := trace s @ [DescribeNASInstances (Some name)]\<rparr>)"
proof -
  have "vid \<noteq> ''''" using assms(1) by auto
  then show ?thesis
    using assms by (simp add: DeleteVolume_def GetNasInstanceFromVolumeID_def GetNasInstance_def tryP_def
        bindP_def api_def retP_def Let_def)
qed

theorem DeleteVolume_lookup_error_witness:
  "DeleteVolume (quiet_env\<lparr>describeNas := \<lambda>h n. Inl (Errorf ''dial tcp: i/o timeout'')\<rparr>) ''jp-east-1/pvc-1''
     (newControllerServer []) =
   (Ret (), (newControllerServer [])\<lparr>trace := trace (newControllerServer []) @ [DescribeNASInstances (Some ''pvc-1'')]\<rparr>)"
  by (rule DeleteVolume_lookup_error [where region = "''jp-east-1''"]) simp_all

section \<open>The directory removed\<close>

definition plain_name :: "string \<Rightarrow> bool" where
  "plain_name p \<longleftrightarrow> p \<notin> {'''', ''.'', ''..''} \<and> CHR ''/'' \<notin> set p"

lemma path_join_plain: "plain_name p \<Longrightarrow> path_join [''/mnt'', p] = ''/mnt/'' @ p"
  by (simp add: plain_name_def path_join_def path_clean_def Split_no_sep)



text \<open>
  A volume ID that ends with the slash after the instance's name is taken for a shared
  volume with an empty source path, and the job removes the mount point itself: the files of
  all volumes of the shared instance.
\<close>

theorem empty_source_path_removes_all:
  "Split (region @ ''/'' @ name @ ''/'') (CHR ''/'') = Split region (CHR ''/'') @ Split name (CHR ''/'') @ [''''] \<and>
   removeSourcePath E ip nas '''' = doNfsJob E ((nfsJob ip ''/'' nas ''default'')
      \<lparr>job_args := [''rm'', ''-rf'', ''/mnt'']\<rparr>)"
  by (simp add: Split_app_sep removeSourcePath_def with_args_def nfsJob_def path_join_def path_clean_def)

lemma delete_shared_queue:
  assumes "retry_contract E" and "delete_shared E n path s = (r, t)"
    and "Queue path (deletingPvsQueue s) = (Ret (), q)"
  shows "deletingPvsQueue t = q"
proof -
  let ?rest = "bindP (derefP (ni_Identifier n)) (\<lambda>ident.
     bindP (statusP Internal ''removing source path:''
       (removeSourcePath E (getNasInstancePrivateIP n) ident path)) (\<lambda>_.
     bindP (statusP Internal ''checking other PVs on shared NAS:''
       (noOtherPvsInSharedNas E path ident)) (\<lambda>mustDeleted.
     if \<not> mustDeleted then retP () else delete_instance E ident)))"
  have first: "statusP Internal ''deleting queue:'' (on_deleting (Queue path)) s =
      (Ret (), s\<lparr>deletingPvsQueue := q\<rparr>)"
    using assms(3) by (simp add: statusP_def wrapP_def zoom_run)
  have "keeps (extends (\<lambda>c. True)) ?rest"
    by (auto simp: delete_instance_def intro!: world_intros keeps_statusP keeps_source_path [OF assms(1)]
        keeps_shared keeps_cloud)
  moreover have "?rest (s\<lparr>deletingPvsQueue := q\<rparr>) = (r, t)"
    using assms(2) bindP_Ret [of "statusP Internal ''deleting queue:'' (on_deleting (Queue path))" s,
        OF first, of "\<lambda>_. ?rest"] by (simp only: delete_shared_def)
  ultimately have "extends (\<lambda>c. True) (s\<lparr>deletingPvsQueue := q\<rparr>) t" by (rule keepsD)
  then show ?thesis by (simp add: extends_fields)
qed

section \<open>The volume made and the volume deleted\<close>

text \<open>
  The ID of a shared volume leads DeleteVolume to the instance and the directory that
  CreateVolume used: its three parts are the region, the instance's name and the name of the
  request, which is also the path in the volume's context.
\<close>

theorem shared_volume_id_parts:
  assumes "nasInstanceToCSIVolume cfg n req s = (Ret vol, t)"
    and "param (req_Params req) ''shared'' = ''true''" and "ni_Identifier n = Some name"
    and "CHR ''/'' \<notin> set (cfg_Region cfg)" and "CHR ''/'' \<notin> set name"
    and "CHR ''/'' \<notin> set (req_Name req)"
  shows "Split (vol_VolumeId vol) (CHR ''/'') = [cfg_Region cfg, name, req_Name req] \<and>
    vol_path vol = req_Name req \<and> vol_ip vol = getNasInstancePrivateIP n \<and> t = s"
proof -
  have "vol = \<lparr>vol_VolumeId = cfg_Region cfg @ ''/'' @ name @ ''/'' @ req_Name req,
      vol_CapacityBytes = getRequestCapacityNoMinimum (req_CapRange req),
      vol_ip = getNasInstancePrivateIP n, vol_path = req_Name req, vol_ContentSource = None\<rparr> \<and> t = s"
    using assms(1-3)
    by (simp add: nasInstanceToCSIVolume_def GenerateVolumeIDFromNasInstance_def bindP_def derefP_def
        retP_def Let_def)
  then show ?thesis
    using assms(4-6) by (simp add: Split_append Split_no_sep)
qed

theorem shared_volume_id_parts_witness:
  "Split (vol_VolumeId shared_volume) (CHR ''/'') = [''jp-east-1'', ''pvc-1'', ''pvc-1'']"
proof -
  have "nasInstanceToCSIVolume example_config example_instance shared_request s = (Ret shared_volume, s)" for s :: sys
    by (simp add: nasInstanceToCSIVolume_def GenerateVolumeIDFromNasInstance_def getNasInstancePrivateIP_def
        example_instance_def shared_request_def example_request_def example_config_def param_def pstr_def
        getRequestCapacityNoMinimum_def getRequestCapacity_def shared_volume_def
        bindP_def derefP_def retP_def Let_def)
  from shared_volume_id_parts [OF this] show ?thesis
    by (simp add: shared_request_def example_request_def example_instance_def example_config_def
        param_def pstr_def)
qed



end
