(* ===== verification/SharedProps.thy ===== *)
theory SharedProps
  imports ControllerProps
begin

text \<open>
  The guarantees of the placement of shared volumes, of waiting for an instance and of the
  jobs on its files.
\<close>

section \<open>Reserved capacity\<close>

definition pv_bytes :: "PersistentVolume \<Rightarrow> int64" where
  "pv_bytes pv = (case pv_capacity pv of Some (Some b) \<Rightarrow> b | _ \<Rightarrow> 0)"

definition reserved_cap :: "string \<Rightarrow> PersistentVolume list \<Rightarrow> int64" where
  "reserved_cap nas pvs = i64 (\<Sum>pv \<leftarrow> filter (in_nas nas) pvs. pv_bytes pv)"

lemma reserved_foldl:
  "foldl (reserved_step nas) (i64 a) pvs = i64 (a + (\<Sum>pv \<leftarrow> filter (in_nas nas) pvs. pv_bytes pv))"
proof (induction pvs arbitrary: a)
  case Nil
  then show ?case by simp
next
  case (Cons pv pvs)
  have "reserved_step nas (i64 a) pv = i64 (a + (if in_nas nas pv then pv_bytes pv else 0))"
    by (auto simp: reserved_step_def pv_bytes_def i64_cong_add split: option.split)
  then show ?case using Cons by (simp add: algebra_simps)
qed

lemma reserved_run:
  "getNasInstanceReservedCap E nas s =
    (case listPVs E (trace s) of
       Inl e \<Rightarrow> (Fail (Errorf (''Error getting PV list : '' @ errText e)), s\<lparr>trace := trace s @ [ListPVs]\<rparr>)
     | Inr pvs \<Rightarrow> (Ret (reserved_cap nas pvs), s\<lparr>trace := trace s @ [ListPVs]\<rparr>))"
  using reserved_foldl [of nas 0]
  by (simp add: getNasInstanceReservedCap_def ListPVsP_def bindP_def wrapP_def api_def retP_def
      reserved_cap_def i64_id in_i64_def split: sum.split)

text \<open>
  The reserved capacity of an instance is the sum of the capacities of the persistent volumes
  whose handle contains its name, modulo the wrap of 64-bit integers; volumes without a
  capacity count as empty.
\<close>

theorem reserved_capacity_sum:
  assumes "listPVs E (trace s) = Inr pvs"
  shows "getNasInstanceReservedCap E nas s =
    (Ret (i64 (\<Sum>pv \<leftarrow> pvs. if in_nas nas pv then pv_bytes pv else 0)),
     s\<lparr>trace := trace s @ [ListPVs]\<rparr>)"
proof -
  have "(\<Sum>pv \<leftarrow> filter (in_nas nas) pvs. pv_bytes pv) = (\<Sum>pv \<leftarrow> pvs. if in_nas nas pv then pv_bytes pv else 0)"
    by (induction pvs) simp_all
  then show ?thesis using assms by (simp add: reserved_run reserved_cap_def)
qed

theorem reserved_capacity_sum_witness:
  "getNasInstanceReservedCap (quiet_env\<lparr>listPVs := \<lambda>h. Inr
      [\<lparr>pv_name = ''a'', pv_csi = Some (''d'', ''r/n/a''), pv_capacity = Some (Some 5)\<rparr>,
       \<lparr>pv_name = ''b'', pv_csi = Some (''d'', ''r/m/b''), pv_capacity = Some (Some 9)\<rparr>,
       \<lparr>pv_name = ''c'', pv_csi = Some (''d'', ''r/n/c''), pv_capacity = Some (Some 7)\<rparr>]\<rparr>) ''n'' (newControllerServer []) =
   (Ret 12, (newControllerServer [])\<lparr>trace := [ListPVs]\<rparr>)"
  by (rule trans [OF reserved_capacity_sum]) (simp, simp add: in_nas_def HasPrefix_def pv_bytes_def i64_def newControllerServer_def)

section \<open>Placing a shared volume\<close>

text \<open>
  Why an instance was chosen for a volume of \<open>cap\<close> bytes: nothing is reserved under its prefix
  (the first volume of an instance), or the instance as the cloud described it has room.
\<close>

definition has_room :: "'z env \<Rightarrow> string \<Rightarrow> int64 \<Rightarrow> string \<Rightarrow> nat \<Rightarrow> bool" where
  "has_room E pre cap nas i \<longleftrightarrow>
     (\<exists>h pvs. listPVs E h = Inr pvs \<and>
        (let reserved = reserved_cap (pre @ show_03d i) pvs in
           reserved = 0 \<and> Contains nas (pre @ show_03d i) \<or>
           (\<exists>h' n ns a total. describeNas E h' (Some nas) = Inr (n # ns) \<and>
              ni_AllocatedStorage n = Some a \<and>
              total = (case ParseInt a of (g, None) \<Rightarrow> GbToBytes g | _ \<Rightarrow> 0) \<and>
              cap \<le> i64 (total - reserved))))"

lemma existing_name_contains:
  assumes "getSharedNameFromExistingNas E pre s = (Ret (n, ok), t)"
  shows "Contains n pre"
proof -
  have each: "eachP ns (\<lambda>n. bindP (derefP (ni_Identifier n)) (\<lambda>ident.
           if Contains ident pre then
             bindP (derefP (ni_Status n)) (\<lambda>st.
               retP (if st \<noteq> ''deleting'' then Some ident else None))
           else retP None)) u = (Ret (Some m), v) \<Longrightarrow> Contains m pre" for ns m and u v :: "'a world_scheme"
  proof (induction ns arbitrary: u)
    case Nil
    then show ?case by (simp add: retP_def)
  next
    case (Cons x ns)
    then show ?case
      by (auto simp: bindP_def derefP_def retP_def split: option.splits if_splits)
  qed
  show ?thesis
    using assms
    by (auto simp: getSharedNameFromExistingNas_def retP_def elim!: bindP_RetE dest: each split: option.splits)
qed

lemma place_loop_room:
  assumes "place_loop E pre cap sn is s = (Ret nas, t)" and "is \<noteq> []" and "\<forall>i \<in> set is. i \<le> 10" and "last is = 10"
  shows "\<exists>i \<in> set is. has_room E pre cap nas i"
  using assms
proof (induction "is" arbitrary: sn s)
  case Nil
  then show ?case by simp
next
  case (Cons i "is")
  let ?name = "pre @ show_03d i"
  obtain pvs where pvs: "listPVs E (trace s) = Inr pvs"
    using Cons.prems(1)
    by (cases "listPVs E (trace s)")
      (auto simp: Let_def errorf_pre_def bindP_def wrapP_def reserved_run)
  define u where "u = s\<lparr>trace := trace s @ [ListPVs]\<rparr>"
  show ?case
  proof (cases "reserved_cap ?name pvs = 0")
    case True
    then have "bindP (errorf_pre ''Error getting existing nas names: '' (getSharedNameFromExistingNas E ?name))
        (\<lambda>(sharedName, ok). if ok then retP sharedName
           else bindP (api (RandomString 5) (\<lambda>h. Inr (randomString E h 5))) (\<lambda>r.
                retP (sharedName @ ''-'' @ r))) u = (Ret nas, t)"
      using Cons.prems(1) pvs by (simp add: Let_def errorf_pre_def bindP_def wrapP_def reserved_run u_def)
    then obtain n ok v where n: "getSharedNameFromExistingNas E ?name u = (Ret (n, ok), v)"
      "\<exists>r. nas = n \<or> nas = n @ r"
      by (elim bindP_RetE)
        (auto simp: errorf_pre_def wrapP_Ret_iff retP_def api_def bindP_def split: if_splits)
    then have "Contains nas ?name"
      using existing_name_contains [OF n(1)] Contains_append [of n ?name "[]"] by auto
    then show ?thesis using pvs True by (auto simp: has_room_def intro!: bexI [of _ i] exI [of _ "trace s"] exI [of _ pvs])
  next
    case False
    then have "bindP (errorf_pre ''Error getting shared nas name: '' (getSharedNameFromExistingPv E ?name)) (\<lambda>sharedName.
        bindP (errorf_pre ''Error getting nas instance: '' (GetNasInstance E sharedName)) (\<lambda>nas.
        bindP (getNasInstanceCapacityBytes nas) (\<lambda>total.
           if cap \<le> i64 (total - reserved_cap ?name pvs) then retP sharedName
           else if i = 10 then failP (Errorf ''Cannot create more than 10 shared NASs'')
           else place_loop E pre cap sharedName is))) u = (Ret nas, t)"
      using Cons.prems(1) pvs by (simp add: Let_def errorf_pre_def bindP_def wrapP_def reserved_run u_def)
    then obtain name v n w total x where
      n: "GetNasInstance E name v = (Ret n, w)" "getNasInstanceCapacityBytes n w = (Ret total, x)"
        "(if cap \<le> i64 (total - reserved_cap ?name pvs) then retP name
           else if i = 10 then failP (Errorf ''Cannot create more than 10 shared NASs'')
           else place_loop E pre cap name is) x = (Ret nas, t)"
      by (elim bindP_RetE) (auto simp: errorf_pre_def wrapP_Ret_iff)
    show ?thesis
    proof (cases "cap \<le> i64 (total - reserved_cap ?name pvs)")
      case True
      then have nas: "nas = name" using n(3) by (simp add: retP_def)
      obtain ns where d: "describeNas E (trace v) (Some name) = Inr (n # ns)"
        using n(1) by (auto simp: GetNasInstance_def first_item_def api_def retP_def panicP_def bindP_def
            split: sum.splits list.splits)
      obtain a where a: "ni_AllocatedStorage n = Some a"
        "total = (case ParseInt a of (g, None) \<Rightarrow> GbToBytes g | _ \<Rightarrow> 0)"
        using n(2) by (auto simp: getNasInstanceCapacityBytes_def bindP_def derefP_def retP_def
            split: option.splits prod.splits)
      show ?thesis
        using pvs True d a nas unfolding has_room_def Let_def
        by (intro bexI [of _ i] exI [of _ "trace s"] exI [of _ pvs] conjI disjI2 exI [of _ "trace v"]
            exI [of _ n] exI [of _ ns] exI [of _ a] exI [of _ total]) simp_all
    next
      case False
      then have "i \<noteq> 10" "place_loop E pre cap name is x = (Ret nas, t)"
        using n(3) by (auto simp: failP_def split: if_splits)
      moreover from this have "is \<noteq> []" using Cons.prems(4) by auto
      ultimately show ?thesis
        using Cons.IH [of name x] Cons.prems(3,4) by auto
    qed
  qed
qed



text \<open>
  The names overlap: without an instance type the first shared instance has the prefix
  \<open>shd001\<close>, and a volume on the tenth instance of type 0, \<open>shd0010\<close>, is counted under it although
  it is on another instance.
\<close>

theorem shared_prefix_overlap:
  "in_nas (''cluster-u-shd'' @ '''' @ show_03d 1)
     \<lparr>pv_name = ''pvc-9'', pv_csi = Some (''d'', ''jp-east-1/'' @ (''cluster-u-shd'' @ ''0'' @ show_03d 10) @ ''-abcde/pvc-9''),
      pv_capacity = c\<rparr> \<and>
   ''cluster-u-shd'' @ ''0'' @ show_03d 10 \<noteq> ''cluster-u-shd'' @ '''' @ show_03d 1"
  by (simp add: show_03d_def show_nat.simps eval_simps Let_def numeral_2_eq_2 HasPrefix_def in_nas_def)

section \<open>Waiting for an instance\<close>

text \<open>
  When waiting for an instance succeeds, the last thing the driver did was to ask for it, and
  the cloud answered that it is available; however often the backoff policy repeats the check,
  an instance that is creating, modifying or in any other state is never taken for ready.
\<close>

theorem wait_means_available:
  assumes "retry_contract E" and "waitForNASInstanceAvailable E name s = (Ret x, t)"
  shows "\<exists>h n ns. trace t = h @ [DescribeNASInstances (Some name)] \<and>
    describeNas E h (Some name) = Inr (n # ns) \<and> ni_Status n = Some ''available''"
proof -
  obtain k where "retry_n k (chkNasInstanceAvailable E name) s = (Ret x, t)"
    using assms unfolding waitForNASInstanceAvailable_def retry_contract_def by metis
  then obtain u where u: "chkNasInstanceAvailable E name u = (Ret Done, t)"
    using retry_n_Ret [of k "chkNasInstanceAvailable E name" s x t] by blast
  obtain n ns where d: "describeNas E (trace u) (Some name) = Inr (n # ns)"
    using u by (auto simp: chkNasInstanceAvailable_def GetNasInstance_def first_item_def tryP_def bindP_def
        api_def retP_def panicP_def split: sum.splits list.splits)
  then show ?thesis
    using u by (auto simp: chkNasInstanceAvailable_def GetNasInstance_def first_item_def tryP_def bindP_def
        api_def retP_def derefP_def Let_def split: option.splits if_splits
        intro!: exI [of _ "trace u"])
qed

theorem wait_means_available_witness:
  "\<exists>h n ns. [DescribeNASInstances (Some ''pvc-1'')] = h @ [DescribeNASInstances (Some ''pvc-1'')] \<and>
    describeNas example_env h (Some ''pvc-1'') = Inr (n # ns) \<and> ni_Status n = Some ''available''"
proof -
  have "waitForNASInstanceAvailable example_env ''pvc-1'' (newControllerServer []) =
      (Ret (), (newControllerServer [])\<lparr>trace := [DescribeNASInstances (Some ''pvc-1'')]\<rparr>)"
    by (simp add: waitForNASInstanceAvailable_def chkNasInstanceAvailable_def GetNasInstance_def first_item_def
        tryP_def bindP_def run_api retP_def derefP_def example_instance_def newControllerServer_def
        numeral_2_eq_2 Let_def)
  from wait_means_available [OF retry_contract_example this] show ?thesis by simp
qed

end
