(* ===== verification/NSGSyncer.thy ===== *)
theory NSGSyncer
  imports Shared "HOL-Library.Signed_Division"
begin

text \<open>
  The syncer of the NAS security group (pkg/driver/securitygroup_syncer.go): every
  \<open>SyncPeriod\<close> seconds it compares the private IPs the nodes have announced with the ranges the
  cluster's security group admits, and authorizes or revokes one of them. A map whose keys
  alone matter is the list of its keys; \<open>range\<close> visits them in the environment's order.
\<close>

section \<open>State\<close>

text \<open>The input for creating the group is its zone and its name.\<close>

record syncer = world +
  SyncPeriod :: int64
  internalChkIntvl :: int64
  cloudChkIntvl :: int64
  hasTask :: bool
  restoreClusterID :: bool
  lastNodePrivateIps :: "string list option"
  lastSecurityGroupInput :: "(string \<times> string) option"

type_synonym senv = "unit syncer_ext env"

definition newNSGSyncer :: "config \<Rightarrow> history \<Rightarrow> syncer" where
  "newNSGSyncer cfg h =
     \<lparr>trace = h, SyncPeriod = 30, internalChkIntvl = 300, cloudChkIntvl = 3600, hasTask = True,
      restoreClusterID = cfg_RestoreClstID cfg, lastNodePrivateIps = None,
      lastSecurityGroupInput = None\<rparr>"

definition DoesHaveTask :: "syncer \<Rightarrow> bool" where
  "DoesHaveTask s = hasTask s"

section \<open>When to check\<close>

text \<open>Go's integer division truncates and panics on a zero divisor.\<close>

definition quoP :: "int64 \<Rightarrow> int64 \<Rightarrow> ('s, int64) prog" where
  "quoP a b = (if b = 0 then panicP ''integer divide by zero'' else retP (a sdiv b))"

definition remP :: "int64 \<Rightarrow> int64 \<Rightarrow> ('s, int64) prog" where
  "remP a b = (if b = 0 then panicP ''integer divide by zero'' else retP (a smod b))"

definition due :: "int64 \<Rightarrow> int64 \<Rightarrow> int64 \<Rightarrow> ('s, bool) prog" where
  "due p interval period =
     bindP (quoP interval period) (\<lambda>n. bindP (remP p n) (\<lambda>r. retP (r = 0)))"

section \<open>What the cluster says\<close>

definition node_private_ips :: "config \<Rightarrow> CSINode list \<Rightarrow> string list" where
  "node_private_ips cfg nodes =
     foldl (\<lambda>ips node.
       let privateIP = csn_annotation node (cfg_Name cfg @ ''/privateIp'')
       in if privateIP \<noteq> '''' then List.insert privateIP ips else ips) [] nodes"

definition group_input :: "config \<Rightarrow> string \<Rightarrow> StorageClass list \<Rightarrow> (string \<times> string) option" where
  "group_input cfg securityGroupName classes =
     map_option (\<lambda>c. (sc_param c ''zone'', securityGroupName))
       (find (\<lambda>c. sc_provisioner c = cfg_Name cfg \<and> securityGroupName \<noteq> '''' \<and>
          sc_param c ''zone'' \<noteq> '''') classes)"

definition observe_cluster ::
  "'z env \<Rightarrow> config \<Rightarrow> ('z world_scheme, string list \<times> string \<times> string) prog" where
  "observe_cluster E cfg =
     bindP (wrapP (\<lambda>e. Errorf (''Error getting node private IPs: '' @ errText e))
        (api ListCSINodes (listCSINodes E))) (\<lambda>nodes.
     bindP (wrapP (\<lambda>e. Errorf (''Error getting security group name: '' @ errText e))
        (getSecurityGroupName E cfg)) (\<lambda>securityGroupName.
     bindP (wrapP (\<lambda>e. Errorf (''Error getting storage class: '' @ errText e))
        (api ListStorageClasses (listStorageClasses E))) (\<lambda>classes.
     case group_input cfg securityGroupName classes of
       None \<Rightarrow> failP (Errorf (''valid zone or driver name '' @ cfg_Name cfg @
         '' not found in StorageClass''))
     | Some inp \<Rightarrow> retP (node_private_ips cfg nodes, inp))))"

section \<open>The internal check\<close>

text \<open>\<open>reflect.DeepEqual\<close> on the two maps and on the two inputs.\<close>

definition same_state :: "string list \<Rightarrow> string \<times> string \<Rightarrow> syncer \<Rightarrow> bool" where
  "same_state ips inp s =
     (case (lastNodePrivateIps s, lastSecurityGroupInput s) of
        (Some lastIps, Some lastInput) \<Rightarrow> set ips = set lastIps \<and> inp = lastInput
      | _ \<Rightarrow> False)"

text \<open>Whether the cloud is to be checked.\<close>

definition internal_check :: "string list \<Rightarrow> string \<times> string \<Rightarrow> bool \<Rightarrow> (syncer, bool) prog" where
  "internal_check ips inp doCloudChk s =
     (if same_state ips inp s then (Ret (hasTask s \<or> doCloudChk), s)
      else (Ret True, s\<lparr>lastNodePrivateIps := Some ips, lastSecurityGroupInput := Some inp,
             hasTask := True\<rparr>))"

section \<open>The cloud's group\<close>

definition cloud_group ::
  "'z env \<Rightarrow> string \<times> string \<Rightarrow> ('z world_scheme, NASSecurityGroup option) prog" where
  "cloud_group E inp =
     bindP (tryP (GetNasSecurityGroup E (snd inp))) (\<lambda>r. case r of
         Inr nsg \<Rightarrow> retP (Some nsg)
       | Inl e \<Rightarrow>
           if IsNotFoundErr e
           then wrapP (\<lambda>e. Errorf (''Error creating NASSecurityGroup: '' @ errText e))
                  (CreateNasSecurityGroup E (fst inp) (snd inp))
           else failP (Errorf (''Error getting NASSecurityGroup: '' @ errText e)))"

section \<open>Restoring the group of the instances\<close>

fun volume_ids :: "config \<Rightarrow> PersistentVolume list \<Rightarrow> gerror + string list" where
  "volume_ids cfg [] = Inr []"
| "volume_ids cfg (pv # pvs) =
     (case pv_csi pv of
        None \<Rightarrow> volume_ids cfg pvs
      | Some (d, handle) \<Rightarrow>
          if d \<noteq> cfg_Name cfg then volume_ids cfg pvs
          else (let tokens = Split handle (CHR ''/'')
                in if length tokens < 2 then Inl (Errorf (''VolumeHandle format error : '' @ handle))
                   else case volume_ids cfg pvs of
                       Inl e \<Rightarrow> Inl e
                     | Inr ids \<Rightarrow> Inr (List.insert (Join (take 2 tokens) ''/'') ids)))"

definition repair ::
  "'z env \<Rightarrow> string \<Rightarrow> string \<Rightarrow> ('z world_scheme, unit option) prog" where
  "repair E securityGroupName volumeID =
     bindP (wrapP (\<lambda>e. Errorf (''Error getting NASInstance '' @ volumeID @ '' : '' @ errText e))
        (GetNasInstanceFromVolumeID E volumeID)) (\<lambda>nas.
     case ni_SecurityGroups nas of
       [] \<Rightarrow> failP (Errorf (''Error getting no NASSecurityGroups in NASInstance '' @ volumeID))
     | sg # _ \<Rightarrow>
         if pstr sg = securityGroupName then retP None
         else bindP (wrapP (\<lambda>e. Errorf (''Error setting NASSecurityGroup '' @ pstr (ni_Identifier nas) @
                '' to '' @ securityGroupName @ '' : '' @ errText e))
              (ChangeNasInstanceSecurityGroup E (pstr (ni_Identifier nas)) securityGroupName))
              (\<lambda>_. retP None))"

definition restore_group :: "senv \<Rightarrow> config \<Rightarrow> string \<Rightarrow> (syncer, unit) prog" where
  "restore_group E cfg securityGroupName =
     bindP (getP restoreClusterID) (\<lambda>restore.
     if \<not> restore then retP ()
     else bindP (modP (\<lambda>s. s\<lparr>restoreClusterID := False\<rparr>)) (\<lambda>_.
          bindP (wrapP (\<lambda>e. Errorf (''Error PV list: '' @ errText e)) (api ListPVs (listPVs E))) (\<lambda>pvs.
          bindP (liftP (volume_ids cfg pvs)) (\<lambda>ids.
          bindP (observe (\<lambda>h. map_order E h ids)) (\<lambda>order.
          bindP (eachP order (repair E securityGroupName)) (\<lambda>_. retP ()))))))"

section \<open>Authorizing and revoking\<close>

type_synonym ranges = "(string option \<times> string option) list"

definition editableP :: "ranges \<Rightarrow> ('s, bool) prog" where
  "editableP ranges =
     bindP (eachP ranges (\<lambda>aip. bindP (derefP (snd aip)) (\<lambda>status.
         retP (if status \<noteq> ''authorized'' then Some () else None)))) (\<lambda>r. retP (r = None))"

definition authorizedP :: "ranges \<Rightarrow> string \<Rightarrow> ('s, bool) prog" where
  "authorizedP ranges iprange =
     bindP (eachP ranges (\<lambda>aip. bindP (derefP (fst aip)) (\<lambda>cidrip.
         retP (if cidrip = iprange then Some () else None)))) (\<lambda>r. retP (r \<noteq> None))"

definition set_task :: "bool \<Rightarrow> (syncer, unit) prog" where
  "set_task b = modP (\<lambda>s. s\<lparr>hasTask := b\<rparr>)"

text \<open>One round of each loop; \<open>Some ()\<close> ends the synchronization.\<close>

definition authorize_node ::
  "senv \<Rightarrow> string \<Rightarrow> ranges \<Rightarrow> bool \<Rightarrow> string \<Rightarrow> (syncer, unit option) prog" where
  "authorize_node E grp ranges editable ip =
     bindP (authorizedP ranges (ip @ ''/32'')) (\<lambda>authorized.
     if authorized then retP None
     else bindP (set_task True) (\<lambda>_.
       if \<not> editable then retP (Some ())
       else bindP (wrapP (\<lambda>e. Errorf (''Error authorizing NASSecurityGroup ingress: '' @ errText e))
              (AuthorizeCIDRIP E grp (ip @ ''/32''))) (\<lambda>_. retP (Some ()))))"

definition node_existsP :: "string list \<Rightarrow> string option \<Rightarrow> ('s, bool) prog" where
  "node_existsP ips cidr =
     (if ips = [] then retP False
      else bindP (derefP cidr) (\<lambda>c. retP (list_ex (\<lambda>ip. c = ip @ ''/32'') ips)))"

definition revoke_range ::
  "senv \<Rightarrow> string \<Rightarrow> string list \<Rightarrow> bool \<Rightarrow> string option \<times> string option \<Rightarrow>
     (syncer, unit option) prog" where
  "revoke_range E grp ips editable aip =
     bindP (node_existsP ips (fst aip)) (\<lambda>nodeExists.
     if nodeExists then retP None
     else bindP (set_task True) (\<lambda>_.
       if \<not> editable then retP (Some ())
       else bindP (wrapP (\<lambda>e. Errorf (''Error revoking NASSecurityGroup ingress: '' @ errText e))
              (RevokeCIDRIP E grp (pstr (fst aip)))) (\<lambda>_. retP (Some ()))))"

definition revoke_loop ::
  "senv \<Rightarrow> string \<Rightarrow> string list \<Rightarrow> ranges \<Rightarrow> bool \<Rightarrow> (syncer, unit) prog" where
  "revoke_loop E grp ips ranges editable =
     bindP (eachP ranges (revoke_range E grp ips editable)) (\<lambda>r. case r of
         Some _ \<Rightarrow> retP ()
       | None \<Rightarrow> set_task False)"

definition sync_ranges :: "senv \<Rightarrow> string \<Rightarrow> string list \<Rightarrow> ranges \<Rightarrow> (syncer, unit) prog" where
  "sync_ranges E grp ips ranges =
     bindP (editableP ranges) (\<lambda>editable.
     bindP (observe (\<lambda>h. map_order E h ips)) (\<lambda>order.
     bindP (eachP order (authorize_node E grp ranges editable)) (\<lambda>r. case r of
         Some _ \<Rightarrow> retP ()
       | None \<Rightarrow> revoke_loop E grp ips ranges editable)))"

section \<open>The synchronization\<close>

text \<open>Everything before the ranges are compared; \<open>None\<close> is an early return.\<close>

definition check_group ::
  "senv \<Rightarrow> config \<Rightarrow> bool \<Rightarrow> (syncer, (string \<times> string list \<times> ranges) option) prog" where
  "check_group E cfg doCloudChk =
     bindP (observe_cluster E cfg) (\<lambda>(ips, inp).
     bindP (internal_check ips inp doCloudChk) (\<lambda>check.
     if \<not> check then retP None
     else
       bindP (cloud_group E inp) (\<lambda>nsg.
       bindP (restore_group E cfg (snd inp)) (\<lambda>_.
       bindP (derefP nsg) (\<lambda>nsg. retP (Some (snd inp, ips, sg_IPRanges nsg)))))))"

definition sync_prepare ::
  "senv \<Rightarrow> config \<Rightarrow> (syncer, (string \<times> string list \<times> ranges) option) prog" where
  "sync_prepare E cfg =
     bindP (api ReadClock (\<lambda>h. Inr (clock E h))) (\<lambda>now.
     bindP (getP (\<lambda>s. s)) (\<lambda>s.
     bindP (quoP now (SyncPeriod s)) (\<lambda>p.
     bindP (due p (internalChkIntvl s) (SyncPeriod s)) (\<lambda>doInternalChk.
     bindP (due p (cloudChkIntvl s) (SyncPeriod s)) (\<lambda>doCloudChk.
     if \<not> hasTask s \<and> \<not> doInternalChk \<and> \<not> doCloudChk then retP None
     else check_group E cfg doCloudChk)))))"

definition SyncNasSecurityGroups :: "senv \<Rightarrow> config \<Rightarrow> (syncer, unit) prog" where
  "SyncNasSecurityGroups E cfg =
     bindP (sync_prepare E cfg) (\<lambda>r. case r of
         None \<Rightarrow> retP ()
       | Some (grp, ips, ranges) \<Rightarrow> sync_ranges E grp ips ranges)"

text \<open>\<open>runtime.HandleError\<close> logs the error.\<close>

definition runNSGSyncer :: "senv \<Rightarrow> config \<Rightarrow> (syncer, unit) prog" where
  "runNSGSyncer E cfg = bindP (tryP (SyncNasSecurityGroups E cfg)) (\<lambda>_. retP ())"

section \<open>Before the ranges\<close>

text \<open>The calls that change what the group admits.\<close>

fun ingress :: "call \<Rightarrow> bool" where
  "ingress (AuthorizeIngress g c) = True"
| "ingress (RevokeIngress g c) = True"
| "ingress _ = False"

abbreviation spares :: "syncer \<Rightarrow> syncer \<Rightarrow> bool" where
  "spares \<equiv> calls (\<lambda>c. \<not> ingress c)"

lemma reading_not_ingress: "reading c \<Longrightarrow> \<not> ingress c"
  by (cases c) simp_all

lemma keeps_observe_cluster: "keeps (extends (\<lambda>c. \<not> ingress c)) (observe_cluster E cfg)"
  by (auto simp: observe_cluster_def intro!: world_intros keeps_shared
      dest: reading_not_ingress split: option.split)

lemma keeps_cloud_group: "keeps (extends (\<lambda>c. \<not> ingress c)) (cloud_group E inp)"
  by (auto simp: cloud_group_def intro!: world_intros keeps_cloud split: sum.split)

lemma keeps_repair: "keeps (extends (\<lambda>c. \<not> ingress c)) (repair E g vid)"
  by (auto simp: repair_def intro!: world_intros keeps_cloud split: list.split)

lemma keeps_update:
  "(\<And>s. trace (f s) = trace s) \<Longrightarrow> keeps spares (modP f)"
  by (rule keepsI) (auto simp: modP_def calls_def)

lemma keeps_restore_group: "keeps spares (restore_group E cfg g)"
  unfolding restore_group_def
  by (auto intro!: call.keeps_rules keeps_update keeps_extends_calls [OF keeps_api]
      keeps_extends_calls [OF keeps_observe] keeps_extends_calls [OF keeps_repair])

lemma keeps_internal_check: "keeps spares (internal_check ips inp b)"
  by (rule keepsI) (auto simp: internal_check_def calls_def split: if_splits)

lemma keeps_due: "keeps (extends C) (due p i n)"
  by (auto simp: due_def quoP_def remP_def intro!: world_intros)

lemma keeps_sync_prepare: "keeps spares (sync_prepare E cfg)"
  unfolding sync_prepare_def check_group_def
  by (auto intro!: call.keeps_rules keeps_extends_calls [OF keeps_api] keeps_internal_check
      keeps_extends_calls [OF keeps_due] keeps_extends_calls [OF keeps_observe_cluster]
      keeps_extends_calls [OF keeps_cloud_group] keeps_restore_group simp: quoP_def split: prod.split)

text \<open>What the syncer remembers once it goes on to the ranges: the nodes and the group it works with.\<close>

lemma internal_check_remembers:
  assumes "internal_check ips inp b s = (Ret c, t)"
  shows "\<exists>l. lastNodePrivateIps t = Some l \<and> set l = set ips \<and> lastSecurityGroupInput t = Some inp"
  using assms
  by (auto simp: internal_check_def same_state_def split: if_splits option.splits)

definition same_memory :: "syncer \<Rightarrow> syncer \<Rightarrow> bool" where
  "same_memory s t \<longleftrightarrow> lastNodePrivateIps t = lastNodePrivateIps s \<and>
     lastSecurityGroupInput t = lastSecurityGroupInput s"

interpretation memory: step_contract same_memory
  by unfold_locales (simp_all add: same_memory_def)

lemma extends_same_memory: "extends C s t \<Longrightarrow> same_memory s t"
  by (auto simp: extends_def same_memory_def)

lemma keeps_extends_memory: "keeps (extends C) m \<Longrightarrow> keeps same_memory m"
  by (meson extends_same_memory keeps_def)

lemma keeps_memory_update:
  "(\<And>s. same_memory s (f s)) \<Longrightarrow> keeps same_memory (modP f)"
  by (rule keepsI) (auto simp: modP_def)

lemma keeps_memory_restore_group: "keeps same_memory (restore_group E cfg g)"
  unfolding restore_group_def
  by (auto intro!: memory.keeps_rules keeps_memory_update
      keeps_extends_memory [where C = "\<lambda>_. True", OF keeps_api]
      keeps_extends_memory [where C = "\<lambda>_. True", OF keeps_observe]
      keeps_extends_memory [OF keeps_repair] simp: same_memory_def)

lemma sync_prepare_remembers:
  assumes "sync_prepare E cfg s = (Ret (Some (grp, ips, ranges)), t)"
  shows "\<exists>l zone. lastNodePrivateIps t = Some l \<and> set l = set ips \<and>
    lastSecurityGroupInput t = Some (zone, grp)"
proof -
  from assms obtain inp b c u v w x where run:
      "internal_check ips inp b u = (Ret c, v)" "cloud_group E inp v = (Ret x, w)"
      "restore_group E cfg (snd inp) w = (Ret (), t)" "grp = snd inp"
    unfolding sync_prepare_def check_group_def
    by (auto elim!: bindP_RetE simp: run_simps derefP_Ret_iff split: if_splits)
  have "same_memory v t"
    using keepsD [OF keeps_extends_memory [OF keeps_cloud_group] run(2)]
      keepsD [OF keeps_memory_restore_group run(3)] by (rule memory.R_trans)
  then show ?thesis
    using internal_check_remembers [OF run(1)] run(4) by (cases inp) (auto simp: same_memory_def)
qed

end
