(* ===== verification/SyncProps.thy ===== *)
theory SyncProps
  imports NSGSyncer
begin

text \<open>
  What the security group syncer does to the group: at most one change per synchronization,
  always towards the nodes' addresses, and, when the cloud and the cluster stand still, the
  group admits exactly the nodes after as many synchronizations as there are differences, plus
  one.
\<close>

section \<open>The loops\<close>

lemma eachP_stops:
  assumes "\<And>x u r t. x \<in> set xs \<Longrightarrow> f x u = (r, t) \<Longrightarrow>
      r = Ret None \<and> t = u \<and> P x \<or> r \<noteq> Ret None \<and> Q x u r t"
    and "eachP xs f s = (r, t)"
  shows "r = Ret None \<and> t = s \<and> (\<forall>x \<in> set xs. P x) \<or> r \<noteq> Ret None \<and> (\<exists>x \<in> set xs. Q x s r t)"
  using assms
proof (induction xs arbitrary: s)
  case Nil
  then show ?case by (simp add: retP_def)
next
  case (Cons x xs)
  obtain o1 u where u: "f x s = (o1, u)" by (cases "f x s")
  consider (go) "o1 = Ret None" "u = s" "P x" | (stop) "o1 \<noteq> Ret None" "Q x s o1 u"
    using Cons.prems(1) [OF _ u] by auto
  then show ?case
  proof cases
    case go
    then have "eachP xs f s = (r, t)" using Cons.prems(2) u by (simp add: bindP_def)
    then show ?thesis using Cons.IH Cons.prems(1) go by auto
  next
    case stop
    then have "(r, t) = (o1, u)"
      using Cons.prems(2) u by (auto simp: bindP_def retP_def split: outcome.splits option.splits)
    then show ?thesis using stop by auto
  qed
qed

text \<open>The two searches of the loops: one read through a pointer, then a test.\<close>

lemma search_run:
  assumes "eachP xs (\<lambda>x. bindP (derefP (p x)) (\<lambda>a. retP (if test a then Some () else None))) s = (r, t)"
  shows "t = s \<and> (\<forall>b. r = Ret b \<longrightarrow> (b = None) = (\<forall>x \<in> set xs. \<exists>a. p x = Some a \<and> \<not> test a)) \<and>
    ((\<forall>x \<in> set xs. p x \<noteq> None) \<longrightarrow> (\<exists>b. r = Ret b)) \<and>
    (\<forall>x. r = Ret (Some x) \<longrightarrow> (\<exists>x \<in> set xs. \<exists>a. p x = Some a \<and> test a))"
  using assms
proof (induction xs arbitrary: s)
  case Nil
  then show ?case by (auto simp: retP_def)
next
  case (Cons x xs)
  show ?case
  proof (cases "p x")
    case None
    then show ?thesis using Cons.prems by (auto simp: bindP_def derefP_def)
  next
    case (Some a)
    then show ?thesis
      using Cons.prems Cons.IH [of s] by (cases "test a") (auto simp: bindP_def derefP_def retP_def)
  qed
qed

lemma editableP_run:
  assumes "editableP ranges s = (r, t)"
  shows "t = s \<and> (\<forall>b. r = Ret b \<longrightarrow> b = (\<forall>aip \<in> set ranges. snd aip = Some ''authorized'')) \<and>
    ((\<forall>aip \<in> set ranges. snd aip \<noteq> None) \<longrightarrow> (\<exists>b. r = Ret b))"
proof -
  let ?f = "\<lambda>aip. bindP (derefP (snd aip)) (\<lambda>status.
      retP (if status \<noteq> ''authorized'' then Some () else None))"
  obtain o1 u where u: "eachP ranges ?f s = (o1, u)" by (cases "eachP ranges ?f s")
  have "(\<forall>aip \<in> set ranges. \<exists>a. snd aip = Some a \<and> \<not> a \<noteq> ''authorized'') =
      (\<forall>aip \<in> set ranges. snd aip = Some ''authorized'')" by blast
  then show ?thesis
    using assms u search_run [OF u]
    by (cases o1) (auto simp: editableP_def bindP_def retP_def)
qed

lemma authorizedP_run:
  assumes "authorizedP ranges x s = (r, t)"
  shows "t = s \<and> (\<forall>b. r = Ret b \<longrightarrow> b = (\<exists>aip \<in> set ranges. fst aip = Some x)) \<and>
    ((\<forall>aip \<in> set ranges. fst aip \<noteq> None) \<longrightarrow> (\<exists>b. r = Ret b))"
proof -
  let ?f = "\<lambda>aip :: string option \<times> string option. bindP (derefP (fst aip)) (\<lambda>cidrip.
      retP (if cidrip = x then Some () else None))"
  obtain o1 u where u: "eachP ranges ?f s = (o1, u)" by (cases "eachP ranges ?f s")
  have hit: "\<exists>aip \<in> set ranges. fst aip = Some x" if "o1 = Ret (Some ())"
    using search_run [OF u] that by auto
  have none: "\<not> (\<exists>aip \<in> set ranges. fst aip = Some x)" if "o1 = Ret None"
    using search_run [OF u] that by fastforce
  show ?thesis
    using assms u search_run [OF u] hit none
    by (cases o1) (auto simp: authorizedP_def bindP_def retP_def)
qed

section \<open>One synchronization\<close>

text \<open>The changes of the group that a synchronization may make.\<close>

definition admits :: "ranges \<Rightarrow> string \<Rightarrow> bool" where
  "admits ranges x \<longleftrightarrow> (\<exists>aip \<in> set ranges. fst aip = Some x)"

definition right_change :: "string \<Rightarrow> string list \<Rightarrow> ranges \<Rightarrow> call \<Rightarrow> bool" where
  "right_change grp ips ranges c \<longleftrightarrow>
     (\<forall>aip \<in> set ranges. snd aip = Some ''authorized'') \<and>
     ((\<exists>ip \<in> set ips. c = AuthorizeIngress grp (ip @ ''/32'') \<and> \<not> admits ranges (ip @ ''/32'')) \<or>
      (\<exists>aip \<in> set ranges. c = RevokeIngress grp (pstr (fst aip)) \<and>
         (\<forall>ip \<in> set ips. admits ranges (ip @ ''/32'') \<and> fst aip \<noteq> Some (ip @ ''/32''))))"

text \<open>Nothing is done, or the task flag is set and at most one right change is made.\<close>

definition one_change :: "string \<Rightarrow> string list \<Rightarrow> ranges \<Rightarrow> syncer \<Rightarrow> syncer \<Rightarrow> bool" where
  "one_change grp ips ranges s t \<longleftrightarrow>
     t = s \<or> t = s\<lparr>hasTask := True\<rparr> \<or>
     (\<exists>c. t = s\<lparr>hasTask := True, trace := trace s @ [c]\<rparr> \<and> right_change grp ips ranges c)"

text \<open>
  In a calm group, all ranges of which are complete and authorized and in which every change
  succeeds, a round that ends the loop has made its change.
\<close>

definition calm :: "senv \<Rightarrow> string \<Rightarrow> ranges \<Rightarrow> bool" where
  "calm E grp ranges \<longleftrightarrow>
     (\<forall>aip \<in> set ranges. fst aip \<noteq> None \<and> snd aip = Some ''authorized'') \<and>
     (\<forall>h c. \<exists>x y. authorizeNsg E h grp c = Inr x \<and> revokeNsg E h grp c = Inr y)"

definition moved ::
  "senv \<Rightarrow> string \<Rightarrow> string list \<Rightarrow> ranges \<Rightarrow> 'a \<Rightarrow> syncer \<Rightarrow> 'a outcome \<Rightarrow> syncer \<Rightarrow> bool" where
  "moved E grp ips ranges a s r t \<longleftrightarrow>
     one_change grp ips ranges s t \<and> (r = Ret a \<longrightarrow> hasTask t) \<and>
     (calm E grp ranges \<longrightarrow> r = Ret a \<and>
       (\<exists>c. t = s\<lparr>hasTask := True, trace := trace s @ [c]\<rparr> \<and> right_change grp ips ranges c))"

lemma calmD:
  assumes "calm E grp ranges"
  shows "\<forall>aip \<in> set ranges. fst aip \<noteq> None" "\<forall>aip \<in> set ranges. snd aip = Some ''authorized''"
    "\<forall>aip \<in> set ranges. snd aip \<noteq> None" "authorizeNsg E h grp c \<noteq> Inl e" "revokeNsg E h grp c \<noteq> Inl e"
  using assms unfolding calm_def by (auto, (metis Inl_Inr_False)+)

lemma authorize_node_run:
  assumes "authorize_node E grp ranges editable ip s = (r, t)"
    and "editable = (\<forall>aip \<in> set ranges. snd aip = Some ''authorized'')" and "ip \<in> set ips"
  shows "r = Ret None \<and> t = s \<and> admits ranges (ip @ ''/32'') \<or>
    r \<noteq> Ret None \<and> moved E grp ips ranges (Some ()) s r t"
proof -
  obtain o1 u where u: "authorizedP ranges (ip @ ''/32'') s = (o1, u)"
    by (cases "authorizedP ranges (ip @ ''/32'') s")
  show ?thesis
    using assms u authorizedP_run [OF u]
    by (cases o1)
      (auto simp: authorize_node_def bindP_def set_task_def modP_def retP_def AuthorizeCIDRIP_def api_def
        wrapP_def moved_def one_change_def right_change_def admits_def dest: calmD split: sum.splits if_splits)
qed

lemma node_existsP_run:
  assumes "node_existsP ips cidr s = (r, t)"
  shows "t = s \<and> (\<forall>b. r = Ret b \<longrightarrow> b = (\<exists>ip \<in> set ips. cidr = Some (ip @ ''/32''))) \<and>
    (cidr \<noteq> None \<longrightarrow> (\<exists>b. r = Ret b))"
  using assms
  by (cases cidr) (auto simp: node_existsP_def bindP_def derefP_def retP_def list_ex_iff split: if_splits)

lemma revoke_range_run:
  assumes "revoke_range E grp ips editable aip s = (r, t)"
    and "editable = (\<forall>aip \<in> set ranges. snd aip = Some ''authorized'')" and "aip \<in> set ranges"
    and "\<forall>ip \<in> set ips. admits ranges (ip @ ''/32'')"
  shows "r = Ret None \<and> t = s \<and> (\<exists>ip \<in> set ips. fst aip = Some (ip @ ''/32'')) \<or>
    r \<noteq> Ret None \<and> moved E grp ips ranges (Some ()) s r t"
proof -
  obtain o1 u where u: "node_existsP ips (fst aip) s = (o1, u)"
    by (cases "node_existsP ips (fst aip) s")
  show ?thesis
    using assms u node_existsP_run [OF u]
    by (cases o1)
      (auto simp: revoke_range_def bindP_def set_task_def modP_def retP_def RevokeCIDRIP_def api_def
        wrapP_def moved_def one_change_def right_change_def dest: calmD split: sum.splits if_splits)
qed

text \<open>
  \<open>range\<close> visits every key of a map once, in some order: the documented behaviour of Go behind
  \<open>map_order\<close>.
\<close>

definition order_contract :: "'z env \<Rightarrow> bool" where
  "order_contract E \<longleftrightarrow> (\<forall>h xs. set (map_order E h xs) = set xs)"

definition in_step :: "string list \<Rightarrow> ranges \<Rightarrow> bool" where
  "in_step ips ranges \<longleftrightarrow> (\<forall>ip \<in> set ips. admits ranges (ip @ ''/32'')) \<and>
     (\<forall>aip \<in> set ranges. \<exists>ip \<in> set ips. fst aip = Some (ip @ ''/32''))"

lemma sync_ranges_run:
  assumes "order_contract E" and "sync_ranges E grp ips ranges s = (r, t)"
  shows "moved E grp ips ranges () s r t \<or>
    in_step ips ranges \<and> r = Ret () \<and> t = s\<lparr>hasTask := False\<rparr>"
proof -
  obtain o1 u where u: "editableP ranges s = (o1, u)" by (cases "editableP ranges s")
  have us: "u = s" using editableP_run [OF u] by (rule conjunct1)
  show ?thesis
  proof (cases "\<exists>b. o1 = Ret b")
    case False
    then have "t = s" "r \<noteq> Ret ()"
      using assms(2) u us by (cases o1; auto simp: sync_ranges_def bindP_def)+
    moreover have "\<not> calm E grp ranges"
      using editableP_run [OF u] False calmD(3) by blast
    ultimately show ?thesis by (simp add: moved_def one_change_def)
  next
    case True
    then obtain ed where ed: "o1 = Ret ed" "ed = (\<forall>aip \<in> set ranges. snd aip = Some ''authorized'')"
      using editableP_run [OF u] by blast
    let ?ips = "map_order E (trace s) ips"
    have ips: "set ?ips = set ips" using assms(1) by (simp add: order_contract_def)
    obtain o2 v where v: "eachP ?ips (authorize_node E grp ranges ed) s = (o2, v)"
      by (cases "eachP ?ips (authorize_node E grp ranges ed) s")
    have loop1: "o2 = Ret None \<and> v = s \<and> (\<forall>ip \<in> set ?ips. admits ranges (ip @ ''/32'')) \<or>
        o2 \<noteq> Ret None \<and> (\<exists>ip \<in> set ?ips. moved E grp ips ranges (Some ()) s o2 v)"
      by (rule eachP_stops [where P = "\<lambda>ip. admits ranges (ip @ ''/32'')"
            and Q = "\<lambda>_ s r t. moved E grp ips ranges (Some ()) s r t", OF _ v])
        (rule authorize_node_run [OF _ ed(2)], auto simp: ips)
    have rest: "(case o2 of
        Ret None \<Rightarrow> revoke_loop E grp ips ranges ed v
      | Ret (Some _) \<Rightarrow> (Ret (), v) | Fail e \<Rightarrow> (Fail e, v) | Panic p \<Rightarrow> (Panic p, v) | Blocked \<Rightarrow> (Blocked, v)) = (r, t)"
      using assms(2) u us ed(1) v
      by (auto simp: sync_ranges_def bindP_def observe_def retP_def split: outcome.split option.split)
    show ?thesis
    proof (cases "o2 = Ret None")
      case False
      then show ?thesis using loop1 rest by (auto simp: moved_def split: outcome.splits option.splits)
    next
      case stop1: True
      then have v: "v = s" "\<forall>ip \<in> set ips. admits ranges (ip @ ''/32'')" using loop1 ips by auto
      obtain o3 w where w: "eachP ranges (revoke_range E grp ips ed) s = (o3, w)"
        by (cases "eachP ranges (revoke_range E grp ips ed) s")
      have loop2: "o3 = Ret None \<and> w = s \<and> (\<forall>aip \<in> set ranges. \<exists>ip \<in> set ips. fst aip = Some (ip @ ''/32'')) \<or>
          o3 \<noteq> Ret None \<and> (\<exists>aip \<in> set ranges. moved E grp ips ranges (Some ()) s o3 w)"
        by (rule eachP_stops [where P = "\<lambda>aip. \<exists>ip \<in> set ips. fst aip = Some (ip @ ''/32'')"
              and Q = "\<lambda>_ s r t. moved E grp ips ranges (Some ()) s r t", OF _ w])
          (rule revoke_range_run [OF _ ed(2) _ v(2)], auto)
      then show ?thesis
        using rest stop1 v w
        by (cases o3) (auto simp: revoke_loop_def moved_def bindP_def set_task_def modP_def retP_def in_step_def split: option.splits)
    qed
  qed
qed

lemma one_change_trace:
  "one_change grp ips ranges s t \<Longrightarrow> same_memory s t \<and>
    (trace t = trace s \<or> (\<exists>c. trace t = trace s @ [c] \<and> hasTask t \<and> right_change grp ips ranges c))"
  by (auto simp: one_change_def same_memory_def)

text \<open>
  C14. One synchronization changes what the group admits at most once, as its last call, and it is
  never a wrong change: an address is admitted only if it is one of the nodes' last seen, a range
  is revoked only if it is none of them; the task flag then stays set, so the next round goes on.
\<close>

theorem sync_changes_one_range:
  assumes "order_contract E" and "SyncNasSecurityGroups E cfg s = (r, t)"
  shows "\<exists>k. list_all (\<lambda>c. \<not> ingress c) k \<and> (trace t = trace s @ k \<or>
    (\<exists>c l zone grp. trace t = trace s @ k @ [c] \<and> hasTask t \<and>
      lastNodePrivateIps t = Some l \<and> lastSecurityGroupInput t = Some (zone, grp) \<and>
      ((\<exists>ip \<in> set l. c = AuthorizeIngress grp (ip @ ''/32'')) \<or>
       (\<exists>x. c = RevokeIngress grp x \<and> (\<forall>ip \<in> set l. x \<noteq> ip @ ''/32'')))))"
proof -
  obtain o1 u where u: "sync_prepare E cfg s = (o1, u)" by (cases "sync_prepare E cfg s")
  then obtain k where k: "trace u = trace s @ k" "list_all (\<lambda>c. \<not> ingress c) k"
    using keepsD [OF keeps_sync_prepare] unfolding calls_def by blast
  show ?thesis
  proof (cases "\<exists>grp ips ranges. o1 = Ret (Some (grp, ips, ranges))")
    case False
    then have "t = u"
      using assms(2) u
      by (cases o1) (auto simp: SyncNasSecurityGroups_def bindP_def retP_def split: option.splits)
    then show ?thesis using k by blast
  next
    case True
    then obtain grp ips ranges where o1: "o1 = Ret (Some (grp, ips, ranges))" by blast
    obtain l zone where mem: "lastNodePrivateIps u = Some l" "set l = set ips"
        "lastSecurityGroupInput u = Some (zone, grp)"
      using sync_prepare_remembers u o1 by blast
    have "sync_ranges E grp ips ranges u = (r, t)"
      using assms(2) u o1 by (simp add: SyncNasSecurityGroups_def bindP_def)
    then have "trace t = trace u \<or> same_memory u t \<and>
        (\<exists>c. trace t = trace u @ [c] \<and> hasTask t \<and> right_change grp ips ranges c)"
      using sync_ranges_run [OF assms(1)] one_change_trace unfolding moved_def by fastforce
    then show ?thesis
    proof
      assume "trace t = trace u"
      then show ?thesis using k by auto
    next
      assume "same_memory u t \<and> (\<exists>c. trace t = trace u @ [c] \<and> hasTask t \<and> right_change grp ips ranges c)"
      then obtain c where c: "same_memory u t" "trace t = trace u @ [c]" "hasTask t" "right_change grp ips ranges c"
        by blast
      have "(\<exists>ip \<in> set l. c = AuthorizeIngress grp (ip @ ''/32'')) \<or>
          (\<exists>x. c = RevokeIngress grp x \<and> (\<forall>ip \<in> set l. x \<noteq> ip @ ''/32''))"
        using c(4) mem(2) by (fastforce simp: right_change_def pstr_def split: option.splits)
      then show ?thesis using k mem c by (intro exI [of _ k]) (auto simp: same_memory_def)
    qed
  qed
qed

section \<open>A group that stands still\<close>

text \<open>
  The ranges a group holds after a history, and a cloud whose answers agree with it: the group
  is described as the changes made so far left it, always editable, and every change succeeds;
  the nodes and the storage classes stay the same.
\<close>

fun granted :: "string \<Rightarrow> string list \<Rightarrow> history \<Rightarrow> string list" where
  "granted g A [] = A"
| "granted g A (AuthorizeIngress g' c # h) = granted g (if g' = g then List.insert c A else A) h"
| "granted g A (RevokeIngress g' c # h) = granted g (if g' = g then removeAll c A else A) h"
| "granted g A (_ # h) = granted g A h"

definition describes :: "senv \<Rightarrow> string \<Rightarrow> string list \<Rightarrow> bool" where
  "describes E g A \<longleftrightarrow> (\<forall>h. \<exists>nsg nsgs. describeNsg E h g = Inr (nsg # nsgs) \<and>
     fst ` set (sg_IPRanges nsg) = Some ` set (granted g A h) \<and> calm E g (sg_IPRanges nsg))"

definition cluster_still :: "senv \<Rightarrow> config \<Rightarrow> string list \<Rightarrow> string \<times> string \<Rightarrow> bool" where
  "cluster_still E cfg ips inp \<longleftrightarrow>
     (\<exists>nodes classes ns. (\<forall>h. listCSINodes E h = Inr nodes \<and> listStorageClasses E h = Inr classes \<and>
        getNamespace E h ''kube-system'' = Inr ns) \<and>
      node_private_ips cfg nodes = ips \<and>
      group_input cfg (''cluster-'' @ (if cfg_ClusterUID cfg \<noteq> '''' then cfg_ClusterUID cfg else ns)) classes
        = Some inp)"

lemma granted_append: "granted g A (h @ k) = granted g (granted g A h) k"
proof (induction h arbitrary: A)
  case (Cons c h)
  then show ?case by (cases c) simp_all
qed simp

lemma granted_quiet: "list_all (\<lambda>c. \<not> ingress c) k \<Longrightarrow> granted g A k = A"
proof (induction k)
  case (Cons c k)
  then show ?case by (cases c) simp_all
qed simp

lemma granted_keeps: "list_all (\<lambda>c. \<not> ingress c) k \<Longrightarrow> granted g A (h @ k) = granted g A h"
  by (simp add: granted_append granted_quiet)

lemma observe_still:
  assumes "cluster_still E cfg ips inp"
  shows "\<exists>r. observe_cluster E cfg s = (Ret (ips, inp), r)"
proof -
  obtain nodes classes ns where still: "\<And>h. listCSINodes E h = Inr nodes" "\<And>h. listStorageClasses E h = Inr classes"
      "\<And>h. getNamespace E h ''kube-system'' = Inr ns" "node_private_ips cfg nodes = ips"
      "group_input cfg (''cluster-'' @ (if cfg_ClusterUID cfg \<noteq> '''' then cfg_ClusterUID cfg else ns)) classes = Some inp"
    using assms unfolding cluster_still_def by blast
  show ?thesis
    using still
    by (auto simp: observe_cluster_def getSecurityGroupName_def getClusterUID_def bindP_def wrapP_def
        api_def retP_def)
qed

lemma cloud_group_still:
  assumes "describes E (snd inp) A"
  shows "\<exists>nsg t. cloud_group E inp s = (Ret (Some nsg), t) \<and>
    fst ` set (sg_IPRanges nsg) = Some ` set (granted (snd inp) A (trace s)) \<and> calm E (snd inp) (sg_IPRanges nsg)"
proof -
  obtain nsg nsgs where "describeNsg E (trace s) (snd inp) = Inr (nsg # nsgs)"
      "fst ` set (sg_IPRanges nsg) = Some ` set (granted (snd inp) A (trace s))" "calm E (snd inp) (sg_IPRanges nsg)"
    using assms unfolding describes_def by blast
  then show ?thesis
    by (auto simp: cloud_group_def GetNasSecurityGroup_def first_item_def bindP_def tryP_def api_def retP_def)
qed

text \<open>The syncer as constructed, with nothing to restore.\<close>

definition settled :: "syncer \<Rightarrow> bool" where
  "settled s \<longleftrightarrow> SyncPeriod s = 30 \<and> internalChkIntvl s = 300 \<and> cloudChkIntvl s = 3600 \<and> \<not> restoreClusterID s"

lemma extends_settled: "extends C s t \<Longrightarrow> settled t = settled s \<and> hasTask t = hasTask s"
  by (auto simp: extends_def settled_def)

text \<open>What the preparation finds: the group as the history left it.\<close>

definition finds ::
  "senv \<Rightarrow> string list \<Rightarrow> string \<Rightarrow> string list \<Rightarrow> history \<Rightarrow> (string \<times> string list \<times> ranges) option \<Rightarrow> bool" where
  "finds E ips g A h x \<longleftrightarrow> (\<exists>ranges. x = Some (g, ips, ranges) \<and> calm E g ranges \<and>
     fst ` set ranges = Some ` set (granted g A h))"

lemma check_group_still:
  assumes "cluster_still E cfg ips inp" and "describes E (snd inp) A" and "settled s"
  shows "\<exists>x t k. check_group E cfg b s = (Ret x, t) \<and> trace t = trace s @ k \<and>
    list_all (\<lambda>c. \<not> ingress c) k \<and> settled t \<and>
    (x = None \<and> \<not> hasTask s \<and> \<not> hasTask t \<or> finds E ips (snd inp) A (trace s) x)"
proof -
  obtain t0 where t0: "observe_cluster E cfg s = (Ret (ips, inp), t0)"
    using observe_still [OF assms(1)] by blast
  obtain c t1 where t1: "internal_check ips inp b t0 = (Ret c, t1)"
    by (cases "internal_check ips inp b t0") (auto simp: internal_check_def split: if_splits)
  obtain nsg t2 where t2: "cloud_group E inp t1 = (Ret (Some nsg), t2)"
      "fst ` set (sg_IPRanges nsg) = Some ` set (granted (snd inp) A (trace t1))" "calm E (snd inp) (sg_IPRanges nsg)"
    using cloud_group_still [OF assms(2)] by blast
  have e0: "extends (\<lambda>c. \<not> ingress c) s t0" by (rule keepsD [OF keeps_observe_cluster t0])
  have e2: "extends (\<lambda>c. \<not> ingress c) t1 t2" by (rule keepsD [OF keeps_cloud_group t2(1)])
  have s1: "settled t1" "trace t1 = trace t0" "\<not> c \<Longrightarrow> \<not> hasTask t1 \<and> \<not> hasTask t0"
    using t1 assms(3) extends_settled [OF e0]
    by (auto simp: internal_check_def settled_def split: if_splits)
  have res: "restore_group E cfg (snd inp) t2 = (Ret (), t2)"
    using s1(1) extends_settled [OF e2]
    by (simp add: restore_group_def bindP_def getP_def retP_def settled_def)
  have run: "check_group E cfg b s =
      (if \<not> c then (Ret None, t1) else (Ret (Some (snd inp, ips, sg_IPRanges nsg)), t2))"
    by (simp add: check_group_def bindP_def [of "observe_cluster E cfg"] t0 bindP_def [of "internal_check _ _ _"] t1
        retP_def bindP_def [of "cloud_group _ _"] t2(1) bindP_def [of "restore_group _ _ _"] res derefP_def bindP_def [of "derefP _"])
  obtain k0 where k0: "trace t1 = trace s @ k0" "list_all (\<lambda>c. \<not> ingress c) k0"
    using e0 s1(2) by (auto simp: extends_def)
  obtain k2 where k2: "trace t2 = trace s @ k2" "list_all (\<lambda>c. \<not> ingress c) k2"
    using e2 k0 by (auto simp: extends_def)
  show ?thesis
    using run k0 k2 s1 extends_settled [OF e0] extends_settled [OF e2] t2
    by (cases c) (auto simp: granted_keeps finds_def)
qed

lemma sync_prepare_still:
  assumes "cluster_still E cfg ips inp" and "describes E (snd inp) A" and "settled s"
  shows "\<exists>x t k. sync_prepare E cfg s = (Ret x, t) \<and> trace t = trace s @ k \<and>
    list_all (\<lambda>c. \<not> ingress c) k \<and> settled t \<and>
    (x = None \<and> \<not> hasTask s \<and> \<not> hasTask t \<or> finds E ips (snd inp) A (trace s) x)"
proof -
  let ?s0 = "s\<lparr>trace := trace s @ [ReadClock]\<rparr>" and ?p = "clock E (trace s) sdiv 30"
  obtain b1 where b1: "\<And>u :: syncer. due ?p 300 30 u = (Ret b1, u)"
    by (simp add: due_def quoP_def remP_def bindP_def retP_def signed_divide_int_def)
  obtain b2 where b2: "\<And>u :: syncer. due ?p 3600 30 u = (Ret b2, u)"
    by (simp add: due_def quoP_def remP_def bindP_def retP_def signed_divide_int_def)
  have fields: "SyncPeriod s = 30" "internalChkIntvl s = 300" "cloudChkIntvl s = 3600" "settled ?s0"
    using assms(3) by (simp_all add: settled_def)
  have prep: "sync_prepare E cfg s =
      (if \<not> hasTask s \<and> \<not> b1 \<and> \<not> b2 then (Ret None, ?s0) else check_group E cfg b2 ?s0)"
    by (simp add: sync_prepare_def bindP_def [of "api ReadClock _"] api_def bindP_def [of "getP _"] getP_def
        bindP_def [of "quoP _ _"] quoP_def retP_def bindP_def [of "due _ _ _"] b1 b2 fields)
  have clock: "granted (snd inp) A (trace s @ [ReadClock]) = granted (snd inp) A (trace s)"
    by (simp add: granted_keeps)
  show ?thesis
  proof (cases "\<not> hasTask s \<and> \<not> b1 \<and> \<not> b2")
    case True
    then show ?thesis using prep fields(4) by auto
  next
    case False
    then show ?thesis
      using prep check_group_still [OF assms(1,2) fields(4), of b2]
      by (auto simp: finds_def clock)
  qed
qed

section \<open>Convergence\<close>

definition distance :: "string set \<Rightarrow> string set \<Rightarrow> nat" where
  "distance W G = card (W - G) + card (G - W)"

lemma right_change_distance:
  assumes "right_change g ips ranges c" and "fst ` set ranges = Some ` G" and "finite G"
    and "W = (\<lambda>ip. ip @ ''/32'') ` set ips" and "set A = G"
  shows "distance W G = Suc (distance W (set (granted g A [c])))"
proof -
  have adm: "admits ranges x \<longleftrightarrow> x \<in> G" for x
    using assms(2) unfolding admits_def by (metis (mono_tags, lifting) image_iff option.inject)
  have W: "finite W" using assms(4) by simp
  have "(\<exists>x. c = AuthorizeIngress g x \<and> x \<in> W \<and> x \<notin> G) \<or> (\<exists>x. c = RevokeIngress g x \<and> x \<in> G \<and> x \<notin> W)"
    using assms(1) unfolding right_change_def
  proof (elim conjE disjE)
    assume "\<exists>ip \<in> set ips. c = AuthorizeIngress g (ip @ ''/32'') \<and> \<not> admits ranges (ip @ ''/32'')"
    then obtain ip where ip: "ip \<in> set ips" "c = AuthorizeIngress g (ip @ ''/32'')" "ip @ ''/32'' \<notin> G"
      using adm by auto
    then have "ip @ ''/32'' \<in> W" using assms(4) by simp
    then show ?thesis using ip by simp
  next
    assume "\<exists>aip \<in> set ranges. c = RevokeIngress g (pstr (fst aip)) \<and>
        (\<forall>ip \<in> set ips. admits ranges (ip @ ''/32'') \<and> fst aip \<noteq> Some (ip @ ''/32''))"
    then obtain aip where aip: "aip \<in> set ranges" "c = RevokeIngress g (pstr (fst aip))"
      "\<forall>ip \<in> set ips. fst aip \<noteq> Some (ip @ ''/32'')" by blast
    then obtain x where "fst aip = Some x" "x \<in> G" using assms(2) by blast
    then have "c = RevokeIngress g x" "x \<notin> W" using aip(2,3) assms(4) by (auto simp: pstr_def)
    then show ?thesis using \<open>x \<in> G\<close> by simp
  qed
  then consider (grant) x where "c = AuthorizeIngress g x" "x \<in> W" "x \<notin> G"
    | (revoke) x where "c = RevokeIngress g x" "x \<in> G" "x \<notin> W" by blast
  then show ?thesis
  proof cases
    case grant
    have "W - insert x G = (W - G) - {x}" by blast
    moreover have "insert x G - W = G - W" using grant(2) by blast
    moreover have "card (W - G) = Suc (card ((W - G) - {x}))"
      using grant(2,3) W by (intro card.remove) simp_all
    moreover have "set (granted g A [c]) = insert x G" using grant(1) assms(5) by simp
    ultimately show ?thesis by (simp add: distance_def)
  next
    case revoke
    have "W - (G - {x}) = W - G" using revoke(3) by blast
    moreover have "(G - {x}) - W = (G - W) - {x}" by blast
    moreover have "card (G - W) = Suc (card ((G - W) - {x}))"
      using revoke(2,3) assms(3) by (intro card.remove) simp_all
    moreover have "set (granted g A [c]) = G - {x}" using revoke(1) assms(5) by simp
    ultimately show ?thesis by (simp add: distance_def)
  qed
qed

lemma in_step_admits:
  assumes "in_step ips ranges \<or> W = G" and "fst ` set ranges = Some ` G"
    and "W = (\<lambda>ip. ip @ ''/32'') ` set ips"
  shows "W = G \<and> (\<forall>c. \<not> right_change g ips ranges c)"
proof -
  have adm: "admits ranges x \<longleftrightarrow> x \<in> G" for x
    using assms(2) unfolding admits_def by (metis (mono_tags, lifting) image_iff option.inject)
  have mem: "fst aip = Some x \<Longrightarrow> aip \<in> set ranges \<Longrightarrow> x \<in> G" for aip x
    using adm unfolding admits_def by blast
  have "W = G"
  proof (cases "W = G")
    case False
    then have step: "in_step ips ranges" using assms(1) by blast
    have "W \<subseteq> G" using step adm assms(3) unfolding in_step_def by blast
    moreover have "x \<in> W" if "x \<in> G" for x
    proof -
      have "Some x \<in> fst ` set ranges" using assms(2) that by blast
      then show ?thesis using step assms(3) unfolding in_step_def by fastforce
    qed
    ultimately show ?thesis by blast
  qed
  moreover have "\<not> right_change g ips ranges c" for c
  proof
    assume rc: "right_change g ips ranges c"
    have "\<exists>x. fst aip = Some x \<and> x \<in> W" if "aip \<in> set ranges" for aip
      using that assms(2) \<open>W = G\<close> by blast
    then show False using rc adm \<open>W = G\<close> assms(3) unfolding right_change_def by blast
  qed
  ultimately show ?thesis by blast
qed

text \<open>One synchronization of a still cluster and group.\<close>

lemma sync_step:
  assumes "order_contract E" and "cluster_still E cfg ips inp" and "describes E (snd inp) A"
    and "settled s" and "W = (\<lambda>ip. ip @ ''/32'') ` set ips"
  defines "G \<equiv> \<lambda>s. set (granted (snd inp) A (trace s))" and "t \<equiv> snd (SyncNasSecurityGroups E cfg s)"
  shows "settled t \<and> (G s = W \<longrightarrow> G t = W \<and> \<not> hasTask t) \<and>
    (G s \<noteq> W \<and> hasTask s \<longrightarrow> hasTask t \<and> distance W (G s) = Suc (distance W (G t)))"
proof -
  obtain x u k where u: "sync_prepare E cfg s = (Ret x, u)" "trace u = trace s @ k"
      "list_all (\<lambda>c. \<not> ingress c) k" "settled u"
      "x = None \<and> \<not> hasTask s \<and> \<not> hasTask u \<or> finds E ips (snd inp) A (trace s) x"
    using sync_prepare_still [OF assms(2,3,4)] by blast
  have Gu: "G u = G s" unfolding G_def u(2) by (simp add: granted_keeps u(3))
  show ?thesis
  proof (cases x)
    case None
    then have "t = u" "\<not> hasTask s" "\<not> hasTask u"
      using u(1,5) by (auto simp: t_def SyncNasSecurityGroups_def bindP_def retP_def finds_def)
    then show ?thesis using u(4) Gu by auto
  next
    case (Some y)
    then obtain ranges where x: "x = Some (snd inp, ips, ranges)" "calm E (snd inp) ranges"
        "fst ` set ranges = Some ` G s"
      using u(5) unfolding finds_def G_def by auto
    obtain r where run: "sync_ranges E (snd inp) ips ranges u = (r, t)"
      using u(1) x(1) by (cases "sync_ranges E (snd inp) ips ranges u")
        (simp add: t_def SyncNasSecurityGroups_def bindP_def)
    show ?thesis
    proof (cases "in_step ips ranges \<or> W = G s")
      case True
      then have WG: "W = G s" "\<And>c. \<not> right_change (snd inp) ips ranges c"
        using in_step_admits [OF _ x(3) assms(5)] by blast+
      then have "t = u\<lparr>hasTask := False\<rparr>"
        using sync_ranges_run [OF assms(1) run] x(2) unfolding moved_def by blast
      then show ?thesis using WG(1) Gu u(4) by (auto simp: settled_def G_def)
    next
      case False
      then obtain c where c: "t = u\<lparr>hasTask := True, trace := trace u @ [c]\<rparr>" "right_change (snd inp) ips ranges c"
        using sync_ranges_run [OF assms(1) run] x(2) unfolding moved_def by blast
      have "distance W (G s) = Suc (distance W (G t))"
        using right_change_distance [OF c(2) x(3) _ assms(5), of "granted (snd inp) A (trace u)"] Gu c(1)
        by (simp add: G_def granted_append)
      then show ?thesis using False c(1) u(4) by (auto simp: settled_def)
    qed
  qed
qed

lemma sync_rounds:
  assumes "order_contract E" and "cluster_still E cfg ips inp" and "describes E (snd inp) A"
    and "W = (\<lambda>ip. ip @ ''/32'') ` set ips"
  shows "settled s \<Longrightarrow> hasTask s \<or> set (granted (snd inp) A (trace s)) = W \<Longrightarrow>
    distance W (set (granted (snd inp) A (trace s))) < n \<Longrightarrow>
    t = ((\<lambda>s. snd (SyncNasSecurityGroups E cfg s)) ^^ n) s \<Longrightarrow>
    set (granted (snd inp) A (trace t)) = W \<and> \<not> hasTask t"
proof (induction n arbitrary: s)
  case (Suc n)
  let ?u = "snd (SyncNasSecurityGroups E cfg s)"
  have t: "t = ((\<lambda>s. snd (SyncNasSecurityGroups E cfg s)) ^^ n) ?u"
    using Suc.prems(4) by (simp only: funpow_Suc_right comp_apply)
  note step = sync_step [OF assms(1-3) Suc.prems(1) assms(4)]
  show ?case
  proof (cases "n = 0 \<or> distance W (set (granted (snd inp) A (trace ?u))) \<ge> n")
    case False
    then show ?thesis using Suc.IH [OF _ _ _ t] step Suc.prems(2) by auto
  next
    case True
    have reached: "set (granted (snd inp) A (trace s)) = W"
    proof (rule ccontr)
      assume ne: "set (granted (snd inp) A (trace s)) \<noteq> W"
      then have "distance W (set (granted (snd inp) A (trace s))) = Suc (distance W (set (granted (snd inp) A (trace ?u))))"
        using step Suc.prems(2) by blast
      then show False using True Suc.prems(3) by auto
    qed
    show ?thesis
    proof (cases n)
      case 0
      then show ?thesis using t step reached by auto
    next
      case (Suc m)
      have "distance W (set (granted (snd inp) A (trace ?u))) = 0"
        using step reached by (simp add: distance_def)
      then show ?thesis using Suc.IH [OF _ _ _ t] step reached Suc by auto
    qed
  qed
qed simp


section \<open>A cluster with one node\<close>

definition sync_config :: config where
  "sync_config = \<lparr>cfg_Name = ''nas'', cfg_Version = ''v1'', cfg_NodeID = '''', cfg_RunController = True,
     cfg_RunNode = False, cfg_RestoreClstID = False, cfg_ClusterUID = '''', cfg_Region = ''jp-east-1'', cfg_DevEp = '''',
     cfg_PrivateIfName = ''ens192'', cfg_PrivateIPReg = False, cfg_Configurator = True, cfg_Hatoba = False,
     cfg_CidrBlkRcmd = False, cfg_CfgSnapRepo = False,
     cfg_DefaultSnapEndpoint = ''jp-east-2.storage.api.nifcloud.com''\<rparr>"

definition sync_node :: CSINode where
  "sync_node = \<lparr>csn_name = ''n1'', csn_drivers = [''nas''],
     csn_annotations = Some [(''nas/privateIp'', ''10.0.0.1'')]\<rparr>"

definition sync_class :: StorageClass where
  "sync_class = \<lparr>sc_name = ''std'', sc_provisioner = ''nas'',
     sc_parameters = Some [(''zone'', ''east-11'')]\<rparr>"

definition sync_env :: senv where
  "sync_env = quiet_env\<lparr>listCSINodes := \<lambda>h. Inr [sync_node],
     listStorageClasses := \<lambda>h. Inr [sync_class],
     getNamespace := \<lambda>h n. Inr ''uid'',
     describeNsg := \<lambda>h g. Inr [\<lparr>sg_IPRanges =
       map (\<lambda>c. (Some c, Some ''authorized'')) (granted g [''10.0.0.9/32''] h)\<rparr>],
     authorizeNsg := \<lambda>h g c. Inr None, revokeNsg := \<lambda>h g c. Inr None\<rparr>"

lemma sync_env_still:
  "order_contract sync_env" "cluster_still sync_env sync_config [''10.0.0.1''] (''east-11'', ''cluster-uid'')"
  "describes sync_env ''cluster-uid'' [''10.0.0.9/32'']"
proof -
  show "order_contract sync_env" by (simp add: order_contract_def sync_env_def)
  have "node_private_ips sync_config [sync_node] = [''10.0.0.1'']"
    by (simp add: node_private_ips_def sync_config_def sync_node_def csn_annotation_def param_def pstr_def)
  moreover have "group_input sync_config ''cluster-uid''
      [sync_class] = Some (''east-11'', ''cluster-uid'')"
    by (simp add: group_input_def sync_config_def sync_class_def sc_param_def param_def pstr_def)
  ultimately show "cluster_still sync_env sync_config [''10.0.0.1''] (''east-11'', ''cluster-uid'')"
    unfolding cluster_still_def by (fastforce simp: sync_env_def sync_config_def)
  show "describes sync_env ''cluster-uid'' [''10.0.0.9/32'']"
    by (simp add: describes_def calm_def sync_env_def image_image)
qed


theorem sync_changes_one_range_witness:
  "\<exists>k. list_all (\<lambda>c. \<not> ingress c) k \<and>
     (trace (snd (SyncNasSecurityGroups sync_env sync_config (newNSGSyncer sync_config []))) = k \<or>
      (\<exists>c. trace (snd (SyncNasSecurityGroups sync_env sync_config (newNSGSyncer sync_config []))) = k @ [c]))"
proof -
  obtain r t where run: "SyncNasSecurityGroups sync_env sync_config (newNSGSyncer sync_config []) = (r, t)"
    by (cases "SyncNasSecurityGroups sync_env sync_config (newNSGSyncer sync_config [])")
  have "trace (newNSGSyncer sync_config []) = []" by (simp add: newNSGSyncer_def)
  then show ?thesis
    unfolding run snd_conv using sync_changes_one_range [OF sync_env_still(1) run] by fastforce
qed

end
