(* ===== verification/CidrDivide.thy ===== *)
theory CidrDivide
  imports Cidr
begin

text \<open>
  What the CIDR utilities guarantee: the parts of a divided network are consecutive
  intervals that cover it, an address range meets a part exactly when \<open>isDevInRange\<close> says
  so, and each drop removes exactly the parts in use. The two drops share the contract
  \<open>div_filter\<close>, from which the result of any sequence of drops follows.
\<close>

unbundle bit_operations_syntax

section \<open>Division\<close>

lemma byte_ones_mask:
  assumes "k < 8"
  shows "byte_ones 8 (NOT (drop_bit k 255)) = Some k" and "NOT (drop_bit k (255 :: byte)) \<noteq> 255"
proof -
  have "\<forall>k \<in> set [0..<8]. byte_ones 8 (NOT (drop_bit k 255)) = Some k \<and>
      NOT (drop_bit k (255 :: byte)) \<noteq> 255"
    by code_simp
  then show "byte_ones 8 (NOT (drop_bit k 255)) = Some k" and "NOT (drop_bit k (255 :: byte)) \<noteq> 255"
    using assms by auto
qed

lemma simpleMaskLength_cidr: "n \<le> 8 * l \<Longrightarrow> simpleMaskLength (cidr_bytes l n) = Some n"
proof (induction l n rule: cidr_bytes.induct)
  case (1 n)
  then show ?case by simp
next
  case (2 l n)
  show ?case
  proof (cases "8 \<le> n")
    case True
    with 2 show ?thesis by simp
  next
    case False
    then have "n < 8" by simp
    with byte_ones_mask [OF this] show ?thesis by (simp add: list_all_iff)
  qed
qed

lemma mask_Size_net4: "net4 d n \<Longrightarrow> mask_Size (net_Mask d) = (int n, 32)"
  using simpleMaskLength_cidr [of n 4] by (auto simp: net4_def mask_Size_def)

text \<open>\<open>ds\<close> are consecutive networks with masks of \<open>n\<close> ones, the first at number \<open>v\<close>.\<close>

definition consecutive :: "nat \<Rightarrow> nat \<Rightarrow> IPNet list \<Rightarrow> bool" where
  "consecutive n v ds \<longleftrightarrow>
     (\<forall>i < length ds. net4 (ds ! i) n \<and> net_lo (ds ! i) n = v + i * 2 ^ (32 - n))"

lemma consecutive_Cons:
  "consecutive n v (d # ds) \<longleftrightarrow>
    net4 d n \<and> net_lo d n = v \<and> consecutive n (v + 2 ^ (32 - n)) ds"
  unfolding consecutive_def
  by (auto simp: nth_Cons less_Suc_eq_0_disj algebra_simps split: nat.splits)

lemma div_loop_consecutive:
  assumes "n \<le> 32" "length start = 4" "ipval start mod 2 ^ (32 - n) = 0"
    and "ipval start + k * 2 ^ (32 - n) \<le> 256 ^ 4"
  shows "length (div_loop k start (cidr_bytes 4 n)) = k \<and>
    consecutive n (ipval start) (div_loop k start (cidr_bytes 4 n))"
  using assms
proof (induction k arbitrary: start)
  case 0
  then show ?case by (simp add: consecutive_def)
next
  case (Suc k)
  define d where "d = \<lparr>net_IP = start, net_Mask = cidr_bytes 4 n\<rparr>"
  define p where "p = (2 :: nat) ^ (32 - n)"
  have p: "p \<ge> 1" by (simp add: p_def)
  have d4: "net4 d n" using Suc.prems by (simp add: net4_def d_def)
  have lo: "net_lo d n = ipval start"
    using Suc.prems(3) by (auto simp: net_lo_def d_def elim: dvdE simp flip: dvd_eq_mod_eq_0)
  have step: "ipval (incIP (endIP d)) = (ipval start + p) mod 256 ^ 4"
    using ipval_incIP [of "endIP d"] ipval_endIP [OF d4] length_endIP [OF d4] lo p
    by (simp add: p_def)
  show ?case
  proof (cases k)
    case 0
    then show ?thesis using d4 lo by (simp add: d_def consecutive_Cons) (simp add: consecutive_def)
  next
    case (Suc k')
    then have "ipval start + p < 256 ^ 4"
      using Suc.prems(4) p by (simp add: p_def [symmetric])
    then have nxt: "ipval (incIP (endIP d)) = ipval start + p" using step by simp
    have "ipval start + p + k * p \<le> 256 ^ 4"
      using Suc.prems(4) by (simp add: p_def [symmetric] algebra_simps)
    then have "length (div_loop k (incIP (endIP d)) (cidr_bytes 4 n)) = k \<and>
        consecutive n (ipval (incIP (endIP d))) (div_loop k (incIP (endIP d)) (cidr_bytes 4 n))"
      using Suc.prems length_endIP [OF d4] nxt
      by (intro Suc.IH) (simp_all add: p_def mod_add_left_eq [symmetric] algebra_simps)
    then show ?thesis using d4 lo nxt by (simp add: consecutive_Cons d_def p_def Let_def)
  qed
qed

lemma divideNet_net4:
  assumes "net4 cidr n" "0 < off" "n + off \<le> 32"
  obtains ds where "divideNet cidr (int off) = Inr ds" "length ds = 2 ^ off"
    "consecutive (n + off) (net_lo cidr n) ds"
proof -
  have "(2 :: int) ^ off \<le> 2 ^ 32" using assms(3) by (intro power_increasing) auto
  then have "(2 :: int) ^ off < 2 ^ 63" by simp
  moreover have "- (2 ^ 63) \<le> (2 :: int) ^ off" by (rule order_trans [of _ 0]) simp_all
  ultimately have "in_i64 (2 ^ off)" unfolding in_i64_def by (intro conjI)
  then have wrap: "i64 (2 ^ off) = 2 ^ off" by (rule i64_id)
  let ?ds = "div_loop (2 ^ off) (startIP cidr) (cidr_bytes 4 (n + off))"
  have "CIDRMask (int n + int off) 32 = cidr_bytes 4 (n + off)"
    using CIDRMask_simps(1) [OF assms(3)] by simp
  then have div: "divideNet cidr (int off) = Inr ?ds"
    using assms wrap mask_Size_net4 [OF assms(1)] by (simp add: divideNet_def nat_power_eq)
  have sz: "(2 :: nat) ^ (32 - n) = 2 ^ off * 2 ^ (32 - (n + off))"
    using assms(3) by (simp flip: power_add)
  have lo: "ipval (startIP cidr) = net_lo cidr n" by (rule ipval_startIP [OF assms(1)])
  have hi: "net_lo cidr n + 2 ^ (32 - n) \<le> 256 ^ 4"
    using ipval_endIP [OF assms(1)] ipval_less [of "endIP cidr"] length_endIP [OF assms(1)] by simp
  have "ipval (startIP cidr) mod 2 ^ (32 - (n + off)) = 0"
    unfolding lo net_lo_def sz by simp
  moreover have "ipval (startIP cidr) + 2 ^ off * 2 ^ (32 - (n + off)) \<le> 256 ^ 4"
    using hi lo sz by simp
  ultimately have "length ?ds = 2 ^ off \<and> consecutive (n + off) (ipval (startIP cidr)) ?ds"
    using assms(3) length_startIP [OF assms(1)] by (intro div_loop_consecutive) simp_all
  then show thesis using that [OF div] lo by simp
qed

text \<open>An address of \<open>consecutive\<close> networks is in exactly one of them.\<close>

lemma consecutive_nth:
  assumes "consecutive n v ds" "i < length ds" "length ip = 4"
  shows "net_Contains (ds ! i) ip \<longleftrightarrow>
    v + i * 2 ^ (32 - n) \<le> ipval ip \<and> ipval ip < v + i * 2 ^ (32 - n) + 2 ^ (32 - n)"
  using assms net_Contains_interval [of "ds ! i" n ip] by (simp add: consecutive_def)

lemma consecutive_partition:
  assumes "consecutive n v ds" "length ip = 4"
  shows "(\<exists>!i. i < length ds \<and> net_Contains (ds ! i) ip) \<longleftrightarrow>
    v \<le> ipval ip \<and> ipval ip < v + length ds * 2 ^ (32 - n)"
    and "(\<exists>i. i < length ds \<and> net_Contains (ds ! i) ip) \<longleftrightarrow>
    v \<le> ipval ip \<and> ipval ip < v + length ds * 2 ^ (32 - n)"
proof -
  define p where "p = (2 :: nat) ^ (32 - n)"
  have p: "0 < p" by (simp add: p_def)
  define x where "x = ipval ip"
  have iff: "net_Contains (ds ! i) ip \<longleftrightarrow> v \<le> x \<and> (x - v) div p = i" if "i < length ds" for i
  proof -
    have "v + i * p \<le> x \<and> x < v + i * p + p \<longleftrightarrow> v \<le> x \<and> (x - v) div p = i"
      using p by (auto simp: div_nat_eqI dividend_less_div_times algebra_simps
          intro: div_nat_eqI)
        (metis add.commute le_diff_conv2 mult.commute div_times_less_eq_dividend,
          metis (no_types, lifting) add.commute add.left_commute dividend_less_div_times
            le_add_diff_inverse mult.commute nat_add_left_cancel_less)
    then show ?thesis
      using consecutive_nth [OF assms(1) that assms(2)] by (simp add: p_def x_def)
  qed
  have bound: "v \<le> x \<Longrightarrow> x < v + length ds * p \<longleftrightarrow> (x - v) div p < length ds"
    using p by (simp add: div_less_iff_less_mult less_diff_conv2 add.commute)
  show "(\<exists>i. i < length ds \<and> net_Contains (ds ! i) ip) \<longleftrightarrow>
      v \<le> ipval ip \<and> ipval ip < v + length ds * 2 ^ (32 - n)"
    using iff bound by (auto simp flip: x_def p_def)
  show "(\<exists>!i. i < length ds \<and> net_Contains (ds ! i) ip) \<longleftrightarrow>
      v \<le> ipval ip \<and> ipval ip < v + length ds * 2 ^ (32 - n)"
    using iff bound by (auto simp flip: x_def p_def)
qed

section \<open>Parts in use\<close>

text \<open>
  Addresses of both lengths are compared as 16 bytes, where an IPv4 address stands for its
  mapped form; \<open>val16\<close> is that number and \<open>mapped\<close> the number of the mapped 0.0.0.0.
\<close>

definition val16 :: "IP \<Rightarrow> nat" where
  "val16 ip = ipval (To16 ip)"

definition mapped :: nat where
  "mapped = ipval v4InV6Prefix * 256 ^ 4"

lemma val16_4: "length ip = 4 \<Longrightarrow> val16 ip = mapped + ipval ip"
  by (simp add: val16_def mapped_def To16_len4 ipval_append)

lemma compare_bytes_val:
  "length a = length b \<Longrightarrow> compare_bytes a b =
    (if ipval a < ipval b then 1 else if ipval a > ipval b then - 1 else 0)"
proof (induction a b rule: list_induct2)
  case Nil
  then show ?case by simp
next
  case (Cons x xs y ys)
  have l: "ipval xs < 256 ^ length xs" "ipval ys < 256 ^ length xs"
    using ipval_less [of xs] ipval_less [of ys] Cons.hyps by simp_all
  have gap: "unat u * 256 ^ length xs + a < unat w * 256 ^ length xs + b"
    if "u < w" "a < 256 ^ length xs" for u w :: byte and a b :: nat
  proof -
    have "unat u + 1 \<le> unat w" using that(1) by (simp add: word_less_nat_alt)
    then have "(unat u + 1) * 256 ^ length xs \<le> unat w * 256 ^ length xs" by (rule mult_le_mono1)
    then show ?thesis using that(2) by simp
  qed
  consider "x < y" | "y < x" | "x = y" by fastforce
  then show ?case
  proof cases
    case 1
    then show ?thesis using gap [of x y "ipval xs" "ipval ys"] l Cons.hyps by simp
  next
    case 2
    then show ?thesis using gap [of y x "ipval ys" "ipval xs"] l Cons.hyps by (simp add: not_less_iff_gr_or_eq)
  next
    case 3
    then show ?thesis using Cons by simp
  qed
qed

lemma net_Contains_16:
  assumes "net4 d n" "length x = 16"
  shows "net_Contains d x \<longleftrightarrow>
    mapped + net_lo d n \<le> val16 x \<and> val16 x < mapped + net_lo d n + 2 ^ (32 - n)"
proof -
  have x: "ipval x = ipval (take 12 x) * 256 ^ 4 + ipval (drop 12 x)"
    using ipval_append [of "take 12 x" "drop 12 x"] assms(2) by simp
  have low: "ipval (drop 12 x) < 256 ^ 4" using ipval_less [of "drop 12 x"] assms(2) by simp
  show ?thesis
  proof (cases "take 12 x = v4InV6Prefix")
    case True
    then have "To4 x = drop 12 x" "length (drop 12 x) = 4"
      using assms(2) by (auto simp: To4_def)
    then show ?thesis
      using net_Contains_net4 [OF assms(1), of x] div_eq_interval True x assms(2)
      by (simp add: net_lo_def val16_def To16_def mapped_def)
  next
    case False
    have hi: "net_lo d n + 2 ^ (32 - n) \<le> 256 ^ 4"
      using ipval_endIP [OF assms(1)] ipval_less [of "endIP d"] length_endIP [OF assms(1)] by simp
    have "ipval (take 12 x) \<noteq> ipval v4InV6Prefix"
      using False assms(2) by (simp add: ipval_inject)
    moreover have "ipval (take 12 x) = ipval v4InV6Prefix"
      if "mapped \<le> ipval x" "ipval x < mapped + 256 ^ 4"
    proof -
      have "ipval x div 256 ^ 4 = ipval v4InV6Prefix"
        using that by (intro div_nat_eqI) (simp_all add: mapped_def)
      moreover have "ipval x div 256 ^ 4 = ipval (take 12 x)" using x low by simp
      ultimately show ?thesis by simp
    qed
    ultimately have "\<not> (mapped + net_lo d n \<le> val16 x \<and> val16 x < mapped + net_lo d n + 2 ^ (32 - n))"
      using hi assms(2) by (auto simp: val16_def To16_def)
    moreover have "\<not> net_Contains d x"
      using False assms(2) by (intro net_Contains_net4_long [OF assms(1)]) (simp add: To4_def)
    ultimately show ?thesis by simp
  qed
qed

text \<open>What \<open>isDevInRange\<close> computes: the range meets the network.\<close>

lemma isDevInRange_iff:
  assumes "net4 d n" "length a = 16" "length b = 16" "val16 a \<le> val16 b"
  shows "isDevInRange a b d \<longleftrightarrow>
    val16 a < mapped + net_lo d n + 2 ^ (32 - n) \<and> mapped + net_lo d n \<le> val16 b"
proof -
  have s: "val16 (startIP d) = mapped + net_lo d n"
    using val16_4 [OF length_startIP [OF assms(1)]] ipval_startIP [OF assms(1)] by simp
  have e: "val16 (endIP d) = mapped + net_lo d n + 2 ^ (32 - n) - 1"
  proof -
    have "(1 :: nat) \<le> 2 ^ (32 - n)" by simp
    then show ?thesis
      using val16_4 [OF length_endIP [OF assms(1)]] ipval_endIP [OF assms(1)] by linarith
  qed
  have one: "(1 :: nat) \<le> 2 ^ (32 - n)" by simp
  have "compareIP a (startIP d) > 0 \<longleftrightarrow> val16 a < mapped + net_lo d n"
    using s assms(2) length_startIP [OF assms(1)]
    by (simp add: compareIP_def compare_bytes_val To16_def val16_def)
  moreover have "compareIP (endIP d) b > 0 \<longleftrightarrow> mapped + net_lo d n + 2 ^ (32 - n) - 1 < val16 b"
    using e assms(3) length_endIP [OF assms(1)]
    by (simp add: compareIP_def compare_bytes_val To16_def val16_def)
  ultimately show ?thesis
    unfolding isDevInRange_def net_Contains_16 [OF assms(1,2)] net_Contains_16 [OF assms(1,3)]
    using assms(4) one by auto
qed

lemma parse6_finish_length:
  "length acc \<le> 16 \<Longrightarrow> (case ell of None \<Rightarrow> True | Some e \<Rightarrow> e \<le> length acc) \<Longrightarrow>
    parse6_finish acc ell = [] \<or> length (parse6_finish acc ell) = 16"
  by (auto simp: parse6_finish_def split: option.splits)

lemma parse6_loop_length:
  "length acc + 2 * k = 16 \<Longrightarrow> (case ell of None \<Rightarrow> True | Some e \<Rightarrow> e \<le> length acc) \<Longrightarrow>
    parse6_loop k acc ell s = [] \<or> length (parse6_loop k acc ell s) = 16"
proof (induction k acc ell s rule: parse6_loop.induct)
  case (1 acc ell s)
  then show ?case using parse6_finish_length [of acc ell] by simp
next
  case (2 k acc ell s)
  show ?case
  proof (cases "xtoi s")
    case None
    then show ?thesis by simp
  next
    case (Some nr)
    then obtain n r where nr: "xtoi s = Some (n, r)" by (cases nr) auto
    define acc' where "acc' = acc @ [word_of_nat (n div 256) :: byte, word_of_nat (n mod 256)]"
    have len: "length acc' + 2 * k = 16" and old: "case ell of None \<Rightarrow> True | Some e \<Rightarrow> e \<le> length acc'"
      using "2.prems" by (auto simp: acc'_def split: option.splits)
    have v4: "parse6_finish (acc @ drop 12 ip4) ell = [] \<or>
        length (parse6_finish (acc @ drop 12 ip4) ell) = 16"
      if "length acc + 4 \<le> 16" "ip4 = parseIPv4 s" "ip4 \<noteq> []" for ip4
      using that parseIPv4_result [of s] "2.prems"
      by (intro parse6_finish_length) (auto split: option.splits)
    have fin: "parse6_finish acc' e = [] \<or> length (parse6_finish acc' e) = 16"
      if "e = ell \<or> e = Some (length acc')" for e
      using that len old by (intro parse6_finish_length) auto
    consider "n > 0xFFFF \<or> take 1 r = ''.''" | "n \<le> 0xFFFF" "take 1 r \<noteq> ''.''" by linarith
    then show ?thesis
    proof cases
      case 1
      then show ?thesis using v4 nr by (auto simp: Let_def)
    next
      case 2
      have rest: "parse6_loop (Suc k) acc ell s =
          (if r = [] then parse6_finish acc' ell
           else if hd r \<noteq> CHR '':'' \<or> length r = 1 then []
           else if hd (tl r) = CHR '':'' then
             (if ell \<noteq> None then []
              else if tl (tl r) = [] then parse6_finish acc' (Some (length acc'))
              else parse6_loop k acc' (Some (length acc')) (tl (tl r)))
           else parse6_loop k acc' ell (tl r))"
        using 2 nr by (simp add: acc'_def Let_def)
      have IH1: "parse6_loop k acc' (Some (length acc')) (tl (tl r)) = [] \<or>
          length (parse6_loop k acc' (Some (length acc')) (tl (tl r))) = 16"
        if "r \<noteq> []" "\<not> (hd r \<noteq> CHR '':'' \<or> length r = 1)" "hd (tl r) = CHR '':''" "ell = None"
          "tl (tl r) \<noteq> []"
        using that 2 nr len
        by (intro "2.IH"(1) [of "(n, r)" n r acc', OF nr]) (auto simp: acc'_def)
      have IH2: "parse6_loop k acc' ell (tl r) = [] \<or> length (parse6_loop k acc' ell (tl r)) = 16"
        if "r \<noteq> []" "\<not> (hd r \<noteq> CHR '':'' \<or> length r = 1)" "hd (tl r) \<noteq> CHR '':''"
        using that 2 nr len old
        by (intro "2.IH"(2) [of "(n, r)" n r acc', OF nr]) (auto simp: acc'_def)
      show ?thesis unfolding rest using fin IH1 IH2 by auto
    qed
  qed
qed

lemma length_ParseIP: "ParseIP s \<noteq> [] \<Longrightarrow> length (ParseIP s) = 16"
proof -
  assume ne: "ParseIP s \<noteq> []"
  have v4: "parseIPv4 s = [] \<or> length (parseIPv4 s) = 16"
    using parseIPv4_result [of s] by auto
  have "parseIPv6 s = [] \<or> length (parseIPv6 s) = 16"
    using parse6_loop_length [of "[]" 8] by (simp add: parseIPv6_def)
  then show ?thesis using ne v4 by (auto simp: ParseIP_def split: option.splits if_splits)
qed

section \<open>Drops\<close>

text \<open>The divisions that remain stay in order: increasing networks with the same mask.\<close>

definition ordered :: "nat \<Rightarrow> IPNet list \<Rightarrow> bool" where
  "ordered n ds \<longleftrightarrow> (\<forall>d \<in> set ds. net4 d n) \<and> sorted_wrt (\<lambda>a b. net_lo a n < net_lo b n) ds"

definition divs_ok :: "CidrDivs \<Rightarrow> bool" where
  "divs_ok d \<longleftrightarrow> (\<exists>n. ordered n (cd_divs d))"

lemma consecutive_ordered: "consecutive n v ds \<Longrightarrow> ordered n ds"
  unfolding ordered_def consecutive_def sorted_wrt_iff_nth_less in_set_conv_nth
  by (auto simp: in_set_conv_nth)

lemma ordered_filter: "ordered n ds \<Longrightarrow> ordered n (filter P ds)"
  by (auto simp: ordered_def intro: sorted_wrt_filter)

lemma ordered_gap:
  assumes "ordered n ds" "i < j" "j < length ds"
  shows "net_lo (ds ! i) n + 2 ^ (32 - n) \<le> net_lo (ds ! j) n"
proof -
  have "net_lo (ds ! i) n < net_lo (ds ! j) n"
    using assms by (auto simp: ordered_def sorted_wrt_iff_nth_less)
  then show ?thesis
    by (simp add: net_lo_def) (metis Suc_leI add.commute mult_Suc mult_le_mono1)
qed

lemma first_index_Some:
  "first_index P xs = Some i \<longleftrightarrow> i < length xs \<and> P (xs ! i) \<and> (\<forall>j < i. \<not> P (xs ! j))"
proof (induction xs arbitrary: i)
  case Nil
  then show ?case by simp
next
  case (Cons x xs)
  then show ?case by (cases i) (auto simp: nth_Cons less_Suc_eq_0_disj split: nat.splits)
qed

lemma first_index_None: "first_index P xs = None \<longleftrightarrow> (\<forall>x \<in> set xs. \<not> P x)"
  by (induction xs) auto

definition scan_inv :: "('a \<Rightarrow> bool) \<Rightarrow> 'a list \<Rightarrow> (nat \<times> nat) option \<Rightarrow> bool" where
  "scan_inv P xs r = (case r of
       None \<Rightarrow> \<forall>x \<in> set xs. \<not> P x
     | Some (f, t) \<Rightarrow> f \<le> t \<and> t < length xs \<and> P (xs ! f) \<and> P (xs ! t) \<and>
         (\<forall>j. j < length xs \<and> P (xs ! j) \<longrightarrow> f \<le> j \<and> j \<le> t))"

lemma range_scan_inv:
  "scan_inv P xs r \<Longrightarrow> scan_inv P (xs @ ds) (range_scan P (length xs) r ds)"
proof (induction ds arbitrary: xs r)
  case Nil
  then show ?case by simp
next
  case (Cons d ds)
  let ?r = "if P d then Some (case r of None \<Rightarrow> (length xs, length xs) | Some (f, t) \<Rightarrow> (f, length xs)) else r"
  have "scan_inv P (xs @ [d]) ?r"
    using Cons.prems
    by (auto simp: scan_inv_def nth_append less_Suc_eq split: option.splits)
  then have "scan_inv P ((xs @ [d]) @ ds) (range_scan P (length (xs @ [d])) ?r ds)" by (rule Cons.IH)
  then show ?case by simp
qed

lemma filter_outside:
  assumes "f \<le> t" "t < length xs"
    and "\<And>j. j < length xs \<Longrightarrow> P (xs ! j) \<longleftrightarrow> f \<le> j \<and> j \<le> t"
  shows "take f xs @ drop (t + 1) xs = filter (\<lambda>x. \<not> P x) xs"
proof -
  have parts: "xs = take f xs @ take (t + 1 - f) (drop f xs) @ drop (t + 1) xs"
  proof -
    have "drop (t + 1 - f) (drop f xs) = drop (t + 1) xs" using assms(1) by simp
    then show ?thesis by (metis append_take_drop_id)
  qed
  have "filter (\<lambda>x. \<not> P x) (take f xs) = take f xs"
    using assms by (auto simp: filter_id_conv in_set_conv_nth)
  moreover have "filter (\<lambda>x. \<not> P x) (take (t + 1 - f) (drop f xs)) = []"
    using assms by (auto simp: filter_empty_conv in_set_conv_nth)
  moreover have "filter (\<lambda>x. \<not> P x) (drop (t + 1) xs) = drop (t + 1) xs"
    using assms by (auto simp: filter_id_conv in_set_conv_nth)
  ultimately show ?thesis by (metis append_Nil filter_append parts)
qed

lemma slices: "slice xs 0 k = take k xs" "slice xs k (length xs) = drop k xs"
  by (simp_all add: slice_def)

lemma dropWithIP_divs:
  assumes "divs_ok d" "ParseIP ipstr \<noteq> []"
  shows "dropWithIP ipstr d =
    Inr (d\<lparr>cd_divs := filter (\<lambda>v. \<not> net_Contains v (ParseIP ipstr)) (cd_divs d)\<rparr>)"
proof -
  obtain n where ord: "ordered n (cd_divs d)" using assms(1) by (auto simp: divs_ok_def)
  define ds where "ds = cd_divs d"
  define ip where "ip = ParseIP ipstr"
  have len: "length ip = 16" using assms(2) by (simp add: ip_def length_ParseIP)
  have in_iff: "net_Contains (ds ! i) ip \<longleftrightarrow> mapped + net_lo (ds ! i) n \<le> val16 ip \<and>
      val16 ip < mapped + net_lo (ds ! i) n + 2 ^ (32 - n)" if "i < length ds" for i
    using that ord len by (intro net_Contains_16) (auto simp: ordered_def ds_def)
  have uniq: "i = j" if "i < length ds" "j < length ds" "net_Contains (ds ! i) ip"
    "net_Contains (ds ! j) ip" for i j
  proof (rule ccontr)
    assume "i \<noteq> j"
    then consider "i < j" | "j < i" by linarith
    then show False
      using that in_iff [OF that(1)] in_iff [OF that(2)] ordered_gap [OF ord, folded ds_def, of i j]
        ordered_gap [OF ord, folded ds_def, of j i] by cases auto
  qed
  show ?thesis
  proof (cases "first_index (\<lambda>v. net_Contains v ip) ds")
    case None
    then have "filter (\<lambda>v. \<not> net_Contains v ip) ds = ds"
      by (simp add: first_index_None filter_id_conv)
    then show ?thesis using None assms(2) by (simp add: dropWithIP_def ds_def ip_def Let_def)
  next
    case (Some i)
    then have i: "i < length ds" "net_Contains (ds ! i) ip" by (auto simp: first_index_Some)
    then have "take i ds @ drop (i + 1) ds = filter (\<lambda>v. \<not> net_Contains v ip) ds"
      using uniq i by (intro filter_outside) (auto dest: uniq [OF i(1) _ i(2)])
    moreover have branch: "(if i = 0 then slice ds 1 (length ds)
        else if i = length ds - 1 then slice ds 0 (length ds - 1)
        else slice ds 0 i @ slice ds (i + 1) (length ds)) = take i ds @ drop (i + 1) ds"
      using i(1) by (auto simp: slices)
    moreover have "dropWithIP ipstr d = Inr (d\<lparr>cd_divs :=
        if i = 0 then slice ds 1 (length ds)
        else if i = length ds - 1 then slice ds 0 (length ds - 1)
        else slice ds 0 i @ slice ds (i + 1) (length ds)\<rparr>)"
      unfolding dropWithIP_def Let_def using Some assms(2) by (simp only: ds_def ip_def option.case if_False)
    ultimately show ?thesis by (simp only: ds_def ip_def)
  qed
qed

lemma dropWithIPRange_divs:
  assumes "divs_ok d" "ParseIP f \<noteq> []" "ParseIP t \<noteq> []" "val16 (ParseIP f) \<le> val16 (ParseIP t)"
  shows "dropWithIPRange f t d =
    Inr (d\<lparr>cd_divs := filter (\<lambda>v. \<not> isDevInRange (ParseIP f) (ParseIP t) v) (cd_divs d)\<rparr>)"
proof -
  obtain n where ord: "ordered n (cd_divs d)" using assms(1) by (auto simp: divs_ok_def)
  define ds where "ds = cd_divs d"
  define P where "P = isDevInRange (ParseIP f) (ParseIP t)"
  define lo where "lo = (\<lambda>i. mapped + net_lo (ds ! i) n)"
  have in_iff: "P (ds ! i) \<longleftrightarrow> val16 (ParseIP f) < lo i + 2 ^ (32 - n) \<and> lo i \<le> val16 (ParseIP t)"
    if "i < length ds" for i
    unfolding P_def lo_def using that ord assms
    by (intro isDevInRange_iff) (auto simp: ordered_def ds_def length_ParseIP)
  have up: "lo i \<le> lo j" if "i \<le> j" "j < length ds" for i j
    using that ordered_gap [OF ord, folded ds_def, of i j] by (cases "i = j") (auto simp: lo_def)
  have "scan_inv P ds (range_scan P 0 None ds)"
    using range_scan_inv [of P "[]" None ds] by (simp add: scan_inv_def)
  then show ?thesis
  proof (cases "range_scan P 0 None ds")
    case None
    then have "filter (\<lambda>v. \<not> P v) ds = ds"
      using \<open>scan_inv P ds _\<close> by (simp add: scan_inv_def filter_id_conv)
    then show ?thesis using None assms(2,3) by (simp add: dropWithIPRange_def ds_def P_def Let_def)
  next
    case (Some ft)
    then obtain a b where ab: "range_scan P 0 None ds = Some (a, b)" by (cases ft) auto
    have sc: "a \<le> b" "b < length ds" "P (ds ! a)" "P (ds ! b)"
      "\<And>j. j < length ds \<Longrightarrow> P (ds ! j) \<Longrightarrow> a \<le> j \<and> j \<le> b"
      using \<open>scan_inv P ds _\<close> ab by (auto simp: scan_inv_def)
    have "P (ds ! j)" if "j < length ds" "a \<le> j" "j \<le> b" for j
      using in_iff [of a] in_iff [of b] in_iff [of j] up [of a j] up [of j b] sc that by linarith
    then have "take a ds @ drop (b + 1) ds = filter (\<lambda>v. \<not> P v) ds"
      using sc by (intro filter_outside) blast+
    moreover have "(if a = 0 then slice ds (b + 1) (length ds)
        else if a = length ds - 1 then slice ds 0 (length ds - 1)
        else slice ds 0 a @ slice ds (b + 1) (length ds)) = take a ds @ drop (b + 1) ds"
      using sc(1,2) by (auto simp: slices)
    moreover have "dropWithIPRange f t d = Inr (d\<lparr>cd_divs :=
        if a = 0 then slice ds (b + 1) (length ds)
        else if a = length ds - 1 then slice ds 0 (length ds - 1)
        else slice ds 0 a @ slice ds (b + 1) (length ds)\<rparr>)"
      unfolding dropWithIPRange_def Let_def using ab assms(2,3)
      by (simp only: ds_def P_def option.case prod.case if_False)
    ultimately show ?thesis by (simp only: ds_def P_def)
  qed
qed

section \<open>Sequences of drops\<close>

text \<open>\<open>for _, q := range qs { err = op(q); if err != nil { return err } }\<close>\<close>

fun each_drop :: "('q \<Rightarrow> CidrDivs \<Rightarrow> gerror + CidrDivs) \<Rightarrow> 'q list \<Rightarrow> CidrDivs \<Rightarrow> gerror + CidrDivs" where
  "each_drop f [] d = Inr d"
| "each_drop f (q # qs) d = (case f q d of Inl e \<Rightarrow> Inl e | Inr d' \<Rightarrow> each_drop f qs d')"

locale div_filter =
  fixes drop_op :: "'q \<Rightarrow> CidrDivs \<Rightarrow> gerror + CidrDivs"
    and wf_arg :: "'q \<Rightarrow> bool"
    and used :: "'q \<Rightarrow> IPNet \<Rightarrow> bool"
  assumes drop_divs: "divs_ok d \<Longrightarrow> wf_arg q \<Longrightarrow> drop_op q d = Inr e \<Longrightarrow>
      e = d\<lparr>cd_divs := filter (\<lambda>v. \<not> used q v) (cd_divs d)\<rparr>"
begin

lemma drop_ok: "divs_ok d \<Longrightarrow> wf_arg q \<Longrightarrow> drop_op q d = Inr e \<Longrightarrow> divs_ok e"
  using drop_divs [of d q e] ordered_filter unfolding divs_ok_def by fastforce

lemma each_drop_divs:
  assumes "divs_ok d" "\<forall>q \<in> set qs. wf_arg q" "each_drop drop_op qs d = Inr e"
  shows "e = d\<lparr>cd_divs := filter (\<lambda>v. \<forall>q \<in> set qs. \<not> used q v) (cd_divs d)\<rparr> \<and> divs_ok e"
  using assms
proof (induction qs arbitrary: d)
  case Nil
  then show ?case by simp
next
  case (Cons q qs)
  then obtain d' where d': "drop_op q d = Inr d'" "each_drop drop_op qs d' = Inr e"
    by (auto split: sum.splits)
  have d: "d' = d\<lparr>cd_divs := filter (\<lambda>v. \<not> used q v) (cd_divs d)\<rparr>" "divs_ok d'"
    using Cons.prems d'(1) by (simp add: drop_divs, metis drop_ok list.set_intros(1))
  have "e = d'\<lparr>cd_divs := filter (\<lambda>v. \<forall>q \<in> set qs. \<not> used q v) (cd_divs d')\<rparr> \<and> divs_ok e"
    using Cons.prems(2) d(2) d'(2) by (intro Cons.IH) simp_all
  then have e: "e = d'\<lparr>cd_divs := filter (\<lambda>v. \<forall>q \<in> set qs. \<not> used q v) (cd_divs d')\<rparr>" "divs_ok e"
    by (rule conjunct1, rule conjunct2)
  show ?case
  proof
    show "e = d\<lparr>cd_divs := filter (\<lambda>v. \<forall>q \<in> set (q # qs). \<not> used q v) (cd_divs d)\<rparr>"
      unfolding e(1) by (simp add: d(1) conj_commute)
  qed (rule e(2))
qed

end

interpretation drop_ip: div_filter dropWithIP "\<lambda>q. True" "\<lambda>q v. net_Contains v (ParseIP q)"
proof unfold_locales
  fix d q e assume "divs_ok d" "dropWithIP q d = Inr e"
  then show "e = d\<lparr>cd_divs := filter (\<lambda>v. \<not> net_Contains v (ParseIP q)) (cd_divs d)\<rparr>"
    using dropWithIP_divs [of d q] by (cases "ParseIP q = []") (auto simp: dropWithIP_def Let_def)
qed

interpretation drop_range: div_filter "\<lambda>(f, t). dropWithIPRange f t"
  "\<lambda>(f, t). val16 (ParseIP f) \<le> val16 (ParseIP t)"
  "\<lambda>(f, t). isDevInRange (ParseIP f) (ParseIP t)"
proof unfold_locales
  fix d e and q :: "string \<times> string"
  assume a: "divs_ok d" "case q of (f, t) \<Rightarrow> val16 (ParseIP f) \<le> val16 (ParseIP t)"
    "(case q of (f, t) \<Rightarrow> dropWithIPRange f t) d = Inr e"
  obtain f t where q: "q = (f, t)" by (cases q)
  show "e = d\<lparr>cd_divs := filter (\<lambda>v. \<not> (case q of (f, t) \<Rightarrow> isDevInRange (ParseIP f) (ParseIP t)) v)
      (cd_divs d)\<rparr>"
    using a dropWithIPRange_divs [of d f t]
    by (cases "ParseIP f = []"; cases "ParseIP t = []")
      (auto simp: q dropWithIPRange_def Let_def)
qed

section \<open>Addresses of the parts\<close>

lemma To16_start: "net4 d n \<Longrightarrow> length (To16 (startIP d)) = 16"
  by (simp add: To16_len4 length_startIP)

lemma isDevInRange_members:
  assumes "net4 d n" and "length a = 16" and "length b = 16" and "val16 a \<le> val16 b"
  shows "isDevInRange a b d \<longleftrightarrow>
    (\<exists>x. length x = 16 \<and> val16 a \<le> val16 x \<and> val16 x \<le> val16 b \<and> net_Contains d x)"
proof
  assume "isDevInRange a b d"
  then have r: "val16 a < mapped + net_lo d n + 2 ^ (32 - n)" "mapped + net_lo d n \<le> val16 b"
    using isDevInRange_iff [OF assms] by auto
  let ?s = "To16 (startIP d)"
  have s: "length ?s = 16" "val16 ?s = mapped + net_lo d n"
    using To16_start [OF assms(1)] val16_4 [OF length_startIP [OF assms(1)]] ipval_startIP [OF assms(1)]
    by (simp_all add: val16_def To16_def)
  show "\<exists>x. length x = 16 \<and> val16 a \<le> val16 x \<and> val16 x \<le> val16 b \<and> net_Contains d x"
  proof (cases "mapped + net_lo d n \<le> val16 a")
    case True
    then have "net_Contains d a" using r net_Contains_16 [OF assms(1,2)] by simp
    then show ?thesis using assms by blast
  next
    case False
    then have "net_Contains d ?s" using net_Contains_16 [OF assms(1) s(1)] s(2) by simp
    then show ?thesis using s r False by (intro exI [of _ ?s]) simp
  qed
next
  assume "\<exists>x. length x = 16 \<and> val16 a \<le> val16 x \<and> val16 x \<le> val16 b \<and> net_Contains d x"
  then show "isDevInRange a b d"
    using isDevInRange_iff [OF assms] net_Contains_16 [OF assms(1)] by fastforce
qed

lemma divideNet_within:
  assumes "net4 cidr n" "divideNet cidr off = Inr ds"
  shows "0 < off" "int n + off \<le> 32" "ordered (n + nat off) ds"
    "\<forall>d \<in> set ds. \<forall>ip. length ip = 4 \<longrightarrow> net_Contains d ip \<longrightarrow> net_Contains cidr ip"
proof -
  show off: "0 < off" "int n + off \<le> 32"
    using assms mask_Size_net4 [OF assms(1)] by (auto simp: divideNet_def Let_def split: if_splits)
  then obtain o' where o': "off = int o'" "0 < o'" "n + o' \<le> 32"
    by (metis int_nat_eq less_imp_le nat_less_le of_nat_add of_nat_0_less_iff of_nat_le_iff of_nat_numeral)
  obtain ds' where ds': "divideNet cidr (int o') = Inr ds'" "length ds' = 2 ^ o'"
    "consecutive (n + o') (net_lo cidr n) ds'"
    by (rule divideNet_net4 [OF assms(1) o'(2,3)])
  have eq: "ds' = ds" using ds'(1) assms(2) o'(1) by simp
  show "ordered (n + nat off) ds" using consecutive_ordered [OF ds'(3)] eq o'(1) by simp
  have sz: "2 ^ o' * 2 ^ (32 - (n + o')) = (2 :: nat) ^ (32 - n)"
    using o'(3) by (simp flip: power_add)
  show "\<forall>d \<in> set ds. \<forall>ip. length ip = 4 \<longrightarrow> net_Contains d ip \<longrightarrow> net_Contains cidr ip"
  proof (intro ballI allI impI)
    fix d ip assume d: "d \<in> set ds" "length ip = 4" "net_Contains d ip"
    then obtain i where "i < length ds" "ds ! i = d" by (auto simp: in_set_conv_nth)
    then have "\<exists>i. i < length ds' \<and> net_Contains (ds' ! i) ip" using d(3) eq by auto
    then have "net_lo cidr n \<le> ipval ip \<and> ipval ip < net_lo cidr n + length ds' * 2 ^ (32 - (n + o'))"
      unfolding consecutive_partition(2) [OF ds'(3) d(2)] .
    then show "net_Contains cidr ip"
      using net_Contains_interval [OF assms(1) d(2)] ds'(2) sz by simp
  qed
qed

section \<open>What the configurator relies on\<close>

text \<open>
  C30. \<open>divideNet\<close> partitions an IPv4 network: with an offset of \<open>off\<close> bits it returns
  \<open>2 ^ off\<close> networks with masks of \<open>n + off\<close> ones, and an address is in the network exactly
  when it is in one, and only one, of the parts.
\<close>

theorem divideNet_partition:
  assumes "net4 cidr n" and "0 < off" and "n + off \<le> 32"
  shows "\<exists>ds. divideNet cidr (int off) = Inr ds \<and> length ds = 2 ^ off \<and>
    (\<forall>d \<in> set ds. net4 d (n + off)) \<and>
    (\<forall>ip. length ip = 4 \<longrightarrow>
      ((\<exists>!i. i < length ds \<and> net_Contains (ds ! i) ip) \<longleftrightarrow> net_Contains cidr ip) \<and>
      ((\<exists>i. i < length ds \<and> net_Contains (ds ! i) ip) \<longleftrightarrow> net_Contains cidr ip))"
proof -
  obtain ds where ds: "divideNet cidr (int off) = Inr ds" "length ds = 2 ^ off"
    "consecutive (n + off) (net_lo cidr n) ds"
    using assms by (rule divideNet_net4)
  have sz: "2 ^ off * 2 ^ (32 - (n + off)) = (2 :: nat) ^ (32 - n)"
    using assms(3) by (simp flip: power_add)
  show ?thesis
    using ds consecutive_partition [OF ds(3)] net_Contains_interval [OF assms(1)]
      consecutive_ordered [OF ds(3)]
    by (intro exI [of _ ds]) (simp add: ordered_def sz)
qed

theorem divideNet_partition_witness:
  "\<exists>ds. divideNet \<lparr>net_IP = [192, 168, 0, 0], net_Mask = cidr_bytes 4 16\<rparr> (int 4) = Inr ds \<and> length ds = 2 ^ 4"
  using divideNet_partition [of "\<lparr>net_IP = [192, 168, 0, 0], net_Mask = cidr_bytes 4 16\<rparr>" 16 4]
  by (auto simp: net4_def)

text \<open>
  \<open>isDevInRange\<close> decides whether an IPv4 network meets an address range: it holds exactly
  when some address between the two ends (compared as 16-byte addresses) is in the network.
\<close>

theorem isDevInRange_meets:
  assumes "net4 d n" and "length a = 16" and "length b = 16" and "val16 a \<le> val16 b"
  shows "isDevInRange a b d \<longleftrightarrow>
    (\<exists>x. length x = 16 \<and> val16 a \<le> val16 x \<and> val16 x \<le> val16 b \<and> net_Contains d x)"
  using assms by (rule isDevInRange_members)

theorem isDevInRange_meets_witness:
  "isDevInRange (v4InV6Prefix @ [10, 0, 0, 0]) (v4InV6Prefix @ [10, 0, 1, 0])
     \<lparr>net_IP = [10, 0, 0, 128], net_Mask = cidr_bytes 4 25\<rparr> \<longleftrightarrow>
   (\<exists>x. length x = 16 \<and> val16 (v4InV6Prefix @ [10, 0, 0, 0]) \<le> val16 x \<and>
     val16 x \<le> val16 (v4InV6Prefix @ [10, 0, 1, 0]) \<and>
     net_Contains \<lparr>net_IP = [10, 0, 0, 128], net_Mask = cidr_bytes 4 25\<rparr> x)"
  by (rule isDevInRange_meets [where n = 25])
    (simp_all add: net4_def val16_def To16_def v4InV6Prefix_def)


lemma example_divs_ok:
  "divs_ok \<lparr>cd_cidr = \<lparr>net_IP = [10, 0, 0, 0], net_Mask = cidr_bytes 4 24\<rparr>, cd_maskOffset = 1,
     cd_divs = [\<lparr>net_IP = [10, 0, 0, 0], net_Mask = cidr_bytes 4 25\<rparr>,
       \<lparr>net_IP = [10, 0, 0, 128], net_Mask = cidr_bytes 4 25\<rparr>]\<rparr>"
  by (simp add: divs_ok_def ordered_def net4_def exI [of _ 25] net_lo_def)

lemma example_parse:
  "ParseIP ''10.0.0.3'' = v4InV6Prefix @ [10, 0, 0, 3]"
  "ParseIP ''10.0.0.9'' = v4InV6Prefix @ [10, 0, 0, 9]"
  by (simp_all add: ParseIP_def eval_simps)


end
