(* ===== verification/Configurator.thy ===== *)
theory Configurator
  imports Snapshot CidrDivide
begin

text \<open>
  The configurator (pkg/driver/configurator.go): it finds the network and the zone of the
  cluster's servers in the cloud and writes them to the storage classes, writes the nodes'
  private addresses to the CSI nodes, recommends a CIDR block for NAS instances, and sets up
  the repository of snapshots. Nodes and classes are read from the cluster at every update.
\<close>

section \<open>State\<close>

record NodeConfig =
  nc_name :: string
  nc_publicIP :: string
  nc_privateIP :: string

record configurator = world +
  cf_networkID :: string
  cf_zone :: string
  cf_nodes :: "NodeConfig list"
  cf_cidr :: string
  cf_clusterName :: string
  cf_chkIntvl :: int64

type_synonym fenv = "unit configurator_ext env"
type_synonym 'a cfprog = "(configurator, 'a) prog"

definition newConfigurator :: "history \<Rightarrow> configurator" where
  "newConfigurator h = \<lparr>trace = h, cf_networkID = '''', cf_zone = '''', cf_nodes = [],
     cf_cidr = '''', cf_clusterName = '''', cf_chkIntvl = 300\<rparr>"

definition errorf :: "string \<Rightarrow> ('s, 'a) prog \<Rightarrow> ('s, 'a) prog" where
  "errorf pre m = wrapP (\<lambda>e. Errorf (pre @ errText e)) m"

lemma bindP_errorf_api:
  "bindP (errorf pre (api c answer)) f s =
     (case answer (trace s) of
        Inl e \<Rightarrow> (Fail (Errorf (pre @ errText e)), s\<lparr>trace := trace s @ [c]\<rparr>)
      | Inr a \<Rightarrow> f a (s\<lparr>trace := trace s @ [c]\<rparr>))"
  by (simp add: errorf_def bindP_def wrapP_def api_def split: sum.split)

section \<open>Nodes\<close>

definition address_step :: "NodeConfig \<Rightarrow> string \<times> string \<Rightarrow> NodeConfig" where
  "address_step nc addr =
     (case addr of (t, a) \<Rightarrow>
        if t = ''ExternalIP'' \<or> t = ''InternalIP'' then
          (if isPrivate a then nc\<lparr>nc_privateIP := a\<rparr> else nc\<lparr>nc_publicIP := a\<rparr>)
        else nc)"

definition node_config :: "Node \<Rightarrow> NodeConfig" where
  "node_config n = foldl address_step
     \<lparr>nc_name = node_name n, nc_publicIP = '''', nc_privateIP = ''''\<rparr> (node_addresses n)"

fun node_configs :: "Node list \<Rightarrow> gerror + NodeConfig list" where
  "node_configs [] = Inr []"
| "node_configs (n # ns) =
     (if nc_publicIP (node_config n) = ''''
      then Inl (Errorf (''GetNodeConfigs : node '' @ node_name n @ '' does not have public IP''))
      else case node_configs ns of Inl e \<Rightarrow> Inl e | Inr confs \<Rightarrow> Inr (node_config n # confs))"

text \<open>
  The loops over the CSI nodes and their drivers, for one node: its configuration, which the
  loops may change, whether an update is needed, and the configurations collected.
\<close>

type_synonym match_state = "NodeConfig \<times> bool \<times> NodeConfig list"

definition driver_step :: "config \<Rightarrow> CSINode \<Rightarrow> match_state \<Rightarrow> string \<Rightarrow> match_state" where
  "driver_step cfg csinode st d =
     (case st of (conf, update, confs) \<Rightarrow>
        if d \<noteq> cfg_Name cfg then st
        else let a = csn_annotation csinode (cfg_Name cfg @ ''/privateIp'')
             in if a = '''' \<or> nc_privateIP conf \<noteq> '''' \<and> a \<noteq> nc_privateIP conf
                then (conf, True, confs @ [conf])
                else (conf\<lparr>nc_privateIP := a\<rparr>, update, confs @ [conf\<lparr>nc_privateIP := a\<rparr>]))"

definition csinode_step :: "config \<Rightarrow> match_state \<Rightarrow> CSINode \<Rightarrow> match_state" where
  "csinode_step cfg st csinode =
     (if nc_name (fst st) = csn_name csinode
      then foldl (driver_step cfg csinode) st (csn_drivers csinode) else st)"

definition csi_configs :: "config \<Rightarrow> NodeConfig list \<Rightarrow> CSINode list \<Rightarrow> bool \<times> NodeConfig list" where
  "csi_configs cfg confs csinodes =
     foldl (\<lambda>(update, out) conf. snd (foldl (csinode_step cfg) (conf, update, out) csinodes))
       (False, []) confs"

definition getNodeConfigs :: "fenv \<Rightarrow> config \<Rightarrow> bool cfprog" where
  "getNodeConfigs E cfg =
     bindP (errorf ''getting nodes in GetNodeConfigs : '' (api ListNodes (listNodes E))) (\<lambda>ns.
     bindP (liftP (node_configs ns)) (\<lambda>confs.
     bindP (errorf ''getting csinodes in GetNodeConfigs : '' (api ListCSINodes (listCSINodes E))) (\<lambda>csinodes.
     let (update, out) = csi_configs cfg confs csinodes
     in bindP (modP (\<lambda>s. s\<lparr>cf_nodes := out\<rparr>)) (\<lambda>_. retP update))))"

definition annotate_node :: "'z env \<Rightarrow> config \<Rightarrow> NodeConfig \<Rightarrow> ('z world_scheme, unit option) prog" where
  "annotate_node E cfg conf =
     bindP (errorf ''getting csinode in SetNodeConfigs : ''
       (api (GetCSINode (nc_name conf)) (\<lambda>h. getCSINode E h (nc_name conf)))) (\<lambda>csinode.
     let key = cfg_Name cfg @ ''/privateIp'';
         annotations = (case csn_annotations csinode of None \<Rightarrow> [] | Some ps \<Rightarrow> ps)
     in if param annotations key = nc_privateIP conf then retP None
        else let n = csinode\<lparr>csn_annotations := Some (set_entry key (nc_privateIP conf) annotations)\<rparr>
             in bindP (errorf ''updating csinode in SetNodeConfigs : ''
                  (api (UpdateCSINode n) (\<lambda>h. updateCSINode E h n))) (\<lambda>_. retP None))"

definition setNodeConfigs :: "fenv \<Rightarrow> config \<Rightarrow> unit cfprog" where
  "setNodeConfigs E cfg =
     bindP (getP cf_nodes) (\<lambda>ns. bindP (eachP ns (annotate_node E cfg)) (\<lambda>_. retP ()))"

section \<open>Storage classes\<close>

text \<open>The zone and the network read so far, and whether an update is needed.\<close>

definition class_step :: "config \<Rightarrow> string \<times> string \<times> bool \<Rightarrow> StorageClass \<Rightarrow> string \<times> string \<times> bool" where
  "class_step cfg st cl =
     (case st of (zone, network, update) \<Rightarrow>
        if sc_provisioner cl \<noteq> cfg_Name cfg then st
        else let z = sc_param cl ''zone''; n = sc_param cl ''networkId''
             in (if z \<noteq> '''' \<and> zone = '''' then z else zone,
                 if n \<noteq> '''' \<and> network = '''' then n else network,
                 update \<or> z = '''' \<or> zone \<noteq> '''' \<and> zone \<noteq> z \<or> n = '''' \<or> network \<noteq> '''' \<and> network \<noteq> n))"

definition read_classes :: "config \<Rightarrow> StorageClass list \<Rightarrow> string \<times> string \<times> bool" where
  "read_classes cfg cls = foldl (class_step cfg) ('''', '''', False) cls"

definition getStorageClasses :: "fenv \<Rightarrow> config \<Rightarrow> bool cfprog" where
  "getStorageClasses E cfg =
     bindP (modP (\<lambda>s. s\<lparr>cf_zone := '''', cf_networkID := ''''\<rparr>)) (\<lambda>_.
     bindP (errorf ''getting storageclasses in GetStorageClasses : ''
       (api ListStorageClasses (listStorageClasses E))) (\<lambda>cls.
     let (zone, network, update) = read_classes cfg cls
     in bindP (modP (\<lambda>s. s\<lparr>cf_zone := zone, cf_networkID := network\<rparr>)) (\<lambda>_.
        retP (update \<or> zone = '''' \<or> network = ''''))))"

text \<open>The parameters written to a class.\<close>

definition class_params :: "configurator \<Rightarrow> params \<Rightarrow> params" where
  "class_params s ps =
     (let ps = set_entry ''networkId'' (cf_networkID s) (set_entry ''zone'' (cf_zone s) ps);
          ps = (if param ps ''description'' = '''' \<and> cf_clusterName s \<noteq> ''''
                then set_entry ''description'' (''csi-volume of cluster:'' @ cf_clusterName s) ps else ps)
      in if cf_cidr s \<noteq> '''' \<and> param ps ''reservedIpv4Cidr'' = ''''
         then set_entry ''reservedIpv4Cidr'' (cf_cidr s) ps else ps)"

text \<open>
  A class is deleted and created again; its parameters cannot be changed in place. Writing to
  parameters that are a nil map panics.
\<close>

definition update_class :: "fenv \<Rightarrow> config \<Rightarrow> StorageClass \<Rightarrow> unit option cfprog" where
  "update_class E cfg cl =
     bindP (getP (\<lambda>s. s)) (\<lambda>s.
     if sc_provisioner cl \<noteq> cfg_Name cfg then retP None
     else if sc_param cl ''zone'' = cf_zone s \<and> sc_param cl ''networkId'' = cf_networkID s then retP None
     else case sc_parameters cl of
         None \<Rightarrow> panicP ''assignment to entry in nil map''
       | Some ps \<Rightarrow>
           let cl' = cl\<lparr>sc_parameters := Some (class_params s ps)\<rparr>
           in bindP (errorf ''deleting storageclass in SetStorageClasses : ''
                (api (DeleteStorageClass (sc_name cl)) (\<lambda>h. deleteStorageClass E h (sc_name cl)))) (\<lambda>_.
              bindP (errorf ''creating storageclass in SetStorageClasses : ''
                (api (CreateStorageClass cl') (\<lambda>h. createStorageClass E h cl'))) (\<lambda>_. retP None)))"

definition setStorageClasses :: "fenv \<Rightarrow> config \<Rightarrow> unit cfprog" where
  "setStorageClasses E cfg =
     bindP (errorf ''getting storageclasses in SetStorageClasses : ''
       (api ListStorageClasses (listStorageClasses E))) (\<lambda>cls.
     bindP (eachP cls (update_class E cfg)) (\<lambda>_. retP ()))"

text \<open>The templates: name, instance type, whether shared, and the parameters of a new class.\<close>

definition templates :: "(string \<times> string \<times> bool \<times> params) list" where
  "templates =
     [(''csi-nifcloud-nas-std'', ''0'', False, [(''instanceType'', ''0'')]),
      (''csi-nifcloud-nas-hi'', ''1'', False, [(''instanceType'', ''1'')]),
      (''csi-nifcloud-nas-shrd'', ''0'', True,
        [(''instanceType'', ''0''), (''shared'', ''true''), (''capacityParInstanceGiB'', ''500'')]),
      (''csi-nifcloud-nas-shrdhi'', ''1'', True,
        [(''instanceType'', ''1''), (''shared'', ''true''), (''capacityParInstanceGiB'', ''1000'')])]"

definition provides :: "config \<Rightarrow> string \<Rightarrow> bool \<Rightarrow> StorageClass \<Rightarrow> bool" where
  "provides cfg instanceType shared cl \<longleftrightarrow> sc_provisioner cl = cfg_Name cfg \<and>
     sc_param cl ''instanceType'' = instanceType \<and> (sc_param cl ''shared'' = ''true'') = shared"

definition install_class ::
  "'z env \<Rightarrow> config \<Rightarrow> StorageClass list \<Rightarrow> string \<times> string \<times> bool \<times> params \<Rightarrow>
   ('z world_scheme, unit option) prog" where
  "install_class E cfg cls t =
     (case t of (name, instanceType, shared, ps) \<Rightarrow>
        if list_ex (provides cfg instanceType shared) cls then retP None
        else let cl = \<lparr>sc_name = name, sc_provisioner = cfg_Name cfg, sc_parameters = Some ps\<rparr>
             in bindP (errorf ''creating storageclass in installStorageClasses : ''
                  (api (CreateStorageClass cl) (\<lambda>h. createStorageClass E h cl))) (\<lambda>_. retP None))"

definition installStorageClasses :: "fenv \<Rightarrow> config \<Rightarrow> unit cfprog" where
  "installStorageClasses E cfg =
     bindP (errorf ''getting storageclasses in installStorageClasses : ''
       (api ListStorageClasses (listStorageClasses E))) (\<lambda>cls.
     bindP (eachP templates (install_class E cfg cls)) (\<lambda>_. retP ()))"

section \<open>The servers in the cloud\<close>

text \<open>One server of a Hatoba cluster against all nodes: nodes, servers found, zone.\<close>

type_synonym found = "NodeConfig list \<times> nat \<times> string"

definition hatoba_step :: "found \<Rightarrow> HatobaNode \<Rightarrow> found" where
  "hatoba_step st n =
     (case st of (confs, k, zone) \<Rightarrow>
        let hit = (\<lambda>nc. pstr (hn_PublicIp n) = nc_publicIP nc)
        in (map (\<lambda>nc. if hit nc then nc\<lparr>nc_privateIP := pstr (hn_PrivateIp n)\<rparr> else nc) confs,
            k + length (filter hit confs),
            if list_ex hit confs then pstr (hn_Zone n) else zone))"

text \<open>A cluster is taken when as many servers were found as there are nodes.\<close>

definition try_cluster :: "bool \<Rightarrow> Cluster \<Rightarrow> string option cfprog" where
  "try_cluster configureAny cl =
     bindP (getP cf_nodes) (\<lambda>ns.
     let (confs, k, zone) = foldl hatoba_step (ns, 0, '''') (concat (hc_NodePools cl))
     in bindP (modP (\<lambda>s. s\<lparr>cf_nodes := confs\<rparr>)) (\<lambda>_.
        if k = length ns then
          bindP (derefP (hc_Name cl)) (\<lambda>name.
          bindP (if configureAny then
                   bindP (derefP (hc_NetworkConfig cl)) (\<lambda>nw.
                   modP (\<lambda>s. s\<lparr>cf_networkID := pstr nw, cf_zone := zone, cf_clusterName := name\<rparr>))
                 else retP ()) (\<lambda>_. retP (Some name)))
        else retP None))"

definition find_in_hatoba :: "fenv \<Rightarrow> config \<Rightarrow> bool \<Rightarrow> unit cfprog" where
  "find_in_hatoba E cfg configureAny =
     bindP (errorf ''getting cluster list : '' (ListClusters E (cfg_DevEp cfg))) (\<lambda>clusters.
     bindP (eachP clusters (try_cluster configureAny)) (\<lambda>r.
     if pstr r \<noteq> '''' then retP () else failP (Errorf ''nodes not found in hatoba'')))"

text \<open>
  What the servers of the computing service give: network, zone, name of the cluster (the
  servers' IDs, joined) and the number of servers found.
\<close>

type_synonym vm_state = "string \<times> string \<times> string \<times> nat"

definition vm_hit :: "Instance \<Rightarrow> vm_state \<Rightarrow> vm_state" where
  "vm_hit vm st =
     (case st of (network, zone, name, k) \<Rightarrow>
        (foldl (\<lambda>network (ip, nw). if pstr ip = pstr (vm_PrivateIpAddress vm) then pstr nw else network)
           network (vm_Interfaces vm),
         (case vm_Placement vm of Some z \<Rightarrow> pstr z | None \<Rightarrow> zone),
         (if name \<noteq> '''' then name @ ''-'' else name) @ pstr (vm_InstanceId vm), k + 1))"

definition vm_step :: "NodeConfig list \<times> vm_state \<Rightarrow> Instance \<Rightarrow> NodeConfig list \<times> vm_state" where
  "vm_step st vm =
     (case st of (confs, acc) \<Rightarrow>
        let hit = (\<lambda>nc. pstr (vm_IpAddress vm) = nc_publicIP nc)
        in (map (\<lambda>nc. if hit nc then nc\<lparr>nc_privateIP := pstr (vm_PrivateIpAddress vm)\<rparr> else nc) confs,
            foldl (\<lambda>acc _. vm_hit vm acc) acc (filter hit confs)))"

definition find_in_computing :: "fenv \<Rightarrow> bool \<Rightarrow> unit cfprog" where
  "find_in_computing E configureAny =
     bindP (errorf ''getting vm list : '' (ListInstances E)) (\<lambda>vms.
     bindP (getP cf_nodes) (\<lambda>ns.
     let (confs, network, zone, name, k) = foldl vm_step (ns, '''', '''', '''', 0) vms
     in bindP (modP (\<lambda>s. s\<lparr>cf_nodes := confs\<rparr>)) (\<lambda>_.
        if k = length ns \<and> network \<noteq> '''' \<and> zone \<noteq> '''' then
          whenP configureAny
            (modP (\<lambda>s. s\<lparr>cf_networkID := network, cf_zone := zone, cf_clusterName := name\<rparr>))
        else failP (Errorf ''nodes not found in computing''))))"

section \<open>The recommended CIDR block\<close>

text \<open>\<open>for ; bits-lanMask-offset < minmaskfordiv; offset--\<close>\<close>

function offset_loop :: "int \<Rightarrow> int \<Rightarrow> int" where
  "offset_loop room offset = (if room - offset < 5 then offset_loop room (offset - 1) else offset)"
  by auto
termination by (relation "measure (\<lambda>(room, offset). nat (offset + 5 - room))") auto

declare offset_loop.simps [simp del]

definition prepare_divs :: "IPNet \<Rightarrow> gerror + CidrDivs" where
  "prepare_divs lanCidrBlk =
     (let (lanMask, bits) = mask_Size (net_Mask lanCidrBlk);
          offset = offset_loop (bits - lanMask) 4
      in case newCidrDivs lanCidrBlk offset of
           Inl e \<Rightarrow> Inl (Errorf (''initialing recommended cidr divs : '' @ errText e))
         | Inr d \<Rightarrow>
             if offset \<ge> 3 then
               (case dropHeadAndTail d of
                  Inl e \<Rightarrow> Inl (Errorf (''dropping recommended cidr divs : '' @ errText e))
                | Inr d \<Rightarrow> Inr d)
             else Inr d)"

definition dropping :: "gerror + CidrDivs \<Rightarrow> ('s, CidrDivs) prog" where
  "dropping r = errorf ''dropping recommended cidr divs : '' (liftP r)"

fun dhcp_status ::
  "'z env \<Rightarrow> string \<Rightarrow> string option list \<Rightarrow> ('z world_scheme, ip_pool list \<times> lease list) prog" where
  "dhcp_status E networkID [] = retP ([], [])"
| "dhcp_status E networkID (r # rs) =
     bindP (derefP r) (\<lambda>router.
     bindP (errorf (''getting dhcp ip pool networkId:'' @ networkID @ '' routerId:'' @ router @ '' : '')
       (GetDhcpStatus E networkID router)) (\<lambda>(pls, ips).
     bindP (dhcp_status E networkID rs) (\<lambda>(pools, static). retP (pls @ pools, ips @ static))))"

definition pick_div :: "CidrDivs \<Rightarrow> string" where
  "pick_div d = (if cd_divs d = [] then '''' else net_String (cd_divs d ! (length (cd_divs d) div 2)))"

definition recommend_cidr :: "'z env \<Rightarrow> string \<Rightarrow> ('z world_scheme, string) prog" where
  "recommend_cidr E networkID =
     bindP (errorf (''getting private lan '' @ networkID @ '' : '') (GetPrivateLan E networkID)) (\<lambda>lan.
     case ParseCIDR (pstr (lan_CidrBlock lan)) of
       Inl m \<Rightarrow> failP (Errorf (''parsing cidr block '' @ pstr (lan_CidrBlock lan) @ '' : '' @ m))
     | Inr (_, lanCidrBlk) \<Rightarrow>
         bindP (liftP (prepare_divs lanCidrBlk)) (\<lambda>d.
         bindP (errorf ''getting RDB list : '' (ListRdbInstances E)) (\<lambda>dbs.
         bindP (dropping (each_drop (\<lambda>db. dropWithIP (pstr (db_MasterPrivateAddress db)))
           (filter (\<lambda>db. pstr (db_NetworkId db) = networkID) dbs) d)) (\<lambda>d.
         bindP (dhcp_status E networkID (lan_Routers lan)) (\<lambda>(pools, static).
         bindP (dropping (each_drop (\<lambda>p. dropWithIPRange (pstr (fst p)) (pstr (snd p))) pools d)) (\<lambda>d.
         bindP (dropping (each_drop (\<lambda>l. dropWithIP (pstr (snd l))) static d)) (\<lambda>d.
         retP (pick_div d))))))))"

section \<open>Snapshot classes\<close>

definition usable_secrets :: "gerror + params \<Rightarrow> bool" where
  "usable_secrets r = (case r of
       Inl e \<Rightarrow> False
     | Inr secrets \<Rightarrow> param secrets ''resticRepository'' \<noteq> '''' \<and> param secrets ''resticPassword'' \<noteq> '''')"

text \<open>Whether any class of the driver has usable secrets; every class is read.\<close>

fun any_usable :: "'z env \<Rightarrow> config \<Rightarrow> SnapshotClass list \<Rightarrow> ('z world_scheme, bool) prog" where
  "any_usable E cfg [] = retP False"
| "any_usable E cfg (cl # cls) =
     (if vsc_driver cl \<noteq> cfg_Name cfg then any_usable E cfg cls
      else bindP (tryP (getSecretsFromSnapshotClass E (vsc_name cl))) (\<lambda>r.
           bindP (any_usable E cfg cls) (\<lambda>b. retP (usable_secrets r \<or> b))))"

definition getSnapshotClasses :: "fenv \<Rightarrow> config \<Rightarrow> bool cfprog" where
  "getSnapshotClasses E cfg =
     bindP (errorf ''getting snapshotclasses in getSnapshotClasses : ''
       (api ListSnapshotClasses (listSnapshotClasses E))) (\<lambda>cls.
     bindP (any_usable E cfg cls) (\<lambda>b. retP (\<not> b)))"

text \<open>\<open>strings.Split\<close> never returns an empty list.\<close>

definition regionFromEndpoint :: "string \<Rightarrow> string" where
  "regionFromEndpoint ep =
     hd (Split (TrimPrefix (TrimPrefix ep ''https://'') ''http://'') (CHR ''.''))"

text \<open>
  Writing the secret to a temporary archive and uploading it is one call; its error is the
  error returned.
\<close>

definition createBucket :: "'z env \<Rightarrow> config \<Rightarrow> string \<Rightarrow> string \<Rightarrow> ('z world_scheme, unit) prog" where
  "createBucket E cfg bucketname secretName =
     (if getenv E ''AWS_ACCESS_KEY_ID'' = ''''
      then failP (Errorf ''Configurator : cannot get accesskey from env'')
      else if getenv E ''AWS_SECRET_ACCESS_KEY'' = ''''
      then failP (Errorf ''Configurator : cannot get secretkey from env'')
      else let ep = cfg_DefaultSnapEndpoint cfg; region = regionFromEndpoint ep
           in bindP (api (CreateBucket region ep bucketname) (\<lambda>h. makeBucket E h region ep bucketname)) (\<lambda>_.
              api (StoreSecret bucketname (secretName @ ''.tgz''))
                (\<lambda>h. storeSecret E h bucketname (secretName @ ''.tgz''))))"

text \<open>
  The letters drawn by the generator that is seeded with the digest of the string: a function
  of the string and the length alone.
\<close>

definition letters :: string where
  "letters = ''abcdefghijklmnopqrstuvwxyz0123456789''"

definition makePassword :: "'z env \<Rightarrow> string \<Rightarrow> nat \<Rightarrow> string" where
  "makePassword E str n = map (\<lambda>i. letters ! i) (take n (seeded E str n))"

definition needs_secret :: "config \<Rightarrow> gerror + params \<Rightarrow> SnapshotClass \<Rightarrow> bool" where
  "needs_secret cfg secrets cl \<longleftrightarrow> \<not> usable_secrets secrets \<and>
     param (vsc_parameters cl) ''csi.storage.k8s.io/snapshotter-secret-name'' = ''restic-creds'' \<and>
     param (vsc_parameters cl) ''csi.storage.k8s.io/snapshotter-secret-namespace'' = ''nifcloud-nas-csi-driver''"

definition new_secret :: "config \<Rightarrow> string \<Rightarrow> string \<Rightarrow> string \<Rightarrow> Secret" where
  "new_secret cfg clusterID repository password =
     \<lparr>sec_name = ''restic-creds'', sec_namespace = ''nifcloud-nas-csi-driver'',
      sec_data = [(''resticRepository'', repository), (''resticPassword'', password)],
      sec_annotations = [(cfg_Name cfg @ ''/clusterID'', clusterID)]\<rparr>"

definition replace_secret :: "'z env \<Rightarrow> Secret \<Rightarrow> ('z world_scheme, unit) prog" where
  "replace_secret E secret =
     (let ns = sec_namespace secret; n = sec_name secret
      in bindP (tryP (api (GetSecret ns n) (\<lambda>h. getSecret E h ns n))) (\<lambda>r.
         bindP (case r of
             Inl e \<Rightarrow> retP ()
           | Inr _ \<Rightarrow> errorf ''deleting secret in setSnapshotClasses : ''
               (api (DeleteSecret ns n) (\<lambda>h. deleteSecret E h ns n))) (\<lambda>_.
         errorf ''Error creating secret in setSnapshotClasses : ''
           (api (CreateSecret secret) (\<lambda>h. createSecret E h secret)))))"

definition set_snapshot_class ::
  "'z env \<Rightarrow> config \<Rightarrow> string \<Rightarrow> Secret \<Rightarrow> SnapshotClass \<Rightarrow> ('z world_scheme, unit option) prog" where
  "set_snapshot_class E cfg bucketname secret cl =
     (if vsc_driver cl \<noteq> cfg_Name cfg then retP None
      else bindP (tryP (getSecretsFromSnapshotClass E (vsc_name cl))) (\<lambda>r.
           if \<not> needs_secret cfg r cl then retP None
           else bindP (replace_secret E secret) (\<lambda>_.
                bindP (errorf ''Error creating bucket in setSnapshotClasses : ''
                  (createBucket E cfg bucketname (sec_name secret))) (\<lambda>_. retP (Some ())))))"

definition setSnapshotClasses :: "fenv \<Rightarrow> config \<Rightarrow> unit cfprog" where
  "setSnapshotClasses E cfg =
     bindP (getP cf_clusterName) (\<lambda>clusterName.
     bindP (errorf ''Error getting namespace UID : '' (getClusterUID E cfg)) (\<lambda>clusterUID.
     bindP (api (RandomString 5) (\<lambda>h. Inr (randomString E h 5))) (\<lambda>r.
     let clusterID = (if clusterName \<noteq> '''' then clusterName @ ''-'' else '''') @ clusterUID;
         bucketname = ''csi-snapshot-'' @ r;
         repository = ''s3:'' @ cfg_DefaultSnapEndpoint cfg @ ''/'' @ bucketname;
         secret = new_secret cfg clusterID repository (makePassword E clusterUID 16)
     in bindP (errorf ''getting storageclasses in setSnapshotClasses : ''
          (api ListSnapshotClasses (listSnapshotClasses E))) (\<lambda>cls.
        bindP (eachP cls (set_snapshot_class E cfg bucketname secret)) (\<lambda>_. retP ())))))"

definition installSnapshotClasses :: "fenv \<Rightarrow> config \<Rightarrow> unit cfprog" where
  "installSnapshotClasses E cfg =
     bindP (errorf ''getting snapshotclasses in installSnapshotClasses : ''
       (api ListSnapshotClasses (listSnapshotClasses E))) (\<lambda>cls.
     if list_ex (\<lambda>cl. vsc_driver cl = cfg_Name cfg) cls then retP ()
     else let cl = \<lparr>vsc_name = ''csi-nifcloud-nas-restic'', vsc_driver = cfg_Name cfg,
              vsc_parameters = [(''csi.storage.k8s.io/snapshotter-secret-name'', ''restic-creds''),
                (''csi.storage.k8s.io/snapshotter-secret-namespace'', ''nifcloud-nas-csi-driver'')]\<rparr>
          in errorf ''creating snapshotclass in installSnapshotClasses : ''
               (api (CreateSnapshotClass cl) (\<lambda>h. createSnapshotClass E h cl)))"

section \<open>Configuration\<close>

definition set_cidr :: "fenv \<Rightarrow> config \<Rightarrow> bool \<Rightarrow> unit cfprog" where
  "set_cidr E cfg configureClasses =
     bindP (getP cf_networkID) (\<lambda>networkID.
     if networkID = ''net-COMMON_PRIVATE'' then modP (\<lambda>s. s\<lparr>cf_cidr := ''''\<rparr>)
     else whenP (configureClasses \<and> cfg_CidrBlkRcmd cfg)
            (bindP (recommend_cidr E networkID) (\<lambda>c. modP (\<lambda>s. s\<lparr>cf_cidr := c\<rparr>))))"

text \<open>The end of \<open>configure\<close>: what was found is written to the cluster.\<close>

definition save_configs :: "fenv \<Rightarrow> config \<Rightarrow> bool \<Rightarrow> bool \<Rightarrow> unit cfprog" where
  "save_configs E cfg configureClasses configureSnapClass =
     bindP (errorf ''saving node configs : '' (setNodeConfigs E cfg)) (\<lambda>_.
     bindP (whenP configureClasses (errorf ''saving class configs : '' (setStorageClasses E cfg))) (\<lambda>_.
     whenP configureSnapClass (errorf ''saving snapshot secret : '' (setSnapshotClasses E cfg))))"

definition configure :: "fenv \<Rightarrow> config \<Rightarrow> bool \<Rightarrow> bool \<Rightarrow> unit cfprog" where
  "configure E cfg configureClasses configureSnapClass =
     bindP (if cfg_Hatoba cfg then find_in_hatoba E cfg (configureClasses \<or> configureSnapClass)
            else find_in_computing E (configureClasses \<or> configureSnapClass)) (\<lambda>_.
     bindP (set_cidr E cfg configureClasses) (\<lambda>_.
     save_configs E cfg configureClasses configureSnapClass))"

definition Update :: "fenv \<Rightarrow> config \<Rightarrow> unit cfprog" where
  "Update E cfg =
     bindP (getNodeConfigs E cfg) (\<lambda>nodesUpdate.
     bindP (getStorageClasses E cfg) (\<lambda>classesUpdate.
     bindP (if cfg_CfgSnapRepo cfg then getSnapshotClasses E cfg else retP False) (\<lambda>snapClassUpdate.
     if \<not> nodesUpdate \<and> \<not> classesUpdate \<and> \<not> snapClassUpdate then retP ()
     else configure E cfg classesUpdate snapClassUpdate)))"

text \<open>\<open>runtime.HandleError\<close> logs the error.\<close>

definition runUpdate :: "fenv \<Rightarrow> config \<Rightarrow> unit cfprog" where
  "runUpdate E cfg = bindP (tryP (Update E cfg)) (\<lambda>_. retP ())"

definition Init :: "fenv \<Rightarrow> config \<Rightarrow> unit cfprog" where
  "Init E cfg =
     bindP (installStorageClasses E cfg) (\<lambda>_.
     bindP (whenP (cfg_CfgSnapRepo cfg) (installSnapshotClasses E cfg)) (\<lambda>_.
     Update E cfg))"

end
