(* ===== verification/RecommendProps.thy ===== *)
theory RecommendProps
  imports Configurator
begin

text \<open>
  The CIDR block that the configurator recommends: it is a part of the private LAN that no
  database, DHCP pool or static lease uses.
\<close>

section \<open>The recommended block\<close>

lemma offset_loop_min: "offset_loop room offset = min offset (room - 5)"
  by (induction room offset rule: offset_loop.induct) (subst offset_loop.simps, auto)

lemma divs_ok_slice: "divs_ok d \<Longrightarrow> divs_ok (d\<lparr>cd_divs := slice (cd_divs d) a b\<rparr>)"
  unfolding divs_ok_def ordered_def slice_def
  by (auto intro: sorted_wrt_take sorted_wrt_drop dest!: in_set_dropD in_set_takeD)

lemma divs_ok_net4: "divs_ok d \<Longrightarrow> v \<in> set (cd_divs d) \<Longrightarrow> \<exists>n. net4 v n"
  unfolding divs_ok_def ordered_def by blast

text \<open>A part of the LAN \<open>blk\<close> with room for at least 32 addresses.\<close>

definition part_of :: "IPNet \<Rightarrow> IPNet \<Rightarrow> bool" where
  "part_of blk v \<longleftrightarrow> (\<exists>m \<le> 27. net4 v m) \<and>
     (\<forall>ip. length ip = 4 \<longrightarrow> net_Contains v ip \<longrightarrow> net_Contains blk ip)"

lemma prepare_divs_parts:
  assumes "net4 blk n" "prepare_divs blk = Inr d"
  shows "divs_ok d" "\<forall>v \<in> set (cd_divs d). part_of blk v"
proof -
  let ?off = "min 4 (27 - int n)"
  obtain ds where ds: "divideNet blk ?off = Inr ds"
    and d: "d = \<lparr>cd_cidr = blk, cd_maskOffset = ?off, cd_divs = ds\<rparr> \<or>
      d = \<lparr>cd_cidr = blk, cd_maskOffset = ?off, cd_divs = slice ds 1 (length ds - 1)\<rparr>"
    using assms(2) mask_Size_net4 [OF assms(1)]
    by (auto simp: prepare_divs_def offset_loop_min newCidrDivs_def dropHeadAndTail_def Let_def
        split: sum.splits if_splits)
  note w = divideNet_within [OF assms(1) ds]
  have ok: "divs_ok \<lparr>cd_cidr = blk, cd_maskOffset = ?off, cd_divs = ds\<rparr>"
    using w(3) by (auto simp: divs_ok_def)
  show "divs_ok d" using d ok divs_ok_slice [OF ok] by auto
  have "part_of blk v" if "v \<in> set ds" for v
  proof -
    have "n + nat ?off \<le> 27" using w(1) by linarith
    then show ?thesis using w(3,4) that by (auto simp: part_of_def ordered_def)
  qed
  then show "\<forall>v \<in> set (cd_divs d). part_of blk v"
    using d by (auto simp: slice_def dest!: in_set_dropD in_set_takeD)
qed

lemma dropping_Ret: "dropping r s = (Ret d, t) \<longleftrightarrow> r = Inr d \<and> t = s"
  by (auto simp: dropping_def errorf_def wrapP_Ret_iff liftP_Ret_iff)

lemma errorf_Ret: "errorf pre m s = (Ret a, t) \<longleftrightarrow> m s = (Ret a, t)"
  by (simp add: errorf_def wrapP_Ret_iff)

text \<open>The answers a successful recommendation was computed from.\<close>

lemma recommend_cidr_RetE:
  assumes "recommend_cidr E nw s = (Ret c, t)"
  obtains lan s1 blk ip dbs s2 pools leases d0 d1 d2 d3 where
    "GetPrivateLan E nw s = (Ret lan, s1)"
    "ParseCIDR (pstr (lan_CidrBlock lan)) = Inr (ip, blk)"
    "ListRdbInstances E s1 = (Ret dbs, s2)"
    "dhcp_status E nw (lan_Routers lan) s2 = (Ret (pools, leases), t)"
    "prepare_divs blk = Inr d0"
    "each_drop (\<lambda>db. dropWithIP (pstr (db_MasterPrivateAddress db)))
       (filter (\<lambda>db. pstr (db_NetworkId db) = nw) dbs) d0 = Inr d1"
    "each_drop (\<lambda>p. dropWithIPRange (pstr (fst p)) (pstr (snd p))) pools d1 = Inr d2"
    "each_drop (\<lambda>l. dropWithIP (pstr (snd l))) leases d2 = Inr d3"
    "c = pick_div d3"
proof -
  obtain lan s1 where 1: "GetPrivateLan E nw s = (Ret lan, s1)"
    and r1: "(case ParseCIDR (pstr (lan_CidrBlock lan)) of
       Inl m \<Rightarrow> failP (Errorf (''parsing cidr block '' @ pstr (lan_CidrBlock lan) @ '' : '' @ m))
     | Inr (_, lanCidrBlk) \<Rightarrow>
         bindP (liftP (prepare_divs lanCidrBlk)) (\<lambda>d.
         bindP (errorf ''getting RDB list : '' (ListRdbInstances E)) (\<lambda>dbs.
         bindP (dropping (each_drop (\<lambda>db. dropWithIP (pstr (db_MasterPrivateAddress db)))
           (filter (\<lambda>db. pstr (db_NetworkId db) = nw) dbs) d)) (\<lambda>d.
         bindP (dhcp_status E nw (lan_Routers lan)) (\<lambda>(pools, static).
         bindP (dropping (each_drop (\<lambda>p. dropWithIPRange (pstr (fst p)) (pstr (snd p))) pools d)) (\<lambda>d.
         bindP (dropping (each_drop (\<lambda>l. dropWithIP (pstr (snd l))) static d)) (\<lambda>d.
         retP (pick_div d)))))))) s1 = (Ret c, t)"
    using assms unfolding recommend_cidr_def by (elim bindP_RetE) (simp only: errorf_Ret)
  show thesis
  proof (cases "ParseCIDR (pstr (lan_CidrBlock lan))")
    case (Inr ib)
    then obtain ip blk where ib: "ParseCIDR (pstr (lan_CidrBlock lan)) = Inr (ip, blk)" by (cases ib) simp
    show thesis
      using r1 unfolding ib sum.case prod.case
      by (elim bindP_RetE)
        (auto simp only: errorf_Ret liftP_Ret_iff dropping_Ret retP_def prod.case prod.inject outcome.inject
          intro!: that [OF 1 ib] split: prod.splits elim!: bindP_RetE)
  qed (use r1 in \<open>simp add: failP_def\<close>)
qed

text \<open>What is known of the answers of the cloud: LANs are IPv4, pools are not reversed.\<close>

definition ipv4_lans :: "'z env \<Rightarrow> bool" where
  "ipv4_lans E \<longleftrightarrow> (\<forall>h nw lans lan ip blk. describePrivateLans E h nw = Inr lans \<longrightarrow> lan \<in> set lans \<longrightarrow>
     ParseCIDR (pstr (lan_CidrBlock lan)) = Inr (ip, blk) \<longrightarrow> (\<exists>n. net4 blk n))"

definition good_pool :: "ip_pool \<Rightarrow> bool" where
  "good_pool p \<longleftrightarrow> val16 (ParseIP (pstr (fst p))) \<le> val16 (ParseIP (pstr (snd p)))"

definition ordered_pools :: "'z env \<Rightarrow> bool" where
  "ordered_pools E \<longleftrightarrow> (\<forall>h r sts st pools leases. describeDhcp E h r = Inr sts \<longrightarrow> st \<in> set sts \<longrightarrow>
     dhcp_Information st = Some (pools, leases) \<longrightarrow> (\<forall>p \<in> set pools. good_pool p))"

lemma dhcp_of_pools:
  assumes "dhcp_of nw sts s = (Ret (pools, leases), t)"
    and "\<forall>st \<in> set sts. \<forall>ps ls. dhcp_Information st = Some (ps, ls) \<longrightarrow> (\<forall>p \<in> set ps. good_pool p)"
  shows "\<forall>p \<in> set pools. good_pool p"
  using assms
proof (induction sts arbitrary: s pools leases)
  case (Cons i sts)
  show ?case
  proof (cases "dhcp_NetworkId i = Some nw")
    case True
    then obtain ps ls pools' leases' where i: "dhcp_Information i = Some (ps, ls)"
      and rest: "dhcp_of nw sts s = (Ret (pools', leases'), t)" "pools = ps @ pools'"
      using Cons.prems(1) by (auto simp: derefP_Ret_iff retP_def elim!: bindP_RetE)
    show ?thesis using Cons.IH [OF rest(1)] Cons.prems(2) i rest(2) by auto
  next
    case False
    then have "dhcp_of nw sts s = (Ret (pools, leases), t)"
      using Cons.prems(1) by (auto simp: derefP_Ret_iff retP_def elim!: bindP_RetE split: if_splits)
    then show ?thesis using Cons by auto
  qed
qed (simp add: retP_def)

lemma dhcp_status_pools:
  assumes "dhcp_status E nw rs s = (Ret (pools, leases), t)" "ordered_pools E"
  shows "\<forall>p \<in> set pools. good_pool p"
  using assms(1)
proof (induction rs arbitrary: s pools leases)
  case (Cons r rs)
  obtain router s1 s2 ps ls ps' ls' where
    g: "GetDhcpStatus E nw router s1 = (Ret (ps, ls), s2)"
    and rest: "dhcp_status E nw rs s2 = (Ret (ps', ls'), t)" "pools = ps @ ps'"
    using Cons.prems by (auto simp: errorf_Ret retP_def elim!: bindP_RetE)
  obtain sts s3 where "describeDhcp E (trace s1) router = Inr sts" "dhcp_of nw sts s3 = (Ret (ps, ls), s2)"
    using g by (auto simp: GetDhcpStatus_def api_def elim!: bindP_RetE split: sum.splits)
  then have "\<forall>p \<in> set ps. good_pool p"
    using assms(2) by (intro dhcp_of_pools) (auto simp: ordered_pools_def)
  then show ?case using Cons.IH [OF rest(1)] rest(2) by auto
qed (simp add: retP_def)

lemma GetPrivateLan_Ret:
  assumes "GetPrivateLan E nw s = (Ret lan, t)"
  obtains lans where "describePrivateLans E (trace s) nw = Inr lans" "lan \<in> set lans"
  using assms
  by (auto simp: GetPrivateLan_def first_item_def api_def retP_def panicP_def elim!: bindP_RetE
      split: sum.splits list.splits)

lemma each_drop_map: "each_drop (\<lambda>q. f (g q)) qs d = each_drop f (map g qs) d"
  by (induction qs arbitrary: d) (auto split: sum.split)

lemma each_drop_Inr:
  "each_drop f qs d = Inr e \<Longrightarrow> q \<in> set qs \<Longrightarrow> \<exists>d' e'. f q d' = Inr e'"
  by (induction qs arbitrary: d) (auto split: sum.splits)

lemma drop_ips:
  assumes "divs_ok d" "each_drop (\<lambda>q. dropWithIP (g q)) qs d = Inr e"
  shows "divs_ok e" "cd_divs e = filter (\<lambda>v. \<forall>q \<in> set qs. \<not> net_Contains v (ParseIP (g q))) (cd_divs d)"
proof -
  have "each_drop dropWithIP (map g qs) d = Inr e" using assms(2) by (simp add: each_drop_map)
  note e = drop_ip.each_drop_divs [OF assms(1) _ this]
  show "divs_ok e" by (rule conjunct2 [OF e]) simp
  show "cd_divs e = filter (\<lambda>v. \<forall>q \<in> set qs. \<not> net_Contains v (ParseIP (g q))) (cd_divs d)"
    using e by simp
qed

lemma drop_pools_divs:
  assumes "divs_ok d" "\<forall>p \<in> set pools. good_pool p"
    and "each_drop (\<lambda>p. dropWithIPRange (pstr (fst p)) (pstr (snd p))) pools d = Inr e"
  shows "divs_ok e" "cd_divs e = filter (\<lambda>v. \<forall>p \<in> set pools.
    \<not> isDevInRange (ParseIP (pstr (fst p))) (ParseIP (pstr (snd p))) v) (cd_divs d)"
proof -
  let ?g = "\<lambda>p. (pstr (fst p), pstr (snd p))"
  have run: "each_drop (\<lambda>(f, t). dropWithIPRange f t) (map ?g pools) d = Inr e"
    using assms(3) by (simp add: each_drop_map [symmetric])
  have wf: "\<forall>q \<in> set (map ?g pools). case q of (f, t) \<Rightarrow> val16 (ParseIP f) \<le> val16 (ParseIP t)"
    using assms(2) by (auto simp: good_pool_def)
  note e = drop_range.each_drop_divs [OF assms(1) wf run]
  show "divs_ok e" by (rule conjunct2 [OF e])
  show "cd_divs e = filter (\<lambda>v. \<forall>p \<in> set pools.
    \<not> isDevInRange (ParseIP (pstr (fst p))) (ParseIP (pstr (snd p))) v) (cd_divs d)"
    using e by simp
qed

lemma drop_pools:
  assumes "divs_ok d" "\<forall>p \<in> set pools. good_pool p"
    and drop: "each_drop (\<lambda>p. dropWithIPRange (pstr (fst p)) (pstr (snd p))) pools d = Inr e"
    and v: "v \<in> set (cd_divs e)" and p: "(f, u) \<in> set pools"
    and x: "length x = 16" "val16 (ParseIP (pstr f)) \<le> val16 x" "val16 x \<le> val16 (ParseIP (pstr u))"
  shows "\<not> net_Contains v x"
proof -
  note e = drop_pools_divs [OF assms(1,2) drop]
  obtain n where "net4 v n" using divs_ok_net4 [OF e(1) v] by blast
  moreover obtain d' e' where "dropWithIPRange (pstr f) (pstr u) d' = Inr e'"
    using each_drop_Inr [OF drop p] by auto
  then have "length (ParseIP (pstr f)) = 16" "length (ParseIP (pstr u)) = 16"
    by (auto simp: dropWithIPRange_def Let_def intro!: length_ParseIP split: if_splits)
  moreover have "\<not> isDevInRange (ParseIP (pstr f)) (ParseIP (pstr u)) v"
    using e(2) v p by fastforce
  ultimately show ?thesis
    using isDevInRange_members [of v n "ParseIP (pstr f)" "ParseIP (pstr u)"] x by auto
qed

lemma pick_div_mem:
  assumes "pick_div d \<noteq> ''''"
  obtains v where "v \<in> set (cd_divs d)" "pick_div d = net_String v"
proof
  have "cd_divs d \<noteq> []" using assms by (auto simp: pick_div_def)
  then show "cd_divs d ! (length (cd_divs d) div 2) \<in> set (cd_divs d)"
    "pick_div d = net_String (cd_divs d ! (length (cd_divs d) div 2))"
    by (auto simp: pick_div_def)
qed

text \<open>
  C17. The CIDR block the configurator recommends for NAS instances is a free part of the private
  LAN: it is one of the equal divisions of the LAN's block, has room for at least 32 addresses,
  and contains no address of a database of that network, no address of a DHCP pool and no
  static lease of its routers, as the cloud reported them during the recommendation.
\<close>

theorem recommend_cidr_free:
  assumes "ipv4_lans E" and "ordered_pools E"
    and "recommend_cidr E nw s = (Ret c, t)" and "c \<noteq> ''''"
  shows "\<exists>lan s1 ip blk dbs s2 pools leases v.
    GetPrivateLan E nw s = (Ret lan, s1) \<and> ParseCIDR (pstr (lan_CidrBlock lan)) = Inr (ip, blk) \<and>
    ListRdbInstances E s1 = (Ret dbs, s2) \<and>
    dhcp_status E nw (lan_Routers lan) s2 = (Ret (pools, leases), t) \<and>
    c = net_String v \<and> part_of blk v \<and>
    (\<forall>db \<in> set dbs. pstr (db_NetworkId db) = nw \<longrightarrow>
       \<not> net_Contains v (ParseIP (pstr (db_MasterPrivateAddress db)))) \<and>
    (\<forall>(f, u) \<in> set pools. \<forall>x. length x = 16 \<longrightarrow> val16 (ParseIP (pstr f)) \<le> val16 x \<longrightarrow>
       val16 x \<le> val16 (ParseIP (pstr u)) \<longrightarrow> \<not> net_Contains v x) \<and>
    (\<forall>l \<in> set leases. \<not> net_Contains v (ParseIP (pstr (snd l))))"
  using assms(3)
proof (rule recommend_cidr_RetE)
  fix lan s1 blk ip dbs s2 pools leases d0 d1 d2 d3
  assume lan: "GetPrivateLan E nw s = (Ret lan, s1)"
    and blk: "ParseCIDR (pstr (lan_CidrBlock lan)) = Inr (ip, blk)"
    and dbs: "ListRdbInstances E s1 = (Ret dbs, s2)"
    and dhcp: "dhcp_status E nw (lan_Routers lan) s2 = (Ret (pools, leases), t)"
    and d0: "prepare_divs blk = Inr d0"
    and d1: "each_drop (\<lambda>db. dropWithIP (pstr (db_MasterPrivateAddress db)))
       (filter (\<lambda>db. pstr (db_NetworkId db) = nw) dbs) d0 = Inr d1"
    and d2: "each_drop (\<lambda>p. dropWithIPRange (pstr (fst p)) (pstr (snd p))) pools d1 = Inr d2"
    and d3: "each_drop (\<lambda>l. dropWithIP (pstr (snd l))) leases d2 = Inr d3"
    and c: "c = pick_div d3"
  obtain lans where "describePrivateLans E (trace s) nw = Inr lans" "lan \<in> set lans"
    using lan by (rule GetPrivateLan_Ret)
  then obtain n where n: "net4 blk n" using blk assms(1) unfolding ipv4_lans_def by blast
  note ok0 = prepare_divs_parts [OF n d0]
  note e1 = drop_ips [OF ok0(1) d1]
  note pools = dhcp_status_pools [OF dhcp assms(2)]
  note e2 = drop_pools_divs [OF e1(1) pools d2]
  note e3 = drop_ips [OF e2(1) d3]
  obtain v where v: "v \<in> set (cd_divs d3)" "c = net_String v"
    using assms(4) unfolding c by (rule pick_div_mem)
  have v2: "v \<in> set (cd_divs d2)" using e3(2) v(1) by simp
  have v1: "v \<in> set (cd_divs d1)" using e2(2) v2 by simp
  have v0: "v \<in> set (cd_divs d0)" using e1(2) v1 by simp
  have db: "\<not> net_Contains v (ParseIP (pstr (db_MasterPrivateAddress db)))"
    if "db \<in> set dbs" "pstr (db_NetworkId db) = nw" for db
    using e1(2) v1 that by simp
  have lease: "\<not> net_Contains v (ParseIP (pstr (snd l)))" if "l \<in> set leases" for l
    using e3(2) v(1) that by simp
  show ?thesis
    using lan blk dbs dhcp v(2) ok0(2) v0 db lease drop_pools [OF e1(1) pools d2 v2] by blast
qed

text \<open>
  An example: the LAN 192.168.0.0/26 is divided in two, and a database, a pool and a static lease
  are in the first half.
\<close>

definition lan_env :: "'z env" where
  "lan_env = quiet_env\<lparr>
     describePrivateLans := \<lambda>h nw. Inr [\<lparr>lan_CidrBlock = Some ''192.168.0.0/26'', lan_Routers = [Some ''r1'']\<rparr>],
     describeDBs := \<lambda>h. Inr [\<lparr>db_NetworkId = Some ''net-1'', db_MasterPrivateAddress = Some ''192.168.0.4''\<rparr>,
       \<lparr>db_NetworkId = Some ''net-2'', db_MasterPrivateAddress = None\<rparr>],
     describeDhcp := \<lambda>h r. Inr [\<lparr>dhcp_NetworkId = Some ''net-1'', dhcp_Information =
       Some ([(Some ''192.168.0.8'', Some ''192.168.0.9'')],
         [(Some ''static'', Some ''192.168.0.7''), (Some ''dynamic'', Some ''192.168.0.60'')])\<rparr>]\<rparr>"

definition lan_block :: IPNet where
  "lan_block = \<lparr>net_IP = [192, 168, 0, 0], net_Mask = [255, 255, 255, 192]\<rparr>"

definition half :: "byte \<Rightarrow> IPNet" where
  "half b = \<lparr>net_IP = [192, 168, 0, b], net_Mask = [255, 255, 255, 224]\<rparr>"

lemma lan_parse:
  "ParseCIDR ''192.168.0.0/26'' = Inr (v4InV6Prefix @ [192, 168, 0, 0], lan_block)"
  "ParseIP ''192.168.0.4'' = v4InV6Prefix @ [192, 168, 0, 4]"
  "ParseIP ''192.168.0.7'' = v4InV6Prefix @ [192, 168, 0, 7]"
  "ParseIP ''192.168.0.8'' = v4InV6Prefix @ [192, 168, 0, 8]"
  "ParseIP ''192.168.0.9'' = v4InV6Prefix @ [192, 168, 0, 9]"
  by (simp_all add: lan_block_def ParseIP_def eval_simps)

lemma lan_net4: "net4 lan_block 26"
  by (simp add: net4_def lan_block_def) code_simp

lemma lan_parts:
  "prepare_divs lan_block = Inr \<lparr>cd_cidr = lan_block, cd_maskOffset = 1, cd_divs = [half 0, half 32]\<rparr>"
  by code_simp

lemma half_members:
  "net_Contains (half 0) (v4InV6Prefix @ [192, 168, 0, 4])"
  "\<not> net_Contains (half 32) (v4InV6Prefix @ [192, 168, 0, 4])"
  "\<not> net_Contains (half 32) (v4InV6Prefix @ [192, 168, 0, 7])"
  "\<not> isDevInRange (v4InV6Prefix @ [192, 168, 0, 8]) (v4InV6Prefix @ [192, 168, 0, 9]) (half 32)"
  by code_simp+

lemma lan_drops:
  "dropWithIP ''192.168.0.4'' \<lparr>cd_cidr = c, cd_maskOffset = m, cd_divs = [half 0, half 32]\<rparr> =
    Inr \<lparr>cd_cidr = c, cd_maskOffset = m, cd_divs = [half 32]\<rparr>"
  "dropWithIPRange ''192.168.0.8'' ''192.168.0.9'' \<lparr>cd_cidr = c, cd_maskOffset = m, cd_divs = [half 32]\<rparr> =
    Inr \<lparr>cd_cidr = c, cd_maskOffset = m, cd_divs = [half 32]\<rparr>"
  "dropWithIP ''192.168.0.7'' \<lparr>cd_cidr = c, cd_maskOffset = m, cd_divs = [half 32]\<rparr> =
    Inr \<lparr>cd_cidr = c, cd_maskOffset = m, cd_divs = [half 32]\<rparr>"
  by (simp_all add: dropWithIP_def dropWithIPRange_def lan_parse half_members slice_def v4InV6Prefix_def [symmetric]
      Let_def append_eq_Cons_conv)

lemma half_String: "net_String (half 32) = ''192.168.0.32/27''"
  by code_simp

lemma lan_env_run:
  "recommend_cidr lan_env ''net-1'' (\<lparr>trace = []\<rparr> :: world) =
    (Ret ''192.168.0.32/27'', \<lparr>trace = [DescribePrivateLans ''net-1'', DescribeDBInstances, DescribeDhcpStatus ''r1'']\<rparr>)"
  by (simp add: recommend_cidr_def GetPrivateLan_def ListRdbInstances_def GetDhcpStatus_def first_item_def
      errorf_def wrapP_def bindP_def api_def retP_def liftP_def dropping_def derefP_def lan_env_def
      lan_parse(1) lan_parts lan_drops pick_div_def half_String pstr_def)

lemma lan_env_contracts: "ipv4_lans lan_env" "ordered_pools lan_env"
proof -
  show "ipv4_lans lan_env"
    using lan_net4 by (auto simp: ipv4_lans_def lan_env_def pstr_def lan_parse(1))
  have "val16 (v4InV6Prefix @ [192, 168, 0, 8]) \<le> val16 (v4InV6Prefix @ [192, 168, 0, 9])"
    by (simp add: val16_def To16_def v4InV6Prefix_def)
  then show "ordered_pools lan_env"
    by (auto simp: ordered_pools_def lan_env_def good_pool_def pstr_def lan_parse)
qed

theorem recommend_cidr_free_witness:
  "\<exists>blk v. ''192.168.0.32/27'' = net_String v \<and> part_of blk v"
  using recommend_cidr_free [OF lan_env_contracts lan_env_run] by auto

text \<open>
  A LAN of 32 addresses or fewer has no parts: the configurator's update fails, although the
  recommendation is optional.
\<close>

lemma small_lan_fails:
  assumes "net4 blk n" and "27 \<le> n"
  shows "prepare_divs blk = Inl (Errorf ''initialing recommended cidr divs : mask offset must be positive value'')"
  using assms mask_Size_net4 [OF assms(1)]
  by (simp add: prepare_divs_def offset_loop_min newCidrDivs_def divideNet_def)

end
