(* ===== verification/ClassProps.thy ===== *)
theory ClassProps
  imports Configurator Driver
begin

text \<open>
  The storage classes under the configurator: an update settles the zone and the network of
  the driver's classes and keeps the rest, an installation adds the missing templates. What the
  cluster does with a class is stated as a contract on a store of classes.
\<close>

section \<open>Storage classes\<close>

text \<open>
  The documented behaviour of the cluster's API for storage classes, stated with the classes
  after a history by their names: a list that succeeds shows them once each, a creation succeeds
  for a new name only and adds the class, a deletion removes it, and other calls change nothing.
\<close>

definition class_contract :: "'z env \<Rightarrow> (history \<Rightarrow> string \<Rightarrow> StorageClass option) \<Rightarrow> bool" where
  "class_contract E store \<longleftrightarrow>
     (\<forall>h cls. listStorageClasses E h = Inr cls \<longrightarrow> distinct (map sc_name cls) \<and>
        (\<forall>cl. cl \<in> set cls \<longleftrightarrow> store h (sc_name cl) = Some cl)) \<and>
     (\<forall>h n cl. store h n = Some cl \<longrightarrow> sc_name cl = n) \<and>
     (\<forall>h cl. createStorageClass E h cl = Inr () \<longrightarrow> store h (sc_name cl) = None) \<and>
     (\<forall>h cl. store (h @ [CreateStorageClass cl]) =
        (if createStorageClass E h cl = Inr () then (store h)(sc_name cl \<mapsto> cl) else store h)) \<and>
     (\<forall>h n. store (h @ [DeleteStorageClass n]) =
        (if deleteStorageClass E h n = Inr () then (store h)(n := None) else store h)) \<and>
     (\<forall>h c. (\<forall>cl. c \<noteq> CreateStorageClass cl) \<longrightarrow> (\<forall>n. c \<noteq> DeleteStorageClass n) \<longrightarrow>
        store (h @ [c]) = store h)"

lemma class_contractD:
  assumes "class_contract E store"
  shows "listStorageClasses E h = Inr cls \<Longrightarrow> distinct (map sc_name cls)"
    and "listStorageClasses E h = Inr cls \<Longrightarrow> cl \<in> set cls \<longleftrightarrow> store h (sc_name cl) = Some cl"
    and "store h n = Some cl \<Longrightarrow> sc_name cl = n"
    and "createStorageClass E h cl = Inr () \<Longrightarrow> store h (sc_name cl) = None"
    and "createStorageClass E h cl = Inr () \<Longrightarrow>
      store (h @ [CreateStorageClass cl]) = (store h)(sc_name cl \<mapsto> cl)"
    and "deleteStorageClass E h n = Inr () \<Longrightarrow> store (h @ [DeleteStorageClass n]) = (store h)(n := None)"
    and "store (h @ [ListStorageClasses]) = store h"
    and "createStorageClass E h cl = Inl e \<Longrightarrow> store (h @ [CreateStorageClass cl]) = store h"
  using assms by (simp_all add: class_contract_def)

text \<open>The class as an update leaves it.\<close>

definition updated :: "configurator \<Rightarrow> config \<Rightarrow> StorageClass \<Rightarrow> StorageClass" where
  "updated s cfg cl =
     (if sc_provisioner cl \<noteq> cfg_Name cfg \<or>
         sc_param cl ''zone'' = cf_zone s \<and> sc_param cl ''networkId'' = cf_networkID s then cl
      else cl\<lparr>sc_parameters := map_option (class_params s) (sc_parameters cl)\<rparr>)"

lemma class_params_trace [simp]: "class_params (s\<lparr>trace := h\<rparr>) = class_params s"
  by (simp add: fun_eq_iff class_params_def Let_def cong: if_cong)

lemma updated_trace [simp]: "updated (s\<lparr>trace := h\<rparr>) cfg = updated s cfg"
  by (simp add: fun_eq_iff updated_def)

lemma updated_name [simp]: "sc_name (updated s cfg cl) = sc_name cl" "sc_provisioner (updated s cfg cl) = sc_provisioner cl"
  by (simp_all add: updated_def)

lemma sc_param_class_params:
  assumes "sc_parameters cl = Some ps"
  shows "sc_param (cl\<lparr>sc_parameters := Some (class_params s ps)\<rparr>) k =
    (if k = ''zone'' then cf_zone s else if k = ''networkId'' then cf_networkID s
     else if k = ''description'' \<and> sc_param cl k = '''' \<and> cf_clusterName s \<noteq> ''''
       then ''csi-volume of cluster:'' @ cf_clusterName s
     else if k = ''reservedIpv4Cidr'' \<and> sc_param cl k = '''' \<and> cf_cidr s \<noteq> '''' then cf_cidr s
     else sc_param cl k)"
  using assms by (auto simp: sc_param_def class_params_def Let_def)

text \<open>A class of the driver has the zone and the network of the configurator.\<close>

definition settled_class :: "configurator \<Rightarrow> config \<Rightarrow> StorageClass \<Rightarrow> bool" where
  "settled_class s cfg cl \<longleftrightarrow> (sc_provisioner cl = cfg_Name cfg \<longrightarrow>
     sc_param cl ''zone'' = cf_zone s \<and> sc_param cl ''networkId'' = cf_networkID s)"

lemma settled_class_trace [simp]: "settled_class (s\<lparr>trace := h\<rparr>) cfg = settled_class s cfg"
  by (simp add: fun_eq_iff settled_class_def)

lemma update_class_Ret:
  assumes c: "class_contract E store" and run: "update_class E cfg cl s = (Ret r, t)"
    and cl: "store (trace s) (sc_name cl) = Some cl"
  shows "r = None \<and> t = s\<lparr>trace := trace t\<rparr> \<and>
    store (trace t) = (store (trace s))(sc_name cl \<mapsto> updated s cfg cl) \<and>
    settled_class s cfg (updated s cfg cl)"
proof (cases "sc_provisioner cl \<noteq> cfg_Name cfg \<or>
    sc_param cl ''zone'' = cf_zone s \<and> sc_param cl ''networkId'' = cf_networkID s")
  case True
  then have u: "updated s cfg cl = cl" by (simp add: updated_def)
  show ?thesis
    using run True cl
    by (auto simp: update_class_def run_simps bindP_def u fun_upd_idem settled_class_def split: if_splits)
next
  case False
  then obtain ps where ps: "sc_parameters cl = Some ps"
    using run by (cases "sc_parameters cl") (auto simp: update_class_def run_simps bindP_def)
  define cl' where "cl' = cl\<lparr>sc_parameters := Some (class_params s ps)\<rparr>"
  have u: "updated s cfg cl = cl'" "sc_name cl' = sc_name cl"
    using False by (auto simp: updated_def cl'_def ps)
  let ?h = "trace s @ [DeleteStorageClass (sc_name cl)]"
  have ok: "deleteStorageClass E (trace s) (sc_name cl) = Inr ()" "createStorageClass E ?h cl' = Inr ()"
    and rt: "r = None" "t = s\<lparr>trace := ?h @ [CreateStorageClass cl']\<rparr>"
    using run False
    by (auto simp: update_class_def run_simps ps Let_def bindP_errorf_api bindP_core
        simp flip: cl'_def split: sum.splits)
  show ?thesis
    using rt class_contractD(6) [OF c ok(1)] class_contractD(5) [OF c ok(2)] u
    by (simp add: settled_class_def cl'_def sc_param_class_params [OF ps])
qed

lemma update_classes_Ret:
  assumes c: "class_contract E store" and run: "eachP cls (update_class E cfg) s = (Ret r, t)"
    and "distinct (map sc_name cls)" and "\<forall>cl \<in> set cls. store (trace s) (sc_name cl) = Some cl"
  shows "t = s\<lparr>trace := trace t\<rparr> \<and>
    (\<forall>cl \<in> set cls. store (trace t) (sc_name cl) = Some (updated s cfg cl) \<and>
       settled_class s cfg (updated s cfg cl)) \<and>
    (\<forall>n. n \<notin> sc_name ` set cls \<longrightarrow> store (trace t) n = store (trace s) n)"
  using run assms(3,4)
proof (induction cls arbitrary: s)
  case (Cons cl cls)
  obtain r1 s1 where 1: "update_class E cfg cl s = (Ret r1, s1)"
    and rest: "(case r1 of Some b \<Rightarrow> retP (Some b) | None \<Rightarrow> eachP cls (update_class E cfg)) s1 = (Ret r, t)"
    by (rule bindP_RetE [OF Cons.prems(1) [unfolded eachP.simps]])
  have u: "r1 = None" "s1 = s\<lparr>trace := trace s1\<rparr>"
    "store (trace s1) = (store (trace s))(sc_name cl \<mapsto> updated s cfg cl)"
    "settled_class s cfg (updated s cfg cl)"
    using update_class_Ret [OF c 1] Cons.prems(3) by auto
  have eq: "updated s1 cfg = updated s cfg" "settled_class s1 cfg = settled_class s cfg"
    by (metis u(2) updated_trace, metis u(2) settled_class_trace)
  have "t = s1\<lparr>trace := trace t\<rparr> \<and>
    (\<forall>cl \<in> set cls. store (trace t) (sc_name cl) = Some (updated s1 cfg cl) \<and>
       settled_class s1 cfg (updated s1 cfg cl)) \<and>
    (\<forall>n. n \<notin> sc_name ` set cls \<longrightarrow> store (trace t) n = store (trace s1) n)"
    using rest u(1,3) Cons.prems(2,3) by (intro Cons.IH) (auto simp: image_iff)
  moreover have "s1\<lparr>trace := x\<rparr> = s\<lparr>trace := x\<rparr>" for x by (subst u(2)) simp
  ultimately show ?case
    using u(3,4) Cons.prems(2) eq by (auto simp: image_iff)
qed (simp add: retP_def)

lemma class_step_simps:
  "sc_provisioner cl \<noteq> cfg_Name cfg \<Longrightarrow> class_step cfg st cl = st"
  "sc_provisioner cl = cfg_Name cfg \<Longrightarrow> sc_param cl ''zone'' = z \<Longrightarrow> sc_param cl ''networkId'' = n \<Longrightarrow>
   z \<noteq> '''' \<Longrightarrow> n \<noteq> '''' \<Longrightarrow> class_step cfg ('''', '''', False) cl = (z, n, False)"
  "sc_provisioner cl = cfg_Name cfg \<Longrightarrow> sc_param cl ''zone'' = z \<Longrightarrow> sc_param cl ''networkId'' = n \<Longrightarrow>
   z \<noteq> '''' \<Longrightarrow> n \<noteq> '''' \<Longrightarrow> class_step cfg (z, n, False) cl = (z, n, False)"
  by (auto simp: class_step_def)

lemma read_classes_settled:
  assumes "z \<noteq> ''''" "n \<noteq> ''''"
    and "\<forall>cl \<in> set cls. sc_provisioner cl = cfg_Name cfg \<longrightarrow>
      sc_param cl ''zone'' = z \<and> sc_param cl ''networkId'' = n"
    and "\<exists>cl \<in> set cls. sc_provisioner cl = cfg_Name cfg"
  shows "read_classes cfg cls = (z, n, False)"
proof -
  have after: "foldl (class_step cfg) (z, n, False) xs = (z, n, False)" if "set xs \<subseteq> set cls" for xs
    using that
  proof (induction xs)
    case (Cons cl xs)
    then show ?case
      using assms(1-3) class_step_simps(1,3) [of cl cfg]
      by (cases "sc_provisioner cl = cfg_Name cfg") simp_all
  qed simp
  have "foldl (class_step cfg) ('''', '''', False) xs =
      (if \<exists>cl \<in> set xs. sc_provisioner cl = cfg_Name cfg then (z, n, False) else ('''', '''', False))"
    if "set xs \<subseteq> set cls" for xs
    using that
  proof (induction xs)
    case (Cons cl xs)
    then show ?case
      using assms(1-3) after [of xs] class_step_simps(1,2) [of cl cfg]
      by (cases "sc_provisioner cl = cfg_Name cfg") simp_all
  qed simp
  from this [of cls] show ?thesis using assms(4) by (simp add: read_classes_def)
qed

lemma updated_param:
  assumes "sc_param (updated s cfg cl) k \<noteq> sc_param cl k"
  shows "k \<in> {''zone'', ''networkId''} \<or> k \<in> {''description'', ''reservedIpv4Cidr''} \<and> sc_param cl k = ''''"
proof (cases "sc_parameters cl")
  case None
  then show ?thesis using assms by (auto simp: updated_def sc_param_def split: if_splits)
next
  case (Some ps)
  have "updated s cfg cl = cl \<or> updated s cfg cl = cl\<lparr>sc_parameters := Some (class_params s ps)\<rparr>"
    using Some by (simp add: updated_def)
  then show ?thesis using assms sc_param_class_params [OF Some, of s k] by (auto split: if_splits)
qed

lemma setStorageClasses_Ret:
  assumes c: "class_contract E store" and run: "setStorageClasses E cfg s = (Ret (), t)"
  shows "t = s\<lparr>trace := trace t\<rparr>"
    and "store (trace t) = map_option (updated s cfg) \<circ> store (trace s)"
    and "store (trace t) n = Some cl \<Longrightarrow> settled_class s cfg cl"
proof -
  obtain cls where cls: "listStorageClasses E (trace s) = Inr cls"
    and each: "bindP (eachP cls (update_class E cfg)) (\<lambda>_. retP ()) (s\<lparr>trace := trace s @ [ListStorageClasses]\<rparr>) = (Ret (), t)"
    using run by (auto simp: setStorageClasses_def bindP_errorf_api split: sum.splits)
  define s1 where "s1 = s\<lparr>trace := trace s @ [ListStorageClasses]\<rparr>"
  obtain r where each: "eachP cls (update_class E cfg) s1 = (Ret r, t)"
    using each by (auto simp: s1_def retP_def elim!: bindP_RetE)
  have st: "store (trace s1) = store (trace s)" using class_contractD(7) [OF c] by (simp add: s1_def)
  have m: "\<forall>cl \<in> set cls. store (trace s1) (sc_name cl) = Some cl"
    using class_contractD(2) [OF c cls] st by simp
  note u = update_classes_Ret [OF c each class_contractD(1) [OF c cls] m]
  show "t = s\<lparr>trace := trace t\<rparr>" using u by (simp add: s1_def)
  have eq: "updated s1 cfg = updated s cfg" "settled_class s1 cfg = settled_class s cfg"
    by (simp_all add: s1_def)
  show st_t: "store (trace t) = map_option (updated s cfg) \<circ> store (trace s)"
  proof
    fix n
    show "store (trace t) n = (map_option (updated s cfg) \<circ> store (trace s)) n"
    proof (cases "n \<in> sc_name ` set cls")
      case True
      then show ?thesis using u m st eq by auto
    next
      case False
      then have "store (trace s) n = None"
        using class_contractD(2) [OF c cls] class_contractD(3) [OF c]
        by (metis image_eqI not_None_eq)
      then show ?thesis using u False st by simp
    qed
  qed
  assume n: "store (trace t) n = Some cl"
  then obtain x where x: "store (trace s) n = Some x" "cl = updated s cfg x" using st_t by auto
  then have "x \<in> set cls"
    using class_contractD(2) [OF c cls] class_contractD(3) [OF c x(1)] by simp
  then show "settled_class s cfg cl" using u eq x(2) by simp
qed

text \<open>
  C18. A successful update of the storage classes settles them: the next reading of the classes
  finds the written zone and network in every class of the driver and asks for no update.
  The classes keep their names and provisioners, classes of other drivers are untouched, and of
  the parameters only the zone and the network are overwritten; a description or a CIDR block
  is filled in only where there was none.
\<close>

theorem setStorageClasses_settles:
  assumes "class_contract E store"
    and "cf_zone s \<noteq> ''''" and "cf_networkID s \<noteq> ''''"
    and "store (trace s) n = Some cl" and "sc_provisioner cl = cfg_Name cfg"
    and "setStorageClasses E cfg s = (Ret (), t)"
    and "getStorageClasses E cfg t = (Ret b, u)"
  shows "\<not> b \<and> cf_zone u = cf_zone s \<and> cf_networkID u = cf_networkID s \<and>
    dom (store (trace t)) = dom (store (trace s)) \<and>
    (\<forall>m c. store (trace s) m = Some c \<longrightarrow> (\<exists>c'. store (trace t) m = Some c' \<and>
       sc_provisioner c' = sc_provisioner c \<and>
       (sc_provisioner c \<noteq> cfg_Name cfg \<longrightarrow> c' = c) \<and>
       (\<forall>k. sc_param c' k = sc_param c k \<or> k \<in> {''zone'', ''networkId''} \<or>
          k \<in> {''description'', ''reservedIpv4Cidr''} \<and> sc_param c k = '''')))"
proof -
  note set_ok = setStorageClasses_Ret [OF assms(1,6)]
  obtain cls where cls: "listStorageClasses E (trace t) = Inr cls"
    and bu: "b = (let (zone, network, update) = read_classes cfg cls in update \<or> zone = '''' \<or> network = '''')"
      "cf_zone u = fst (read_classes cfg cls)" "cf_networkID u = fst (snd (read_classes cfg cls))"
    using assms(7)
    by (auto simp: getStorageClasses_def bindP_errorf_api run_simps bindP_core Let_def
        split: sum.splits prod.splits)
  have mem: "x \<in> set cls \<longleftrightarrow> store (trace t) (sc_name x) = Some x" for x
    by (rule class_contractD(2) [OF assms(1) cls])
  have "read_classes cfg cls = (cf_zone s, cf_networkID s, False)"
  proof (rule read_classes_settled [OF assms(2,3)])
    show "\<forall>x \<in> set cls. sc_provisioner x = cfg_Name cfg \<longrightarrow>
      sc_param x ''zone'' = cf_zone s \<and> sc_param x ''networkId'' = cf_networkID s"
      using set_ok(3) mem unfolding settled_class_def by blast
    show "\<exists>x \<in> set cls. sc_provisioner x = cfg_Name cfg"
      using assms(4,5) class_contractD(3) [OF assms(1,4)] mem [of "updated s cfg cl"] set_ok(2)
      by (intro bexI [of _ "updated s cfg cl"]) auto
  qed
  then have flags: "\<not> b \<and> cf_zone u = cf_zone s \<and> cf_networkID u = cf_networkID s"
    using bu assms(2,3) by simp
  have each: "\<exists>c'. store (trace t) m = Some c' \<and> sc_provisioner c' = sc_provisioner c \<and>
       (sc_provisioner c \<noteq> cfg_Name cfg \<longrightarrow> c' = c) \<and>
       (\<forall>k. sc_param c' k = sc_param c k \<or> k \<in> {''zone'', ''networkId''} \<or>
          k \<in> {''description'', ''reservedIpv4Cidr''} \<and> sc_param c k = '''')"
    if "store (trace s) m = Some c" for m c
  proof (intro exI conjI allI impI)
    show "store (trace t) m = Some (updated s cfg c)" using that by (simp add: set_ok(2))
    show "updated s cfg c = c" if "sc_provisioner c \<noteq> cfg_Name cfg"
      using that by (simp add: updated_def)
    show "sc_param (updated s cfg c) k = sc_param c k \<or> k \<in> {''zone'', ''networkId''} \<or>
          k \<in> {''description'', ''reservedIpv4Cidr''} \<and> sc_param c k = ''''" for k
      using updated_param by blast
  qed simp
  have "dom (store (trace t)) = dom (store (trace s))" by (auto simp: set_ok(2))
  with flags each show ?thesis by blast
qed

text \<open>A cluster that keeps its classes in a list, and its contract.\<close>

fun class_list_step :: "StorageClass list \<Rightarrow> call \<Rightarrow> StorageClass list" where
  "class_list_step cls (CreateStorageClass cl) =
     (if sc_name cl \<in> sc_name ` set cls then cls else cl # cls)"
| "class_list_step cls (DeleteStorageClass n) = filter (\<lambda>c. sc_name c \<noteq> n) cls"
| "class_list_step cls _ = cls"

definition class_list :: "StorageClass list \<Rightarrow> history \<Rightarrow> StorageClass list" where
  "class_list cls h = foldl class_list_step cls h"

definition class_env :: "StorageClass list \<Rightarrow> 'z env" where
  "class_env cls = quiet_env\<lparr>
     listStorageClasses := \<lambda>h. Inr (class_list cls h),
     createStorageClass := \<lambda>h cl. if sc_name cl \<in> sc_name ` set (class_list cls h)
       then Inl (KubeErr True ''already exists'') else Inr (),
     deleteStorageClass := \<lambda>h n. Inr ()\<rparr>"

definition class_store :: "StorageClass list \<Rightarrow> history \<Rightarrow> string \<Rightarrow> StorageClass option" where
  "class_store cls h n = find (\<lambda>c. sc_name c = n) (class_list cls h)"

lemma class_list_distinct:
  assumes "distinct (map sc_name cls)"
  shows "distinct (map sc_name (class_list cls h))"
proof (induction h rule: rev_induct)
  case (snoc c h)
  then show ?case
    by (cases c) (auto simp: class_list_def distinct_map_filter)
qed (simp add: class_list_def assms)

lemma find_name:
  "distinct (map sc_name cls) \<Longrightarrow> find (\<lambda>c. sc_name c = sc_name cl) cls = Some cl \<longleftrightarrow> cl \<in> set cls"
  by (induction cls) (auto simp: image_iff)

lemma find_none: "n \<notin> sc_name ` set cls \<Longrightarrow> find (\<lambda>c. sc_name c = n) cls = None"
  by (auto simp: find_None_iff)

lemma find_delete:
  "find (\<lambda>c. sc_name c = m) (filter (\<lambda>c. sc_name c \<noteq> n) cls) =
    (if m = n then None else find (\<lambda>c. sc_name c = m) cls)"
  by (induction cls) auto

lemma class_env_contract:
  assumes "distinct (map sc_name cls)"
  shows "class_contract (class_env cls) (class_store cls)"
  unfolding class_contract_def
proof (intro conjI allI impI)
  fix h and cs :: "StorageClass list" and n and cl :: StorageClass and c
  show "distinct (map sc_name cs)" "cl \<in> set cs \<longleftrightarrow> class_store cls h (sc_name cl) = Some cl"
    if "listStorageClasses (class_env cls) h = Inr cs"
    using that class_list_distinct [OF assms, of h] find_name [of cs cl]
    by (auto simp: class_env_def class_store_def)
  show "sc_name cl = n" if "class_store cls h n = Some cl"
    using that by (auto simp: class_store_def find_Some_iff)
  show "class_store cls h (sc_name cl) = None" if "createStorageClass (class_env cls) h cl = Inr ()"
    using that find_none by (auto simp: class_env_def class_store_def split: if_splits)
  show "class_store cls (h @ [CreateStorageClass cl]) =
      (if createStorageClass (class_env cls) h cl = Inr () then (class_store cls h)(sc_name cl \<mapsto> cl)
       else class_store cls h)"
    by (auto simp: class_env_def class_store_def class_list_def)
  show "class_store cls (h @ [DeleteStorageClass n]) =
      (if deleteStorageClass (class_env cls) h n = Inr () then (class_store cls h)(n := None) else class_store cls h)"
    by (auto simp: class_env_def class_store_def class_list_def find_delete)
  show "class_store cls (h @ [c]) = class_store cls h"
    if "\<forall>cl. c \<noteq> CreateStorageClass cl" "\<forall>n. c \<noteq> DeleteStorageClass n"
    using that by (cases c) (auto simp: class_store_def class_list_def)
qed

definition old_classes :: "StorageClass list" where
  "old_classes = [\<lparr>sc_name = ''std'', sc_provisioner = cfg_Name example_config,
      sc_parameters = Some [(''instanceType'', ''0'')]\<rparr>,
    \<lparr>sc_name = ''other'', sc_provisioner = ''other'', sc_parameters = None\<rparr>]"

definition ready :: configurator where
  "ready = (newConfigurator [])\<lparr>cf_zone := ''east-11'', cf_networkID := ''net-1''\<rparr>"

lemma bindP_Pair: "bindP (Pair (Ret a)) f = f a"
  by (simp add: fun_eq_iff bindP_def)

lemma class_env_reads: "\<exists>b u. getStorageClasses (class_env cls) cfg t = (Ret b, u)"
  by (cases "read_classes cfg (class_list cls (trace t))")
    (simp add: getStorageClasses_def bindP_errorf_api bindP_core class_env_def retP_def)

lemma old_classes_run:
  "setStorageClasses (class_env old_classes) example_config ready =
    (Ret (), ready\<lparr>trace := [ListStorageClasses, DeleteStorageClass ''std'', CreateStorageClass
       \<lparr>sc_name = ''std'', sc_provisioner = cfg_Name example_config, sc_parameters =
         Some [(''networkId'', ''net-1''), (''zone'', ''east-11''), (''instanceType'', ''0'')]\<rparr>]\<rparr>)"
  by (simp add: setStorageClasses_def bindP_errorf_api update_class_def run_simps bindP_core bindP_assoc bindP_Pair
      old_classes_def class_env_def class_list_def example_config_def ready_def newConfigurator_def
      sc_param_def param_def pstr_def class_params_def set_entry_def Let_def)

theorem setStorageClasses_settles_witness:
  "\<exists>u. getStorageClasses (class_env old_classes) example_config
     (snd (setStorageClasses (class_env old_classes) example_config ready)) = (Ret False, u) \<and>
     cf_zone u = ''east-11'' \<and> cf_networkID u = ''net-1''"
proof -
  let ?t = "snd (setStorageClasses (class_env old_classes) example_config ready)"
  have c: "class_contract (class_env old_classes) (class_store old_classes)"
    by (rule class_env_contract) (simp add: old_classes_def)
  have s: "class_store old_classes (trace ready) ''std'' = Some (hd old_classes)"
    by (simp add: class_store_def class_list_def old_classes_def ready_def newConfigurator_def)
  have p: "sc_provisioner (hd old_classes) = cfg_Name example_config" by (simp add: old_classes_def)
  have r: "setStorageClasses (class_env old_classes) example_config ready = (Ret (), ?t)"
    by (simp add: old_classes_run)
  obtain b u where g: "getStorageClasses (class_env old_classes) example_config ?t = (Ret b, u)"
    using class_env_reads by blast
  have z: "cf_zone ready = ''east-11''" "cf_networkID ready = ''net-1''" by (simp_all add: ready_def)
  show ?thesis
    using setStorageClasses_settles [OF c _ _ s p r g] g by (simp add: z)
qed

text \<open>
  A class is deleted before it is created again: when the creation fails, the class is gone and
  the update returns an error. Nothing restores it but the creation of a template of that
  name at the next start.
\<close>

lemma update_class_loses:
  assumes c: "class_contract E store"
    and "sc_provisioner cl = cfg_Name cfg" "sc_param cl ''zone'' \<noteq> cf_zone s" "sc_parameters cl = Some ps"
    and "deleteStorageClass E (trace s) (sc_name cl) = Inr ()"
    and "createStorageClass E (trace s @ [DeleteStorageClass (sc_name cl)])
      (cl\<lparr>sc_parameters := Some (class_params s ps)\<rparr>) = Inl e"
  shows "\<exists>e' t. update_class E cfg cl s = (Fail e', t) \<and> store (trace t) (sc_name cl) = None"
proof -
  let ?cl = "cl\<lparr>sc_parameters := Some (class_params s ps)\<rparr>"
  have "store ((trace s @ [DeleteStorageClass (sc_name cl)]) @ [CreateStorageClass ?cl]) =
      store (trace s @ [DeleteStorageClass (sc_name cl)])"
    by (rule class_contractD(8) [OF c assms(6)])
  then show ?thesis
    using assms(2-6) class_contractD(6) [OF c assms(5)]
    by (simp add: update_class_def bindP_core bindP_errorf_api Let_def)
qed

text \<open>A class of the driver without parameters makes the update panic.\<close>

lemma update_class_nil_panics:
  assumes "sc_provisioner cl = cfg_Name cfg" "sc_parameters cl = None" "cf_zone s \<noteq> ''''"
  shows "update_class E cfg cl s = (Panic ''assignment to entry in nil map'', s)"
  using assms by (simp add: update_class_def bindP_core sc_param_def panicP_def)

section \<open>Installation\<close>

lemma map_le_Some: "m \<subseteq>\<^sub>m m' \<Longrightarrow> m k = Some v \<Longrightarrow> m' k = Some v"
  by (metis domI map_le_def)

lemma install_class_Ret:
  assumes c: "class_contract E store" and run: "install_class E cfg cls (name, it, shared, ps) s = (Ret r, t)"
  shows "r = None \<and> t = s\<lparr>trace := trace t\<rparr> \<and> store (trace s) \<subseteq>\<^sub>m store (trace t) \<and>
    (list_ex (provides cfg it shared) cls \<or>
     store (trace t) name = Some \<lparr>sc_name = name, sc_provisioner = cfg_Name cfg, sc_parameters = Some ps\<rparr>)"
proof (cases "list_ex (provides cfg it shared) cls")
  case True
  then show ?thesis using run by (simp add: install_class_def retP_def)
next
  case False
  let ?cl = "\<lparr>sc_name = name, sc_provisioner = cfg_Name cfg, sc_parameters = Some ps\<rparr>"
  have ok: "createStorageClass E (trace s) ?cl = Inr ()"
    and rt: "r = None" "t = s\<lparr>trace := trace s @ [CreateStorageClass ?cl]\<rparr>"
    using run False by (auto simp: install_class_def Let_def bindP_errorf_api retP_def split: sum.splits)
  show ?thesis
    using rt class_contractD(4,5) [OF c ok] by (auto simp: map_le_def)
qed

lemma install_classes_Ret:
  assumes c: "class_contract E store" and run: "eachP ts (install_class E cfg cls) s = (Ret r, t)"
  shows "store (trace s) \<subseteq>\<^sub>m store (trace t) \<and>
    (\<forall>(name, it, shared, ps) \<in> set ts. list_ex (provides cfg it shared) cls \<or>
      store (trace t) name = Some \<lparr>sc_name = name, sc_provisioner = cfg_Name cfg, sc_parameters = Some ps\<rparr>)"
  using run
proof (induction ts arbitrary: s)
  case (Cons x ts)
  obtain name it shared ps where x: "x = (name, it, shared, ps)" by (cases x)
  obtain r1 s1 where 1: "install_class E cfg cls x s = (Ret r1, s1)"
    and rest: "(case r1 of Some b \<Rightarrow> retP (Some b) | None \<Rightarrow> eachP ts (install_class E cfg cls)) s1 = (Ret r, t)"
    by (rule bindP_RetE [OF Cons.prems [unfolded eachP.simps]])
  note u = install_class_Ret [OF c 1 [unfolded x]]
  have IH: "store (trace s1) \<subseteq>\<^sub>m store (trace t) \<and>
    (\<forall>(name, it, shared, ps) \<in> set ts. list_ex (provides cfg it shared) cls \<or>
      store (trace t) name = Some \<lparr>sc_name = name, sc_provisioner = cfg_Name cfg, sc_parameters = Some ps\<rparr>)"
    using rest u by (intro Cons.IH) simp
  moreover have "store (trace s) \<subseteq>\<^sub>m store (trace t)"
    using u by (auto intro: map_le_trans [OF _ conjunct1 [OF IH]])
  moreover have "store (trace t) name = Some c" if "store (trace s1) name = Some c" for name c
    by (rule map_le_Some [OF conjunct1 [OF IH] that])
  ultimately show ?case using u x by auto
qed (simp add: retP_def)

text \<open>
  C23. After a successful installation every kind of volume (the instance types 0 and 1, shared and
  not) is provided by some class of the driver, and every class that existed is as it was.
\<close>

theorem installStorageClasses_provides:
  assumes "class_contract E store" and "installStorageClasses E cfg s = (Ret (), t)"
  shows "(\<forall>it \<in> {''0'', ''1''}. \<forall>shared. \<exists>cl. store (trace t) (sc_name cl) = Some cl \<and> provides cfg it shared cl) \<and>
    store (trace s) \<subseteq>\<^sub>m store (trace t)"
proof -
  obtain cls where cls: "listStorageClasses E (trace s) = Inr cls"
    and each: "bindP (eachP templates (install_class E cfg cls)) (\<lambda>_. retP ())
      (s\<lparr>trace := trace s @ [ListStorageClasses]\<rparr>) = (Ret (), t)"
    using assms(2) by (auto simp: installStorageClasses_def bindP_errorf_api split: sum.splits)
  obtain r where each: "eachP templates (install_class E cfg cls) (s\<lparr>trace := trace s @ [ListStorageClasses]\<rparr>) = (Ret r, t)"
    using each by (auto simp: retP_def elim!: bindP_RetE)
  have keep: "store (trace s) \<subseteq>\<^sub>m store (trace t)"
    using install_classes_Ret [OF assms(1) each] class_contractD(7) [OF assms(1)] by simp
  have tm: "\<forall>it \<in> {''0'', ''1''}. \<forall>shared. \<exists>name ps. (name, it, shared, ps) \<in> set templates \<and>
      param ps ''instanceType'' = it \<and> (param ps ''shared'' = ''true'') = shared"
    by (simp add: templates_def all_bool_eq param_def pstr_def)
  have "\<exists>cl. store (trace t) (sc_name cl) = Some cl \<and> provides cfg it shared cl"
    if it: "it \<in> {''0'', ''1''}" for it shared
  proof -
    obtain name ps where t: "(name, it, shared, ps) \<in> set templates" "param ps ''instanceType'' = it"
      "(param ps ''shared'' = ''true'') = shared" using tm it by blast
    then consider (old) cl where "cl \<in> set cls" "provides cfg it shared cl"
      | (new) "store (trace t) name = Some \<lparr>sc_name = name, sc_provisioner = cfg_Name cfg, sc_parameters = Some ps\<rparr>"
      using install_classes_Ret [OF assms(1) each] by (fastforce simp: list_ex_iff)
    then show ?thesis
    proof cases
      case old
      then have "store (trace s) (sc_name cl) = Some cl"
        using class_contractD(2) [OF assms(1) cls] by simp
      then have "store (trace t) (sc_name cl) = Some cl"
        by (rule map_le_Some [OF keep])
      then show ?thesis using old(2) by blast
    next
      case new
      then show ?thesis
        using t by (intro exI [of _ "\<lparr>sc_name = name, sc_provisioner = cfg_Name cfg, sc_parameters = Some ps\<rparr>"])
          (simp add: provides_def sc_param_def)
    qed
  qed
  with keep show ?thesis by blast
qed

lemma class_list_names:
  "sc_name ` set (class_list cls h) \<subseteq> sc_name ` set cls \<union> {sc_name c |c. CreateStorageClass c \<in> set h}"
proof (induction h rule: rev_induct)
  case (snoc c h)
  then show ?case by (cases c) (auto simp: class_list_def)
qed (simp add: class_list_def)

lemma class_env_installs:
  assumes "\<not> list_ex (provides cfg it shared) cs" "name \<notin> sc_name ` set cls"
    and "name \<notin> set (map (\<lambda>c. case c of CreateStorageClass cl \<Rightarrow> sc_name cl | _ \<Rightarrow> '''') (trace s))"
  shows "install_class (class_env cls) cfg cs (name, it, shared, ps) s =
    (Ret None, s\<lparr>trace := trace s @ [CreateStorageClass
       \<lparr>sc_name = name, sc_provisioner = cfg_Name cfg, sc_parameters = Some ps\<rparr>]\<rparr>)"
proof -
  have "name \<notin> {sc_name c |c. CreateStorageClass c \<in> set (trace s)}"
    using assms(3) by (force simp: image_iff)
  then have "name \<notin> sc_name ` set (class_list cls (trace s))"
    using assms(2) class_list_names [of cls "trace s"] by blast
  then show ?thesis
    using assms(1) by (simp add: install_class_def Let_def bindP_errorf_api class_env_def retP_def)
qed

lemma eachP_step: "f x s = (Ret None, t) \<Longrightarrow> eachP (x # xs) f s = eachP xs f t"
  by (simp add: bindP_def)

lemma old_classes_install:
  "\<exists>t. installStorageClasses (class_env old_classes) example_config (newConfigurator []) = (Ret (), t)"
proof -
  let ?f = "install_class (class_env old_classes) example_config old_classes"
  let ?s = "newConfigurator [ListStorageClasses]"
  have std: "list_ex (provides example_config ''0'' False) old_classes"
    "\<not> list_ex (provides example_config ''1'' False) old_classes"
    "\<not> list_ex (provides example_config it True) old_classes" for it
    by (simp_all add: provides_def old_classes_def example_config_def sc_param_def param_def pstr_def)
  have 1: "?f (n, ''0'', False, ps) s = (Ret None, s)" for n ps s
    using std by (simp add: install_class_def retP_def)
  have names: "sc_name ` set old_classes = {''std'', ''other''}"
    by (simp add: old_classes_def)
  have "\<exists>t. eachP templates ?f ?s = (Ret None, t)"
    unfolding templates_def eachP_step [of ?f, OF 1]
    by (simp add: class_env_installs std names bindP_def retP_def newConfigurator_def)
  then obtain t where t: "eachP templates ?f ?s = (Ret None, t)" by blast
  have "bindP (eachP templates ?f) (\<lambda>_. retP ()) ?s = (Ret (), t)"
    using t by (simp add: bindP_def retP_def)
  moreover have "listStorageClasses (class_env old_classes :: fenv) [] = Inr old_classes"
    by (simp add: class_env_def class_list_def)
  moreover have "(newConfigurator [])\<lparr>trace := [ListStorageClasses]\<rparr> = ?s" "trace (newConfigurator []) = []"
    by (simp_all add: newConfigurator_def)
  ultimately show ?thesis
    by (simp add: installStorageClasses_def bindP_errorf_api)
qed

theorem installStorageClasses_provides_witness:
  "\<exists>cl t. class_store old_classes t (sc_name cl) = Some cl \<and> provides example_config ''1'' True cl"
proof -
  obtain t where t: "installStorageClasses (class_env old_classes) example_config (newConfigurator []) = (Ret (), t)"
    using old_classes_install by blast
  have "class_contract (class_env old_classes :: fenv) (class_store old_classes)"
    by (rule class_env_contract) (simp add: old_classes_def)
  from installStorageClasses_provides [OF this t] show ?thesis by blast
qed

end
