(* ===== verification/DiscoveryProps.thy ===== *)
theory DiscoveryProps
  imports Configurator Driver
begin

text \<open>
  How the configurator finds the cluster's servers in the cloud, and what an update may change.
\<close>

section \<open>Servers of the computing service\<close>

text \<open>What the servers do to one node.\<close>

definition found_by :: "NodeConfig \<Rightarrow> Instance \<Rightarrow> bool" where
  "found_by nc vm \<longleftrightarrow> pstr (vm_IpAddress vm) = nc_publicIP nc"

definition node_vm :: "NodeConfig \<Rightarrow> Instance \<Rightarrow> NodeConfig" where
  "node_vm nc vm = (if found_by nc vm then nc\<lparr>nc_privateIP := pstr (vm_PrivateIpAddress vm)\<rparr> else nc)"

lemma node_vm_simps [simp]:
  "nc_publicIP (node_vm nc vm) = nc_publicIP nc" "nc_name (node_vm nc vm) = nc_name nc"
  "found_by (node_vm nc vm) = found_by nc"
  by (simp_all add: node_vm_def found_by_def fun_eq_iff)

lemma foldl_node_vm_simps [simp]:
  "nc_publicIP (foldl node_vm nc vms) = nc_publicIP nc" "nc_name (foldl node_vm nc vms) = nc_name nc"
  by (induction vms arbitrary: nc) simp_all

lemma foldl_node_vm_private:
  "\<exists>vm \<in> set vms. found_by nc vm \<Longrightarrow>
   \<exists>vm \<in> set vms. found_by nc vm \<and> nc_privateIP (foldl node_vm nc vms) = pstr (vm_PrivateIpAddress vm)"
proof (induction vms rule: rev_induct)
  case (snoc vm vms)
  have f: "found_by (foldl node_vm nc vms) vm = found_by nc vm"
    by (simp add: found_by_def)
  show ?case
    using snoc f node_vm_def [of "foldl node_vm nc vms" vm] by (cases "found_by nc vm") auto
qed simp

definition hits :: "Instance list \<Rightarrow> NodeConfig list \<Rightarrow> nat" where
  "hits vms ns = (\<Sum>vm\<leftarrow>vms. length (filter (\<lambda>nc. found_by nc vm) ns))"

lemma hits_swap: "hits vms ns = (\<Sum>nc\<leftarrow>ns. length (filter (found_by nc) vms))"
proof (induction ns)
  case Nil
  then show ?case by (simp add: hits_def sum_list_eq_0_iff)
next
  case (Cons nc ns)
  have "hits vms (nc # ns) = length (filter (found_by nc) vms) + hits vms ns"
    by (induction vms) (simp_all add: hits_def)
  then show ?case using Cons by simp
qed

lemma hits_foldl [simp]: "hits vms (map (\<lambda>nc. node_vm nc vm) ns) = hits vms ns"
  by (simp add: hits_def filter_map comp_def)

lemma vm_hit_count: "snd (snd (snd (foldl (\<lambda>acc x. vm_hit vm acc) acc xs))) = snd (snd (snd acc)) + length xs"
proof (induction xs arbitrary: acc)
  case (Cons x xs)
  have "snd (snd (snd (vm_hit vm acc))) = snd (snd (snd acc)) + 1"
    by (simp add: vm_hit_def split: prod.split)
  then show ?case using Cons by simp
qed simp

lemma vm_steps:
  "fst (foldl vm_step (ns, acc) vms) = map (\<lambda>nc. foldl node_vm nc vms) ns \<and>
   snd (snd (snd (snd (foldl vm_step (ns, acc) vms)))) = snd (snd (snd acc)) + hits vms ns"
proof (induction vms arbitrary: ns acc)
  case Nil
  then show ?case by (simp add: hits_def)
next
  case (Cons vm vms)
  have hit: "(\<lambda>nc. pstr (vm_IpAddress vm) = nc_publicIP nc) = (\<lambda>nc. found_by nc vm)"
    by (simp add: found_by_def fun_eq_iff)
  have step: "vm_step (ns, acc) vm = (map (\<lambda>nc. node_vm nc vm) ns,
      foldl (\<lambda>acc _. vm_hit vm acc) acc (filter (\<lambda>nc. found_by nc vm) ns))"
    by (simp add: vm_step_def hit Let_def node_vm_def)
  show ?case
    using Cons.IH [of "map (\<lambda>nc. node_vm nc vm) ns"
        "foldl (\<lambda>acc _. vm_hit vm acc) acc (filter (\<lambda>nc. found_by nc vm) ns)"] step
    by (simp add: vm_hit_count) (simp add: hits_def)
qed

text \<open>When no two servers share a public address, as many hits as nodes find every node.\<close>

lemma all_found:
  assumes "hits vms ns = length ns"
    and "distinct (filter (\<lambda>ip. ip \<noteq> '''') (map (\<lambda>vm. pstr (vm_IpAddress vm)) vms))"
    and "\<forall>nc \<in> set ns. nc_publicIP nc \<noteq> ''''"
  shows "\<forall>nc \<in> set ns. \<exists>vm \<in> set vms. found_by nc vm"
proof -
  have le: "length (filter (found_by nc) vms) \<le> 1" if "nc_publicIP nc \<noteq> ''''" for nc
    using assms(2) that
  proof (induction vms)
    case (Cons vm vms)
    have "filter (found_by nc) vms = []" if "found_by nc vm"
      using that Cons.prems by (force simp: filter_empty_conv found_by_def image_iff split: if_splits)
    then show ?case using Cons by (auto split: if_splits)
  qed simp
  have "(\<Sum>nc\<leftarrow>ns. length (filter (found_by nc) vms)) = length ns"
    using assms(1) by (simp add: hits_swap)
  then have "\<forall>nc \<in> set ns. length (filter (found_by nc) vms) = 1"
    using assms(3)
  proof (induction ns)
    case (Cons nc ns)
    have "(\<Sum>nc\<leftarrow>ns. length (filter (found_by nc) vms)) \<le> (\<Sum>nc\<leftarrow>ns. 1)"
      using Cons.prems(2) le by (intro sum_list_mono) simp
    then have ub: "(\<Sum>nc\<leftarrow>ns. length (filter (found_by nc) vms)) \<le> length ns"
      by (simp add: sum_list_triv)
    have "length (filter (found_by nc) vms) \<le> 1" using Cons.prems(2) le by simp
    then have "length (filter (found_by nc) vms) = 1"
      "(\<Sum>nc\<leftarrow>ns. length (filter (found_by nc) vms)) = length ns"
      using Cons.prems(1) ub by auto
    then show ?case using Cons by simp
  qed simp
  then show ?thesis by (metis filter_empty_conv length_0_conv zero_neq_one)
qed

definition distinct_public_ips :: "'z env \<Rightarrow> bool" where
  "distinct_public_ips E \<longleftrightarrow> (\<forall>h rs. describeInstances E h = Inr rs \<longrightarrow>
     distinct (filter (\<lambda>ip. ip \<noteq> '''') (map (\<lambda>vm. pstr (vm_IpAddress vm)) (concat rs))))"

text \<open>
  C22. When the servers of the cluster are found in the computing service, every node has been
  given the private address of a server with the node's public address, provided that no two
  servers share a public address; counting the matches is enough to know that none is missing.
\<close>

theorem find_in_computing_nodes:
  assumes "distinct_public_ips E"
    and "\<forall>nc \<in> set (cf_nodes s). nc_publicIP nc \<noteq> ''''"
    and "find_in_computing E any s = (Ret (), t)"
  shows "map (\<lambda>nc. (nc_name nc, nc_publicIP nc)) (cf_nodes t) = map (\<lambda>nc. (nc_name nc, nc_publicIP nc)) (cf_nodes s) \<and>
    (\<exists>rs. describeInstances E (trace s) = Inr rs \<and>
      (\<forall>nc \<in> set (cf_nodes t). \<exists>vm \<in> set (concat rs). pstr (vm_IpAddress vm) = nc_publicIP nc \<and>
         nc_privateIP nc = pstr (vm_PrivateIpAddress vm)))"
proof -
  obtain rs where rs: "describeInstances E (trace s) = Inr rs"
    using assms(3)
    by (auto simp: find_in_computing_def ListInstances_def errorf_def wrapP_def bindP_def api_def split: sum.splits)
  obtain confs network zone name k where f: "foldl vm_step (cf_nodes s, '''', '''', '''', 0) (concat rs) =
      (confs, network, zone, name, k)"
    by (metis prod_cases5)
  let ?vms = "concat rs"
  have confs: "confs = map (\<lambda>nc. foldl node_vm nc ?vms) (cf_nodes s)" and k: "k = hits ?vms (cf_nodes s)"
    using vm_steps [of "cf_nodes s" "('''', '''', '''', 0)" ?vms] f by simp_all
  have run: "errorf ''getting vm list : '' (ListInstances E) s = (Ret ?vms, s\<lparr>trace := trace s @ [DescribeInstances]\<rparr>)"
    by (simp add: ListInstances_def errorf_def wrapP_def bindP_def api_def retP_def rs)
  have "k = length (cf_nodes s)" and t: "cf_nodes t = confs"
    using assms(3) f
    by (auto simp: find_in_computing_def bindP_def [of "errorf _ _"] run bindP_core Let_def whenP_def retP_def
        modP_def failP_def split: if_splits)
  then have all: "\<forall>nc \<in> set (cf_nodes s). \<exists>vm \<in> set ?vms. found_by nc vm"
    using k assms(1,2) rs by (intro all_found) (auto simp: distinct_public_ips_def)
  have "\<exists>vm \<in> set ?vms. pstr (vm_IpAddress vm) = nc_publicIP nc \<and> nc_privateIP nc = pstr (vm_PrivateIpAddress vm)"
    if nc: "nc \<in> set (cf_nodes t)" for nc
  proof -
    obtain nc0 where nc0: "nc0 \<in> set (cf_nodes s)" "nc = foldl node_vm nc0 ?vms"
      using nc unfolding t confs by auto
    then show ?thesis
      using foldl_node_vm_private [of ?vms nc0] all by (auto simp: found_by_def)
  qed
  moreover have "map (\<lambda>nc. (nc_name nc, nc_publicIP nc)) (cf_nodes t) =
      map (\<lambda>nc. (nc_name nc, nc_publicIP nc)) (cf_nodes s)"
    by (simp add: t confs)
  ultimately show ?thesis using rs by blast
qed

definition server :: Instance where
  "server = \<lparr>vm_IpAddress = Some ''203.0.113.5'', vm_PrivateIpAddress = Some ''10.0.0.5'',
     vm_InstanceId = Some ''node1'', vm_Placement = Some (Some ''east-11''),
     vm_Interfaces = [(Some ''203.0.113.5'', Some ''net-COMMON_GLOBAL''), (Some ''10.0.0.5'', Some ''net-1'')]\<rparr>"

definition server_env :: "'z env" where
  "server_env = quiet_env\<lparr>describeInstances := \<lambda>h. Inr [[server]]\<rparr>"

definition one_node :: configurator where
  "one_node = (newConfigurator [])\<lparr>cf_nodes :=
     [\<lparr>nc_name = ''node1'', nc_publicIP = ''203.0.113.5'', nc_privateIP = ''''\<rparr>]\<rparr>"

lemma one_node_run:
  "find_in_computing server_env True one_node = (Ret (), (newConfigurator [DescribeInstances])\<lparr>
     cf_nodes := [\<lparr>nc_name = ''node1'', nc_publicIP = ''203.0.113.5'', nc_privateIP = ''10.0.0.5''\<rparr>],
     cf_networkID := ''net-1'', cf_zone := ''east-11'', cf_clusterName := ''node1''\<rparr>)"
  by (simp add: find_in_computing_def ListInstances_def errorf_def wrapP_def bindP_def api_def retP_def
      getP_def modP_def whenP_def server_env_def server_def one_node_def newConfigurator_def vm_step_def
      vm_hit_def pstr_def)

theorem find_in_computing_nodes_witness:
  "\<exists>rs. describeInstances (server_env :: fenv) [] = Inr rs \<and>
    (\<exists>vm \<in> set (concat rs). pstr (vm_IpAddress vm) = ''203.0.113.5'' \<and> ''10.0.0.5'' = pstr (vm_PrivateIpAddress vm))"
proof -
  have "distinct_public_ips (server_env :: fenv)"
    by (simp add: distinct_public_ips_def server_env_def server_def pstr_def)
  from find_in_computing_nodes [OF this _ one_node_run] show ?thesis
    by (simp add: one_node_def newConfigurator_def)
qed

section \<open>Clusters of Hatoba\<close>

text \<open>
  Before any node has registered the driver there is nothing to match, and the first cluster of
  the account has as many matches as there are nodes: it is taken for this one, with no zone.
\<close>

lemma hatoba_no_nodes: "foldl hatoba_step ([], 0, zone) ns = ([], 0, zone)"
  by (induction ns) (simp_all add: hatoba_step_def)

lemma find_in_hatoba_no_nodes:
  assumes "cf_nodes s = []" "describeClusters E (trace s) (cfg_DevEp cfg) = Inr (cl # cls)"
    and "hc_Name cl = Some name" "name \<noteq> ''''" "hc_NetworkConfig cl = Some nw"
  shows "find_in_hatoba E cfg True s = (Ret (), s\<lparr>trace := trace s @ [DescribeClusters (cfg_DevEp cfg)],
    cf_nodes := [], cf_networkID := pstr nw, cf_zone := '''', cf_clusterName := name\<rparr>)"
  using assms
  by (simp add: find_in_hatoba_def ListClusters_def bindP_errorf_api bindP_assoc try_cluster_def bindP_core
      hatoba_no_nodes Let_def bindP_def [of "derefP _"] derefP_def pstr_def)
    (simp add: retP_def modP_def)

section \<open>What an update may change\<close>

text \<open>
  The calls of the configurator: it reads, and writes the annotations of CSI nodes, storage
  classes, one secret and the bucket for snapshots.
\<close>

fun configuring :: "call \<Rightarrow> bool" where
  "configuring (UpdateCSINode n) = True"
| "configuring (CreateStorageClass c) = True"
| "configuring (DeleteStorageClass n) = True"
| "configuring (CreateSnapshotClass c) = True"
| "configuring (CreateSecret s) \<longleftrightarrow> sec_name s = ''restic-creds'' \<and> sec_namespace s = ''nifcloud-nas-csi-driver''"
| "configuring (DeleteSecret ns n) \<longleftrightarrow> n = ''restic-creds'' \<and> ns = ''nifcloud-nas-csi-driver''"
| "configuring (CreateBucket r e b) = True"
| "configuring (StoreSecret b k) = True"
| "configuring c = reading c"

lemma reading_configuring: "reading c \<Longrightarrow> configuring c"
  by (cases c) auto

lemma keeps_mod: "(\<And>s. trace (f s) = trace s) \<Longrightarrow> keeps (calls C) (modP f)"
  by (simp add: keeps_def modP_def calls_def)

lemma keeps_api_calls: "C c \<Longrightarrow> keeps (calls C) (api c answer)"
  by (rule keeps_extends_calls [OF keeps_api])

lemma keeps_errorf: "keeps (calls C) m \<Longrightarrow> keeps (calls C) (errorf pre m)"
  by (simp add: errorf_def call.keeps_wrap)

lemmas conf_intros = keeps_mod keeps_api_calls keeps_errorf call.keeps_rules

lemma keeps_getNodeConfigs: "keeps (calls configuring) (getNodeConfigs E cfg)"
  by (auto simp: getNodeConfigs_def Let_def intro!: conf_intros split: prod.split)

lemma keeps_setNodeConfigs: "keeps (calls configuring) (setNodeConfigs E cfg)"
  by (auto simp: setNodeConfigs_def annotate_node_def Let_def intro!: conf_intros)

lemma keeps_getStorageClasses: "keeps (calls configuring) (getStorageClasses E cfg)"
  by (auto simp: getStorageClasses_def Let_def intro!: conf_intros split: prod.split)

lemma keeps_setStorageClasses: "keeps (calls configuring) (setStorageClasses E cfg)"
  by (auto simp: setStorageClasses_def update_class_def Let_def intro!: conf_intros split: option.split)

lemma keeps_installStorageClasses: "keeps (calls configuring) (installStorageClasses E cfg)"
  by (auto simp: installStorageClasses_def install_class_def Let_def intro!: conf_intros split: prod.split)

lemma keeps_class_secrets: "keeps (calls configuring) (getSecretsFromSnapshotClass E name)"
  by (auto simp: getSecretsFromSnapshotClass_def Let_def intro!: conf_intros)

lemma keeps_getSnapshotClasses: "keeps (calls configuring) (getSnapshotClasses E cfg)"
proof -
  have "keeps (calls configuring) (any_usable E cfg cls)" for cls
    by (induction cls) (auto intro!: conf_intros keeps_class_secrets)
  then show ?thesis by (auto simp: getSnapshotClasses_def intro!: conf_intros)
qed

lemma keeps_setSnapshotClasses: "keeps (calls configuring) (setSnapshotClasses E cfg)"
proof -
  have "keeps (calls configuring) (createBucket E cfg b n)" for b n
    by (auto simp: createBucket_def Let_def intro!: conf_intros)
  moreover have "keeps (calls configuring) (replace_secret E (new_secret cfg cid repo pw))" for cid repo pw
    by (auto simp: replace_secret_def new_secret_def Let_def intro!: conf_intros split: sum.split)
  ultimately show ?thesis
    by (auto simp: setSnapshotClasses_def set_snapshot_class_def getClusterUID_def Let_def
        intro!: conf_intros keeps_class_secrets)
qed

lemma keeps_installSnapshotClasses: "keeps (calls configuring) (installSnapshotClasses E cfg)"
  by (auto simp: installSnapshotClasses_def Let_def intro!: conf_intros)

lemma keeps_find: "keeps (calls configuring) (find_in_hatoba E cfg any)"
  "keeps (calls configuring) (find_in_computing E any)"
  by (auto simp: find_in_hatoba_def try_cluster_def find_in_computing_def Let_def
      intro!: conf_intros keeps_extends_calls [OF keeps_network(1)] keeps_extends_calls [OF keeps_network(2)]
      split: prod.split)

lemma keeps_set_cidr: "keeps (calls configuring) (set_cidr E cfg b)"
proof -
  have "keeps (calls configuring) (dhcp_status E nw rs)" for nw rs
    by (induction rs) (auto intro!: conf_intros keeps_extends_calls [OF keeps_network(4)] split: prod.split)
  then have "keeps (calls configuring) (recommend_cidr E nw)" for nw
    by (auto simp: recommend_cidr_def dropping_def intro!: conf_intros keeps_extends_calls [OF keeps_network(3)]
        keeps_extends_calls [OF keeps_network(5)] split: prod.split sum.split)
  then show ?thesis by (auto simp: set_cidr_def intro!: conf_intros)
qed

lemma keeps_Update: "keeps (calls configuring) (Update E cfg)"
  by (auto simp: Update_def configure_def save_configs_def intro!: conf_intros keeps_getNodeConfigs keeps_getStorageClasses
      keeps_getSnapshotClasses keeps_find keeps_set_cidr keeps_setNodeConfigs keeps_setStorageClasses
      keeps_setSnapshotClasses)


section \<open>The secret of the snapshot repository\<close>

text \<open>
  The secret is created before the bucket, and once it exists the next reading of the snapshot
  classes finds it usable: a bucket that could not be created is not tried again.
\<close>

lemma new_secret_usable:
  assumes "repository \<noteq> ''''" and "password \<noteq> ''''"
  shows "usable_secrets (Inr (sec_data (new_secret cfg clusterID repository password)))"
    and "\<not> needs_secret cfg (Inr (sec_data (new_secret cfg clusterID repository password))) cl"
  using assms by (simp_all add: usable_secrets_def needs_secret_def new_secret_def param_def pstr_def)

end
