(* ===== verification/Node.thy ===== *)
theory Node
  imports Configurator Driver
begin

text \<open>
  The node server (pkg/driver/node.go) and the identity server (pkg/driver/identity.go): a volume
  is published by mounting the NAS instance at the target path and unpublished by unmounting it.
  The mounter, the file system, \<open>statfs\<close> and the shell command that reads the address of an
  interface are calls.
\<close>

section \<open>Operations\<close>

definition registerNodePrivateIP :: "'z env \<Rightarrow> config \<Rightarrow> ('z world_scheme, unit) prog" where
  "registerNodePrivateIP E cfg =
     bindP (api (InterfaceAddress (cfg_PrivateIfName cfg)) (\<lambda>h. interfaceAddress E h (cfg_PrivateIfName cfg))) (\<lambda>privateIP.
     bindP (api (GetCSINode (cfg_NodeID cfg)) (\<lambda>h. getCSINode E h (cfg_NodeID cfg))) (\<lambda>csiNode.
     let annotations = (case csn_annotations csiNode of None \<Rightarrow> [] | Some ps \<Rightarrow> ps);
         csiNode = csiNode\<lparr>csn_annotations :=
           Some (set_entry (cfg_Name cfg @ ''/privateIp'') (hd (Split privateIP (CHR ''/''))) annotations)\<rparr>
     in api (UpdateCSINode csiNode) (\<lambda>h. updateCSINode E h csiNode)))"

definition validateVolumeAttributes :: "params \<Rightarrow> gerror + unit" where
  "validateVolumeAttributes attr =
     (if param attr ''ip'' = '''' then Inl (Errorf ''volume attribute ip not set'')
      else if map_of attr ''path'' = None then Inl (Errorf ''volume attribute path not set'')
      else Inr ())"

definition isDirMounted :: "'z env \<Rightarrow> string \<Rightarrow> ('z world_scheme, bool) prog" where
  "isDirMounted E targetPath =
     bindP (api (CheckMountPoint targetPath) (\<lambda>h. likelyNotMountPoint E h targetPath)) (\<lambda>notMnt.
     retP (\<not> notMnt))"

fun IsNotExist :: "gerror \<Rightarrow> bool" where
  "IsNotExist (OsErr b m) = b"
| "IsNotExist _ = False"

definition unmountPath :: "'z env \<Rightarrow> string \<Rightarrow> ('z world_scheme, unit) prog" where
  "unmountPath E targetPath =
     bindP (tryP (isDirMounted E targetPath)) (\<lambda>r. case r of
         Inl e \<Rightarrow> if IsNotExist e then retP ()
           else failP (Errorf (''failed to check mount point '' @ quoted targetPath @ '': '' @ errText e))
       | Inr mounted \<Rightarrow> whenP mounted
           (wrapP (\<lambda>e. Errorf (''unmount '' @ quoted targetPath @ '' failed: '' @ errText e))
             (api (UnmountFs targetPath) (\<lambda>h. unmountFs E h targetPath))))"

record NodePublishVolumeRequest =
  np_TargetPath :: string
  np_Readonly :: bool
  np_Capability :: "VolumeCapability option"
  np_Context :: params

text \<open>An error of a check, returned as \<open>InvalidArgument\<close>.\<close>

definition invalid_argument :: "gerror + 'a \<Rightarrow> ('s, 'a) prog" where
  "invalid_argument r = wrapP (\<lambda>e. StatusErr InvalidArgument (errText e)) (liftP r)"

text \<open>Whether the target is mounted; a target that does not exist is made (not on Windows).\<close>

definition prepare_target :: "'z env \<Rightarrow> string \<Rightarrow> ('z world_scheme, bool) prog" where
  "prepare_target E targetPath =
     bindP (tryP (isDirMounted E targetPath)) (\<lambda>r. case r of
         Inr mounted \<Rightarrow> retP mounted
       | Inl e \<Rightarrow>
           if \<not> IsNotExist e then failP e
           else if goos E = ''windows'' then retP False
           else
             bindP (errorf (''Error making target path '' @ targetPath @ '': '')
               (api (MakeDir targetPath) (\<lambda>h. makeDir E h targetPath))) (\<lambda>_.
             bindP (errorf (''Error stat target path '' @ targetPath @ '': '')
               (api (StatPath targetPath) (\<lambda>h. statPath E h targetPath))) (\<lambda>_.
             retP False)))"

definition mount_flags :: "VolumeCapability option \<Rightarrow> string list" where
  "mount_flags c = (case c of
       Some v \<Rightarrow> (case vc_type v of Some (MountType (Some m)) \<Rightarrow> snd m | _ \<Rightarrow> [])
     | None \<Rightarrow> [])"

definition mount_target :: "'z env \<Rightarrow> NodePublishVolumeRequest \<Rightarrow> ('z world_scheme, unit) prog" where
  "mount_target E req =
     (let targetPath = np_TargetPath req; attr = np_Context req;
          source = param attr ''ip'' @ '':/'' @ param attr ''path'';
          options = (if np_Readonly req then [''ro''] else []) @ mount_flags (np_Capability req)
      in bindP (tryP (api (MountFs source targetPath ''nfs'' options)
           (\<lambda>h. mountFs E h source targetPath ''nfs'' options))) (\<lambda>r. case r of
             Inr _ \<Rightarrow> retP ()
           | Inl e \<Rightarrow>
               bindP (tryP (unmountPath E targetPath)) (\<lambda>_.
               failP (StatusErr Internal (''mount '' @ quoted targetPath @ '' failed: '' @ errText e)))))"

definition publish_check ::
  "'z env \<Rightarrow> driver \<Rightarrow> NodePublishVolumeRequest \<Rightarrow> ('z world_scheme, bool) prog" where
  "publish_check E d req =
     (if np_TargetPath req = ''''
      then failP (StatusErr InvalidArgument ''NodePublishVolume target path must be provided'')
      else bindP (invalid_argument (validateVolumeCapabilities d [np_Capability req])) (\<lambda>_.
           bindP (invalid_argument (validateVolumeAttributes (np_Context req))) (\<lambda>_.
           prepare_target E (np_TargetPath req))))"

definition NodePublishVolume ::
  "'z env \<Rightarrow> driver \<Rightarrow> NodePublishVolumeRequest \<Rightarrow> ('z world_scheme, unit) prog" where
  "NodePublishVolume E d req =
     bindP (publish_check E d req) (\<lambda>mounted. if mounted then retP () else mount_target E req)"

definition NodeUnpublishVolume :: "'z env \<Rightarrow> string \<Rightarrow> ('z world_scheme, unit) prog" where
  "NodeUnpublishVolume E targetPath =
     (if targetPath = ''''
      then failP (StatusErr InvalidArgument ''NodeUnpublishVolume target path must be provided'')
      else wrapP (\<lambda>e. StatusErr Internal (errText e)) (unmountPath E targetPath))"

definition NodeGetInfo :: "driver \<Rightarrow> string \<times> int64" where
  "NodeGetInfo d = (cfg_NodeID (drv_config d), 128)"

definition NodeGetCapabilities :: "driver \<Rightarrow> node_rpc list" where
  "NodeGetCapabilities d = drv_nscap d"

record volumeStats =
  availBytes :: int64
  totalBytes :: int64
  usedBytes :: int64
  availInodes :: int64
  totalInodes :: int64
  usedInodes :: int64

definition stats_of :: "Statfs \<Rightarrow> volumeStats" where
  "stats_of fs =
     \<lparr>availBytes = i64 (sint (fs_Bavail fs) * fs_Bsize fs),
      totalBytes = i64 (sint (fs_Blocks fs) * fs_Bsize fs),
      usedBytes = i64 (i64 (sint (fs_Blocks fs) - sint (fs_Bfree fs)) * fs_Bsize fs),
      availInodes = sint (fs_Ffree fs),
      totalInodes = sint (fs_Files fs),
      usedInodes = i64 (sint (fs_Files fs) - sint (fs_Ffree fs))\<rparr>"

definition getVolumeStats :: "'z env \<Rightarrow> string \<Rightarrow> ('z world_scheme, volumeStats) prog" where
  "getVolumeStats E volumePath =
     bindP (api (StatFileSystem volumePath) (\<lambda>h. statfs E h volumePath)) (\<lambda>fs. retP (stats_of fs))"

datatype usage_unit = BYTES | INODES

record VolumeUsage =
  vu_Available :: int64
  vu_Total :: int64
  vu_Used :: int64
  vu_Unit :: usage_unit

definition NodeGetVolumeStats :: "'z env \<Rightarrow> string \<Rightarrow> ('z world_scheme, VolumeUsage list) prog" where
  "NodeGetVolumeStats E volumePath =
     (if volumePath = '''' then failP (StatusErr InvalidArgument ''Error getting volume path'')
      else bindP (wrapP (\<lambda>e.
             if IsNotExist e then StatusErr NotFound (''volume path '' @ volumePath @ '' is not mounted'')
             else StatusErr Internal (''failed to retrieve statistics for volume path '' @ volumePath @ '': '' @ errText e))
           (getVolumeStats E volumePath)) (\<lambda>st.
           retP [\<lparr>vu_Available = availBytes st, vu_Total = totalBytes st, vu_Used = usedBytes st, vu_Unit = BYTES\<rparr>,
             \<lparr>vu_Available = availInodes st, vu_Total = totalInodes st, vu_Used = usedInodes st, vu_Unit = INODES\<rparr>]))"

definition NodeStageVolume :: "('s, unit) prog" where
  "NodeStageVolume = failP (StatusErr Unimplemented ''NodeStageVolume unsupported'')"

definition NodeUnstageVolume :: "('s, unit) prog" where
  "NodeUnstageVolume = failP (StatusErr Unimplemented ''NodeUnStageVolume unsupported'')"

definition NodeExpandVolume :: "('s, unit) prog" where
  "NodeExpandVolume = failP (StatusErr Unimplemented ''NodeExpandVolume unsupported'')"

section \<open>Identity\<close>

datatype plugin_capability = CONTROLLER_SERVICE

definition GetPluginInfo :: "driver \<Rightarrow> string \<times> string" where
  "GetPluginInfo d = (cfg_Name (drv_config d), cfg_Version (drv_config d))"

definition GetPluginCapabilities :: "plugin_capability list" where
  "GetPluginCapabilities = [CONTROLLER_SERVICE]"

definition Probe :: "('s, unit) prog" where
  "Probe = retP ()"

end
