(* ===== verification/NodeProps.thy ===== *)
theory NodeProps
  imports Node
begin

text \<open>
  What the node server promises: sequences of publish and unpublish requests keep at most one
  mount at every path and refine a set of published paths, overlapping ones do not; the
  statistics are exact for a file system below 2^63 bytes. The documented behaviour of the
  mounter is stated with an abstract mount table.
\<close>

section \<open>The mount table\<close>

text \<open>
  The documented behaviour of the mounter, stated with the number of mounts at a path after a
  history: a mount adds one when it succeeds, an unmount removes one, no other call changes a
  number; a check that succeeds tells whether there is one, and a path that does not exist has
  none.
\<close>

definition mount_contract :: "'z env \<Rightarrow> (history \<Rightarrow> string \<Rightarrow> nat) \<Rightarrow> bool" where
  "mount_contract E depth \<longleftrightarrow>
     (\<forall>h p b. likelyNotMountPoint E h p = Inr b \<longrightarrow> (b \<longleftrightarrow> depth h p = 0)) \<and>
     (\<forall>h p e. likelyNotMountPoint E h p = Inl (OsErr True e) \<longrightarrow> depth h p = 0) \<and>
     (\<forall>h src p t os. depth (h @ [MountFs src p t os]) =
        (if mountFs E h src p t os = Inr () then (depth h)(p := depth h p + 1) else depth h)) \<and>
     (\<forall>h p. depth (h @ [UnmountFs p]) =
        (if unmountFs E h p = Inr () then (depth h)(p := depth h p - 1) else depth h)) \<and>
     (\<forall>h p. depth (h @ [CheckMountPoint p]) = depth h \<and> depth (h @ [MakeDir p]) = depth h \<and>
        depth (h @ [StatPath p]) = depth h)"

lemma mount_contractD:
  assumes "mount_contract E depth"
  shows "likelyNotMountPoint E h p = Inr b \<Longrightarrow> b \<longleftrightarrow> depth h p = 0"
    and "likelyNotMountPoint E h p = Inl e \<Longrightarrow> IsNotExist e \<Longrightarrow> depth h p = 0"
    and "depth (h @ [MountFs src p t os]) =
      (if mountFs E h src p t os = Inr () then (depth h)(p := depth h p + 1) else depth h)"
    and "depth (h @ [UnmountFs p]) =
      (if unmountFs E h p = Inr () then (depth h)(p := depth h p - 1) else depth h)"
    and "depth (h @ [CheckMountPoint p]) = depth h"
    and "depth (h @ [MakeDir p]) = depth h"
    and "depth (h @ [StatPath p]) = depth h"
proof -
  show "likelyNotMountPoint E h p = Inl e \<Longrightarrow> IsNotExist e \<Longrightarrow> depth h p = 0"
    using assms by (cases e) (auto simp: mount_contract_def)
qed (use assms in \<open>auto simp: mount_contract_def\<close>)

lemma depth_steps:
  assumes "mount_contract E depth"
  shows "depth (h @ [CheckMountPoint p, MakeDir q]) = depth h"
    and "depth (h @ [CheckMountPoint p, MakeDir q, StatPath r]) = depth h"
    and "depth (h @ [CheckMountPoint p, UnmountFs q]) =
      (if unmountFs E (h @ [CheckMountPoint p]) q = Inr () then (depth h)(q := depth h q - 1) else depth h)"
  using mount_contractD(4) [OF assms, of "h @ [CheckMountPoint p]" q]
    mount_contractD(5) [OF assms, of h p] mount_contractD(6) [OF assms, of "h @ [CheckMountPoint p]" q]
    mount_contractD(7) [OF assms, of "h @ [CheckMountPoint p, MakeDir q]" r] by simp_all

lemma isDirMounted_run:
  "isDirMounted E p s =
     ((case likelyNotMountPoint E (trace s) p of Inl e \<Rightarrow> Fail e | Inr b \<Rightarrow> Ret (\<not> b)),
      s\<lparr>trace := trace s @ [CheckMountPoint p]\<rparr>)"
  by (simp add: isDirMounted_def bindP_def api_def retP_def split: sum.split)

lemma try_isDirMounted_run:
  "bindP (tryP (isDirMounted E p)) f s =
     f (case likelyNotMountPoint E (trace s) p of Inl e \<Rightarrow> Inl e | Inr b \<Rightarrow> Inr (\<not> b))
       (s\<lparr>trace := trace s @ [CheckMountPoint p]\<rparr>)"
  by (simp add: bindP_def tryP_def isDirMounted_run split: sum.split)

text \<open>Unmounting a path that has at most one mount.\<close>

lemma unmountPath_depth:
  assumes c: "mount_contract E depth" and run: "unmountPath E p s = (r, t)"
    and one: "depth (trace s) p \<le> 1"
  shows "r = Ret () \<and> depth (trace t) = (depth (trace s))(p := 0) \<or>
    (\<exists>e. r = Fail e) \<and> depth (trace t) = depth (trace s)"
proof (cases "likelyNotMountPoint E (trace s) p")
  case (Inl e)
  then show ?thesis
    using run mount_contractD(2) [OF c Inl]
    by (auto simp: unmountPath_def try_isDirMounted_run mount_contractD(5) [OF c] run_simps
        split: if_splits)
next
  case (Inr b)
  note b = mount_contractD(1) [OF c Inr]
  show ?thesis
    using run b one Inr
    by (auto simp: unmountPath_def try_isDirMounted_run mount_contractD(5) [OF c] depth_steps [OF c] run_simps wrapP_def api_def fun_upd_idem_iff
        split: if_splits sum.splits)
qed

lemma prepare_target_depth:
  assumes c: "mount_contract E depth" and run: "prepare_target E p s = (r, t)"
  shows "depth (trace t) = depth (trace s) \<and>
    ((\<exists>e. r = Fail e) \<or> r = Ret (depth (trace s) p \<noteq> 0))"
proof (cases "likelyNotMountPoint E (trace s) p")
  case (Inl e)
  then show ?thesis
    using run mount_contractD(2) [OF c Inl]
    by (auto simp: prepare_target_def try_isDirMounted_run mount_contractD(5) [OF c] depth_steps [OF c] run_simps
        bindP_errorf_api split: if_splits sum.splits)
next
  case (Inr b)
  then show ?thesis
    using run mount_contractD(1) [OF c Inr]
    by (auto simp: prepare_target_def try_isDirMounted_run mount_contractD(5) [OF c] run_simps)
qed

lemma invalid_argument_run:
  "bindP (invalid_argument r) f s =
     (case r of Inl e \<Rightarrow> (Fail (StatusErr InvalidArgument (errText e)), s) | Inr a \<Rightarrow> f a s)"
  by (simp add: invalid_argument_def bindP_def wrapP_def liftP_def split: sum.split)

lemma publish_check_depth:
  assumes c: "mount_contract E depth" and run: "publish_check E d req s = (r, t)"
  shows "depth (trace t) = depth (trace s) \<and>
    ((\<exists>e. r = Fail e) \<or> r = Ret (depth (trace s) (np_TargetPath req) \<noteq> 0))"
  using run prepare_target_depth [OF c]
  by (auto simp: publish_check_def invalid_argument_run run_simps split: if_splits sum.splits)

lemma mount_target_depth:
  assumes c: "mount_contract E depth" and run: "mount_target E req s = (r, t)"
    and none: "depth (trace s) (np_TargetPath req) = 0"
  shows "r = Ret () \<and> depth (trace t) = (depth (trace s))(np_TargetPath req := 1) \<or>
    (\<exists>e. r = Fail e) \<and> depth (trace t) = depth (trace s)"
proof -
  let ?p = "np_TargetPath req"
  obtain src os where run': "bindP (tryP (api (MountFs src ?p ''nfs'' os)
      (\<lambda>h. mountFs E h src ?p ''nfs'' os))) (\<lambda>r. case r of
        Inr _ \<Rightarrow> retP ()
      | Inl e \<Rightarrow> bindP (tryP (unmountPath E ?p)) (\<lambda>_.
          failP (StatusErr Internal (''mount '' @ quoted ?p @ '' failed: '' @ errText e)))) s = (r, t)"
    using run unfolding mount_target_def Let_def by blast
  show ?thesis
  proof (cases "mountFs E (trace s) src ?p ''nfs'' os")
    case (Inl e)
    let ?s = "s\<lparr>trace := trace s @ [MountFs src ?p ''nfs'' os]\<rparr>"
    obtain r1 t1 where u: "unmountPath E ?p ?s = (r1, t1)" by (cases "unmountPath E ?p ?s")
    have d: "depth (trace ?s) = depth (trace s)"
      using Inl by (simp add: mount_contractD(3) [OF c])
    have "depth (trace t1) = depth (trace s)" "r1 = Ret () \<or> (\<exists>e. r1 = Fail e)"
      using unmountPath_depth [OF c u] d none by auto
    moreover have "bindP (tryP (unmountPath E ?p)) (\<lambda>_.
        failP (StatusErr Internal (''mount '' @ quoted ?p @ '' failed: '' @ errText e))) ?s = (r, t)"
      using run' Inl by (simp add: bindP_try_api)
    ultimately show ?thesis
      using u by (auto simp: bindP_tryP failP_def)
  qed (use run' none in \<open>auto simp: bindP_try_api run_simps mount_contractD(3) [OF c]\<close>)
qed

section \<open>Publishing and unpublishing\<close>

datatype node_op = Publish NodePublishVolumeRequest | Unpublish string

fun run_op :: "'z env \<Rightarrow> driver \<Rightarrow> node_op \<Rightarrow> ('z world_scheme, unit) prog" where
  "run_op E d (Publish req) = NodePublishVolume E d req"
| "run_op E d (Unpublish p) = NodeUnpublishVolume E p"

fun run_ops :: "'z env \<Rightarrow> driver \<Rightarrow> node_op list \<Rightarrow> 'z world_scheme \<Rightarrow> unit outcome list \<times> 'z world_scheme" where
  "run_ops E d [] s = ([], s)"
| "run_ops E d (x # xs) s =
     (let (r, t) = run_op E d x s; (rs, u) = run_ops E d xs t in (r # rs, u))"

text \<open>The specification: a set of published paths that only successful requests change.\<close>

fun spec_op :: "string set \<Rightarrow> node_op \<times> unit outcome \<Rightarrow> string set" where
  "spec_op M (Publish req, Ret _) = insert (np_TargetPath req) M"
| "spec_op M (Unpublish p, Ret _) = M - {p}"
| "spec_op M (x, _) = M"

lemma publish_depth:
  assumes c: "mount_contract E depth" and run: "NodePublishVolume E d req s = (r, t)"
    and one: "depth (trace s) (np_TargetPath req) \<le> 1"
  shows "r = Ret () \<and> depth (trace t) = (depth (trace s))(np_TargetPath req := 1) \<or>
    (\<exists>e. r = Fail e) \<and> depth (trace t) = depth (trace s)"
proof -
  obtain r1 t1 where k: "publish_check E d req s = (r1, t1)" by (cases "publish_check E d req s")
  note k' = publish_check_depth [OF c k]
  show ?thesis
  proof (cases r1)
    case (Ret b)
    then have b: "b \<longleftrightarrow> depth (trace s) (np_TargetPath req) \<noteq> 0"
      and run1: "(if b then retP () else mount_target E req) t1 = (r, t)"
      using k' k run by (auto simp: NodePublishVolume_def bindP_def)
    show ?thesis
    proof (cases b)
      case True
      then have "depth (trace s) (np_TargetPath req) = 1" using b one by simp
      then have "(depth (trace s))(np_TargetPath req := 1) = depth (trace s)" by (metis fun_upd_triv)
      then show ?thesis using run1 True k' by (simp add: retP_def)
    next
      case False
      then have "mount_target E req t1 = (r, t)" "depth (trace t1) (np_TargetPath req) = 0"
        using run1 b k' by auto
      then show ?thesis using mount_target_depth [OF c, of req t1 r t] k' by simp
    qed
  qed (use k k' run in \<open>auto simp: NodePublishVolume_def bindP_def\<close>)
qed

lemma unpublish_depth:
  assumes c: "mount_contract E depth" and run: "NodeUnpublishVolume E p s = (r, t)"
    and one: "depth (trace s) p \<le> 1"
  shows "r = Ret () \<and> depth (trace t) = (depth (trace s))(p := 0) \<or>
    (\<exists>e. r = Fail e) \<and> depth (trace t) = depth (trace s)"
proof (cases "p = ''''")
  case False
  obtain r1 t1 where u: "unmountPath E p s = (r1, t1)" by (cases "unmountPath E p s")
  show ?thesis
    using unmountPath_depth [OF c u one] u run False
    by (auto simp: NodeUnpublishVolume_def wrapP_def)
qed (use run in \<open>auto simp: NodeUnpublishVolume_def run_simps\<close>)

definition published :: "(history \<Rightarrow> string \<Rightarrow> nat) \<Rightarrow> history \<Rightarrow> string set" where
  "published depth h = {p. depth h p \<noteq> 0}"

lemma run_op_spec:
  assumes c: "mount_contract E depth" and run: "run_op E d x s = (r, t)"
    and one: "\<forall>p. depth (trace s) p \<le> 1"
  shows "published depth (trace t) = spec_op (published depth (trace s)) (x, r)"
    and "\<forall>p. depth (trace t) p \<le> 1"
proof -
  have "published depth (trace t) = spec_op (published depth (trace s)) (x, r) \<and>
    (\<forall>p. depth (trace t) p \<le> 1)"
  proof (cases x)
    case (Publish req)
    then show ?thesis
      using publish_depth [OF c, of d req s r t] run one by (auto simp: published_def split: if_splits)
  next
    case (Unpublish p)
    then show ?thesis
      using unpublish_depth [OF c, of p s r t] run one by (auto simp: published_def split: if_splits)
  qed
  then show "published depth (trace t) = spec_op (published depth (trace s)) (x, r)"
    and "\<forall>p. depth (trace t) p \<le> 1" by auto
qed

text \<open>
  C16. Publishing and unpublishing, in any order and however the mounts and checks fail, refine a
  set of published paths: it grows by the target of a successful publish, shrinks by the path of a
  successful unpublish and stays as it is on every error, and no path is ever mounted twice.
\<close>

theorem node_ops_refine:
  assumes "mount_contract E depth"
    and "\<forall>p. depth (trace s) p \<le> 1"
    and "run_ops E d ops s = (rs, t)"
  shows "published depth (trace t) = foldl spec_op (published depth (trace s)) (zip ops rs) \<and>
    (\<forall>p. depth (trace t) p \<le> 1)"
  using assms(2,3)
proof (induction ops arbitrary: s rs)
  case (Cons x xs)
  obtain r u rs' where r: "run_op E d x s = (r, u)" "run_ops E d xs u = (rs', t)" "rs = r # rs'"
    using Cons.prems(2) by (auto simp: Let_def split: prod.splits)
  show ?case
    using Cons.IH [OF run_op_spec(2) [OF assms(1) r(1) Cons.prems(1)] r(2)]
      run_op_spec(1) [OF assms(1) r(1) Cons.prems(1)] r(3) by simp
qed simp

text \<open>A mounter that always succeeds, with the table its history gives.\<close>

fun depth_step :: "(string \<Rightarrow> nat) \<Rightarrow> call \<Rightarrow> string \<Rightarrow> nat" where
  "depth_step D (MountFs src p t os) = D(p := D p + 1)"
| "depth_step D (UnmountFs p) = D(p := D p - 1)"
| "depth_step D _ = D"

definition table :: "history \<Rightarrow> string \<Rightarrow> nat" where
  "table h = foldl depth_step (\<lambda>p. 0) h"

definition node_env :: "'z env" where
  "node_env = quiet_env\<lparr>
     likelyNotMountPoint := \<lambda>h p. Inr (table h p = 0),
     mountFs := \<lambda>h src p t os. Inr (),
     unmountFs := \<lambda>h p. Inr ()\<rparr>"

lemma node_env_contract: "mount_contract node_env table"
  by (simp add: mount_contract_def node_env_def table_def)

definition publish_request :: NodePublishVolumeRequest where
  "publish_request = \<lparr>np_TargetPath = ''/t'', np_Readonly = True,
     np_Capability = Some \<lparr>vc_mode = Some MULTI_NODE_MULTI_WRITER, vc_type = Some (MountType (Some ('''', [''nolock''])))\<rparr>,
     np_Context = [(''ip'', ''10.0.0.5''), (''path'', ''pvc-1'')]\<rparr>"

lemma publish_request_ok:
  "validateVolumeCapabilities example_driver [np_Capability publish_request] = Inr ()"
  "validateVolumeAttributes (np_Context publish_request) = Inr ()"
  by (simp_all add: publish_request_def validateVolumeCapabilities_def validateVolumeCapability_def
      validateVolumeAttributes_def example_driver_def param_def pstr_def)

lemma check_run:
  "publish_check node_env example_driver publish_request s =
    (Ret (table (trace s) ''/t'' \<noteq> 0), s\<lparr>trace := trace s @ [CheckMountPoint ''/t'']\<rparr>)"
  using publish_request_ok
  by (simp add: publish_check_def invalid_argument_run prepare_target_def try_isDirMounted_run
      publish_request_def node_env_def run_simps)

lemma mount_run:
  "mount_target node_env publish_request s = (Ret (), s\<lparr>trace := trace s @
    [MountFs ''10.0.0.5:/pvc-1'' ''/t'' ''nfs'' [''ro'', ''nolock'']]\<rparr>)"
  by (simp add: mount_target_def publish_request_def Let_def bindP_try_api node_env_def run_simps
      mount_flags_def param_def pstr_def)

text \<open>Publishing twice mounts once.\<close>

lemma publish_twice:
  "run_ops node_env example_driver [Publish publish_request, Publish publish_request] (\<lparr>trace = []\<rparr> :: world) =
     ([Ret (), Ret ()], \<lparr>trace = [CheckMountPoint ''/t'',
       MountFs ''10.0.0.5:/pvc-1'' ''/t'' ''nfs'' [''ro'', ''nolock''], CheckMountPoint ''/t'']\<rparr>)"
  by (simp add: NodePublishVolume_def bindP_def check_run mount_run retP_def table_def)

theorem node_ops_refine_witness:
  "published table [CheckMountPoint ''/t'',
     MountFs ''10.0.0.5:/pvc-1'' ''/t'' ''nfs'' [''ro'', ''nolock''], CheckMountPoint ''/t''] = {''/t''}"
  using node_ops_refine [OF node_env_contract _ publish_twice]
  by (simp add: publish_request_def published_def table_def)

section \<open>Overlapping requests\<close>

lemma mount_target_Ret:
  assumes c: "mount_contract E depth" and run: "mount_target E req s = (Ret (), t)"
  shows "depth (trace t) = (depth (trace s))(np_TargetPath req := depth (trace s) (np_TargetPath req) + 1)"
  using run mount_contractD(3) [OF c, of "trace s"]
  by (auto simp: mount_target_def Let_def bindP_tryP failP_def retP_def api_def
      split: sum.splits prod.splits outcome.splits)

lemma unpublish_Ret:
  assumes c: "mount_contract E depth" and run: "NodeUnpublishVolume E p s = (Ret (), t)"
  shows "depth (trace t) p = depth (trace s) p - 1"
proof (cases "likelyNotMountPoint E (trace s) p")
  case (Inl e)
  then show ?thesis
    using run mount_contractD(2) [OF c Inl]
    by (auto simp: NodeUnpublishVolume_def wrapP_Ret_iff unmountPath_def try_isDirMounted_run
        mount_contractD(5) [OF c] run_simps split: if_splits)
next
  case (Inr b)
  then show ?thesis
    using run mount_contractD(1) [OF c Inr]
    by (auto simp: NodeUnpublishVolume_def wrapP_Ret_iff unmountPath_def try_isDirMounted_run api_def
        mount_contractD(5) [OF c] depth_steps [OF c] run_simps split: if_splits sum.splits)
qed

text \<open>
  C38. Nothing serializes the requests of one volume: when two publishes both check the target
  before either mounts it, both mount it, and after a successful unpublish it is still mounted.
\<close>

theorem overlapping_publishes:
  assumes "mount_contract E depth"
    and "depth (trace s) (np_TargetPath req) = 0"
    and "publish_check E d req s = (Ret a, s1)" and "publish_check E d req s1 = (Ret b, s2)"
    and "mount_target E req s2 = (Ret (), s3)" and "mount_target E req s3 = (Ret (), s4)"
    and "NodeUnpublishVolume E (np_TargetPath req) s4 = (Ret (), t)"
  shows "\<not> a \<and> \<not> b \<and> depth (trace t) (np_TargetPath req) = 1"
  using publish_check_depth [OF assms(1,3)] publish_check_depth [OF assms(1,4)]
    mount_target_Ret [OF assms(1,5)] mount_target_Ret [OF assms(1,6)] unpublish_Ret [OF assms(1,7)] assms(2)
  by simp

theorem overlapping_publishes_witness:
  "table [CheckMountPoint ''/t'', CheckMountPoint ''/t'',
     MountFs ''10.0.0.5:/pvc-1'' ''/t'' ''nfs'' [''ro'', ''nolock''],
     MountFs ''10.0.0.5:/pvc-1'' ''/t'' ''nfs'' [''ro'', ''nolock''],
     CheckMountPoint ''/t'', UnmountFs ''/t''] ''/t'' = 1"
proof -
  let ?m = "MountFs ''10.0.0.5:/pvc-1'' ''/t'' ''nfs'' [''ro'', ''nolock'']"
  let ?k = "CheckMountPoint ''/t''"
  have "NodeUnpublishVolume node_env ''/t'' (\<lparr>trace = [?k, ?k, ?m, ?m]\<rparr> :: world) =
    (Ret (), \<lparr>trace = [?k, ?k, ?m, ?m, ?k, UnmountFs ''/t'']\<rparr>)"
    by (simp add: NodeUnpublishVolume_def unmountPath_def try_isDirMounted_run wrapP_def api_def
        node_env_def table_def run_simps)
  moreover have "np_TargetPath publish_request = ''/t''" by (simp add: publish_request_def)
  ultimately show ?thesis
    using overlapping_publishes [OF node_env_contract, of "\<lparr>trace = []\<rparr> :: world" publish_request
        example_driver False "\<lparr>trace = [?k]\<rparr>" False "\<lparr>trace = [?k, ?k]\<rparr>" "\<lparr>trace = [?k, ?k, ?m]\<rparr>"
        "\<lparr>trace = [?k, ?k, ?m, ?m]\<rparr>"]
    by (simp add: check_run mount_run table_def)
qed

section \<open>Statistics\<close>

text \<open>A file system whose size is below \<open>2 ^ 63\<close> bytes and whose counts are consistent.\<close>

definition sound_statfs :: "Statfs \<Rightarrow> bool" where
  "sound_statfs fs \<longleftrightarrow> 0 < fs_Bsize fs \<and> uint (fs_Blocks fs) * fs_Bsize fs < 2 ^ 63 \<and>
     fs_Bavail fs \<le> fs_Bfree fs \<and> fs_Bfree fs \<le> fs_Blocks fs \<and>
     fs_Ffree fs \<le> fs_Files fs \<and> uint (fs_Files fs) < 2 ^ 63"

lemma sint_small: "uint (w :: 64 word) < 2 ^ 63 \<Longrightarrow> sint w = uint w"
  using signed_take_bit_int_eq_self [of 63 "uint w"] order_trans [OF _ uint_ge_0 [of w]]
  by (simp add: sint_uint)

lemma i64_small: "0 \<le> x \<Longrightarrow> x < 2 ^ 63 \<Longrightarrow> i64 x = x"
  by (rule i64_id) (simp add: in_i64_def)

text \<open>
  C27. For a consistent file system below \<open>2 ^ 63\<close> bytes the statistics are exact: no conversion to
  a signed integer and no product wraps around, no number is negative, and the bytes used and
  available do not exceed the total.
\<close>

theorem volume_stats_exact:
  assumes "sound_statfs fs"
  shows "stats_of fs =
     \<lparr>availBytes = uint (fs_Bavail fs) * fs_Bsize fs,
      totalBytes = uint (fs_Blocks fs) * fs_Bsize fs,
      usedBytes = (uint (fs_Blocks fs) - uint (fs_Bfree fs)) * fs_Bsize fs,
      availInodes = uint (fs_Ffree fs),
      totalInodes = uint (fs_Files fs),
      usedInodes = uint (fs_Files fs) - uint (fs_Ffree fs)\<rparr> \<and>
    usedBytes (stats_of fs) + availBytes (stats_of fs) \<le> totalBytes (stats_of fs)"
proof -
  let ?n = "\<lambda>w :: 64 word. uint w"
  let ?b = "fs_Bsize fs"
  have b: "0 < ?b" and tot: "?n (fs_Blocks fs) * ?b < 2 ^ 63"
    and le: "?n (fs_Bavail fs) \<le> ?n (fs_Bfree fs)" "?n (fs_Bfree fs) \<le> ?n (fs_Blocks fs)"
      "?n (fs_Ffree fs) \<le> ?n (fs_Files fs)" "?n (fs_Files fs) < 2 ^ 63"
    using assms by (auto simp: sound_statfs_def word_le_def)
  have mono: "x * ?b \<le> ?n (fs_Blocks fs) * ?b" if "x \<le> ?n (fs_Blocks fs)" for x
    using that b by simp
  have scale: "x \<le> x * ?b" if "0 \<le> x" for x
    using mult_left_mono [of 1 ?b x] that b by simp
  have small: "?n (fs_Blocks fs) < 2 ^ 63" using scale [of "?n (fs_Blocks fs)"] tot by simp
  have s: "sint (fs_Bavail fs) = ?n (fs_Bavail fs)" "sint (fs_Blocks fs) = ?n (fs_Blocks fs)"
    "sint (fs_Bfree fs) = ?n (fs_Bfree fs)" "sint (fs_Ffree fs) = ?n (fs_Ffree fs)"
    "sint (fs_Files fs) = ?n (fs_Files fs)"
    using le small by (auto intro!: sint_small)
  have w: "i64 (x * ?b) = x * ?b" if "0 \<le> x" "x \<le> ?n (fs_Blocks fs)" for x
    using that(1) b le_less_trans [OF mono [OF that(2)] tot] by (intro i64_small) simp_all
  have d: "i64 (?n (fs_Blocks fs) - ?n (fs_Bfree fs)) = ?n (fs_Blocks fs) - ?n (fs_Bfree fs)"
    "i64 (?n (fs_Files fs) - ?n (fs_Ffree fs)) = ?n (fs_Files fs) - ?n (fs_Ffree fs)"
    using le small by (auto intro!: i64_small le_less_trans [OF diff_mono [OF order_refl uint_ge_0]])
  have "(?n (fs_Blocks fs) - ?n (fs_Bfree fs)) * ?b + ?n (fs_Bavail fs) * ?b \<le> ?n (fs_Blocks fs) * ?b"
    using mono [of "?n (fs_Blocks fs) - ?n (fs_Bfree fs) + ?n (fs_Bavail fs)"] le
    by (simp add: distrib_right)
  then show ?thesis
    using le by (simp add: stats_of_def s w d)
qed

theorem volume_stats_exact_witness:
  "usedBytes (stats_of \<lparr>fs_Bavail = 80, fs_Blocks = 100, fs_Bfree = 90, fs_Bsize = 4096, fs_Ffree = 7, fs_Files = 10\<rparr>) = 40960"
proof -
  have "sound_statfs \<lparr>fs_Bavail = 80, fs_Blocks = 100, fs_Bfree = 90, fs_Bsize = 4096, fs_Ffree = 7, fs_Files = 10\<rparr>"
    by (simp add: sound_statfs_def)
  from volume_stats_exact [OF this] show ?thesis by simp
qed

end
