(* ===== verification/Url.thy ===== *)
theory Url
  imports NetIP NasInstance
begin

text \<open>
  The function \<open>Parse\<close> of Go's package \<open>net/url\<close>, as far as the gRPC server reads its result:
  scheme, host and path, and the errors.
\<close>

record url =
  Scheme :: string
  Host :: string
  Path :: string

datatype encoding = encodePath | encodeHost | encodeZone | encodeUserPassword | encodeFragment

section \<open>Escapes\<close>

definition is_letter :: "char \<Rightarrow> bool" where
  "is_letter c \<longleftrightarrow> (65 \<le> (of_char c :: nat) \<and> (of_char c :: nat) \<le> 90) \<or>
     (97 \<le> (of_char c :: nat) \<and> (of_char c :: nat) \<le> 122)"

text \<open>\<open>shouldEscape\<close> in a host or a zone.\<close>

definition host_char :: "char \<Rightarrow> bool" where
  "host_char c \<longleftrightarrow> is_letter c \<or> is_digit c \<or> c \<in> set ''-_.~!$&()*+,;=:[]<>'' \<or>
     c = CHR 0x27 \<or> c = CHR 0x22"

text \<open>Whether an escaped byte is refused: its first digit and its value.\<close>

definition bad_escape :: "encoding \<Rightarrow> nat \<Rightarrow> nat \<Rightarrow> bool" where
  "bad_escape mode d v \<longleftrightarrow>
     (mode = encodeHost \<and> d < 8 \<and> v \<noteq> 37) \<or>
     (mode = encodeZone \<and> v \<noteq> 37 \<and> v \<noteq> 32 \<and> \<not> host_char (char_of v))"

definition bad_char :: "encoding \<Rightarrow> char \<Rightarrow> bool" where
  "bad_char mode c \<longleftrightarrow> (mode = encodeHost \<or> mode = encodeZone) \<and> (of_char c :: nat) < 128 \<and> \<not> host_char c"

definition escape_error :: "string \<Rightarrow> gerror" where
  "escape_error s = Errorf (''invalid URL escape '' @ quoted s)"

definition hex_pair :: "string \<Rightarrow> (nat \<times> nat) option" where
  "hex_pair s = (case s of
       a # b # _ \<Rightarrow> (case (hex_val a, hex_val b) of (Some d, Some e) \<Rightarrow> Some (d, 16 * d + e) | _ \<Rightarrow> None)
     | _ \<Rightarrow> None)"

function unescape :: "encoding \<Rightarrow> string \<Rightarrow> gerror + string" where
  "unescape mode [] = Inr []"
| "unescape mode (c # s) =
     (if c = CHR ''%'' then
        (case hex_pair s of
           None \<Rightarrow> Inl (escape_error (c # take 2 s))
         | Some (d, v) \<Rightarrow>
             if bad_escape mode d v then Inl (escape_error (c # take 2 s))
             else map_sum id (Cons (char_of v)) (unescape mode (drop 2 s)))
      else if bad_char mode c then Inl (Errorf (''invalid character '' @ quoted [c] @ '' in host name''))
      else map_sum id (Cons c) (unescape mode s))"
  by pat_completeness auto

termination by (relation "measure (\<lambda>(mode, s). length s)") auto

section \<open>Authority\<close>

definition cut_last :: "char \<Rightarrow> string \<Rightarrow> (string \<times> string) option" where
  "cut_last c s = (if c \<in> set s
     then Some (rev (tl (dropWhile (\<lambda>x. x \<noteq> c) (rev s))), rev (takeWhile (\<lambda>x. x \<noteq> c) (rev s)))
     else None)"

fun cut_at :: "string \<Rightarrow> string \<Rightarrow> (string \<times> string) option" where
  "cut_at sub [] = None"
| "cut_at sub (c # s) = (if HasPrefix (c # s) sub then Some ([], c # s)
     else map_option (\<lambda>(a, b). (c # a, b)) (cut_at sub s))"

definition validOptionalPort :: "string \<Rightarrow> bool" where
  "validOptionalPort p = (case p of [] \<Rightarrow> True | c # ds \<Rightarrow> c = CHR '':'' \<and> list_all is_digit ds)"

definition invalid_port :: "string \<Rightarrow> gerror" where
  "invalid_port p = Errorf (''invalid port '' @ quoted p @ '' after host'')"

definition parseHost :: "string \<Rightarrow> gerror + string" where
  "parseHost host =
     (if HasPrefix host ''['' then
        (case cut_last (CHR '']'') host of
           None \<Rightarrow> Inl (Errorf (''missing '' @ [CHR 0x27, CHR '']'', CHR 0x27] @ '' in host''))
         | Some (b, port) \<Rightarrow>
             if \<not> validOptionalPort port then Inl (invalid_port port)
             else case cut_at ''%25'' b of
                 None \<Rightarrow> unescape encodeHost host
               | Some (h, z) \<Rightarrow>
                   (case unescape encodeHost h of Inl e \<Rightarrow> Inl e | Inr h1 \<Rightarrow>
                   (case unescape encodeZone z of Inl e \<Rightarrow> Inl e | Inr h2 \<Rightarrow>
                   (case unescape encodeHost (CHR '']'' # port) of Inl e \<Rightarrow> Inl e | Inr h3 \<Rightarrow>
                    Inr (h1 @ h2 @ h3)))))
      else case cut_last (CHR '':'') host of
          Some (b, p) \<Rightarrow> if \<not> validOptionalPort (CHR '':'' # p) then Inl (invalid_port (CHR '':'' # p))
            else unescape encodeHost host
        | None \<Rightarrow> unescape encodeHost host)"

definition validUserinfo :: "string \<Rightarrow> bool" where
  "validUserinfo s = list_all (\<lambda>c. is_letter c \<or> is_digit c \<or> c \<in> set ''-._:~!$&()*+,;=%@'' \<or> c = CHR 0x27) s"

definition parseAuthority :: "string \<Rightarrow> gerror + string" where
  "parseAuthority authority =
     (case cut_last (CHR ''@'') authority of
        None \<Rightarrow> parseHost authority
      | Some (userinfo, h) \<Rightarrow>
          (case parseHost h of Inl e \<Rightarrow> Inl e | Inr host \<Rightarrow>
             if \<not> validUserinfo userinfo then Inl (Errorf ''net/url: invalid userinfo'')
             else case unescape encodeUserPassword userinfo of Inl e \<Rightarrow> Inl e | Inr _ \<Rightarrow> Inr host))"

section \<open>The URL\<close>

definition getScheme :: "string \<Rightarrow> gerror + string \<times> string" where
  "getScheme u =
     (let p = (\<lambda>c. is_letter c \<or> is_digit c \<or> c \<in> set ''+-.'')
      in case dropWhile p u of
          c # rest \<Rightarrow>
            if c \<noteq> CHR '':'' then Inr ('''', u)
            else (case takeWhile p u of
                [] \<Rightarrow> Inl (Errorf ''missing protocol scheme'')
              | d # ds \<Rightarrow> if is_letter d then Inr (d # ds, rest) else Inr ('''', u))
        | [] \<Rightarrow> Inr ('''', u))"

definition set_path :: "string \<Rightarrow> string \<Rightarrow> string \<Rightarrow> gerror + url" where
  "set_path scheme host rest =
     map_sum id (\<lambda>p. \<lparr>Scheme = scheme, Host = host, Path = p\<rparr>) (unescape encodePath rest)"

definition parse_url :: "string \<Rightarrow> gerror + url" where
  "parse_url u =
     (if list_ex (\<lambda>c. (of_char c :: nat) < 32 \<or> (of_char c :: nat) = 127) u
      then Inl (Errorf ''net/url: invalid control character in URL'')
      else if u = ''*'' then Inr \<lparr>Scheme = '''', Host = '''', Path = ''*''\<rparr>
      else case getScheme u of Inl e \<Rightarrow> Inl e | Inr (sch, r) \<Rightarrow>
        let scheme = ToLower sch; rest = takeWhile (\<lambda>c. c \<noteq> CHR ''?'') r
        in if \<not> HasPrefix rest ''/'' \<and> scheme \<noteq> ''''
           then Inr \<lparr>Scheme = scheme, Host = '''', Path = ''''\<rparr> \<comment> \<open>an opaque URL\<close>
           else if \<not> HasPrefix rest ''/'' \<and> CHR '':'' \<in> set (takeWhile (\<lambda>c. c \<noteq> CHR ''/'') rest)
           then Inl (Errorf ''first path segment in URL cannot contain colon'')
           else if (scheme \<noteq> '''' \<or> \<not> HasPrefix rest ''///'') \<and> HasPrefix rest ''//''
           then (case parseAuthority (takeWhile (\<lambda>c. c \<noteq> CHR ''/'') (drop 2 rest)) of
               Inl e \<Rightarrow> Inl e
             | Inr host \<Rightarrow> set_path scheme host (dropWhile (\<lambda>c. c \<noteq> CHR ''/'') (drop 2 rest)))
           else set_path scheme '''' rest)"

text \<open>The fragment is cut off first and only checked; an error names the URL.\<close>

definition url_Parse :: "string \<Rightarrow> gerror + url" where
  "url_Parse raw =
     (let u = takeWhile (\<lambda>c. c \<noteq> CHR ''#'') raw; frag = tl (dropWhile (\<lambda>c. c \<noteq> CHR ''#'') raw)
      in case parse_url u of
          Inl e \<Rightarrow> Inl (Errorf (''parse '' @ quoted u @ '': '' @ errText e))
        | Inr v \<Rightarrow> (case unescape encodeFragment frag of
            Inl e \<Rightarrow> Inl (Errorf (''parse '' @ quoted raw @ '': '' @ errText e))
          | Inr _ \<Rightarrow> Inr v))"

text \<open>An endpoint of a plain absolute path after the scheme is that path.\<close>

lemma unescape_plain:
  assumes "CHR ''%'' \<notin> set s" "mode \<noteq> encodeHost" "mode \<noteq> encodeZone"
  shows "unescape mode s = Inr s"
  using assms by (induction s) (auto simp: bad_char_def)

definition plain_char :: "char \<Rightarrow> bool" where
  "plain_char c \<longleftrightarrow> is_letter c \<or> is_digit c \<or> c \<in> set ''/._-''"

lemma plain_char_simps:
  assumes "plain_char c"
  shows "c \<noteq> CHR ''#''" "c \<noteq> CHR ''?''" "c \<noteq> CHR ''%''" "32 \<le> (of_char c :: nat)" "(of_char c :: nat) \<noteq> 127"
  using assms by (auto simp: plain_char_def is_letter_def is_digit_def)

lemma unescape_path: "list_all plain_char s \<Longrightarrow> unescape encodePath s = Inr s"
  by (rule unescape_plain) (auto simp: list_all_iff dest: plain_char_simps(3))

lemma takeWhile_plain:
  assumes "list_all plain_char s"
  shows "takeWhile (\<lambda>c. c \<noteq> CHR ''#'') s = s" "dropWhile (\<lambda>c. c \<noteq> CHR ''#'') s = []"
    "takeWhile (\<lambda>c. c \<noteq> CHR ''?'') s = s"
  using assms plain_char_simps(1,2) by (auto simp: list_all_iff)

lemma plain_no_ctl:
  "list_all plain_char s \<Longrightarrow> \<not> list_ex (\<lambda>c. (of_char c :: nat) < 32 \<or> (of_char c :: nat) = 127) s"
  by (auto simp: list_all_iff list_ex_iff not_less dest: plain_char_simps(4,5))

lemma url_Parse_unix:
  assumes "list_all plain_char p" "\<not> HasPrefix p ''/''"
  shows "url_Parse (''unix:/'' @ p) = Inr \<lparr>Scheme = ''unix'', Host = '''', Path = CHR ''/'' # p\<rparr>"
proof -
  have scheme: "getScheme (''unix:/'' @ p) = Inr (''unix'', CHR ''/'' # p)"
    by (simp add: getScheme_def is_letter_def is_digit_def)
  have "parse_url (''unix:/'' @ p) = Inr \<lparr>Scheme = ''unix'', Host = '''', Path = CHR ''/'' # p\<rparr>"
    using assms plain_no_ctl [OF assms(1)]
    unfolding parse_url_def scheme
    by (simp add: takeWhile_plain set_path_def unescape_path bad_char_def HasPrefix_def lower_char_eval)
  then show ?thesis
    using assms(1) by (simp add: url_Parse_def takeWhile_plain)
qed

end
