(* ===== verification/Server.thy ===== *)
theory Server
  imports Url Node
begin

text \<open>
  The gRPC server (pkg/driver/server.go): it removes a stale socket, listens on the endpoint and
  registers the services it was given. The removal, the listener and the gRPC library are calls
  of its own, which it records.
\<close>

datatype service = IdentityService | ControllerService | NodeService

datatype server_call =
    RemoveFile string
  | Listen string string
  | Serve "service list"
  | GracefulStop
  | ForcedStop

record nonBlockingGRPCServer =
  wg :: int \<comment> \<open>the counter of the wait group\<close>
  server :: "service list option"
  server_calls :: "server_call list"

type_synonym 'a srvprog = "(nonBlockingGRPCServer, 'a) prog"

text \<open>The answers of the file system, the listener and the library.\<close>

record net_env =
  removeFile :: "server_call list \<Rightarrow> string \<Rightarrow> gerror + unit"
  listen :: "server_call list \<Rightarrow> string \<Rightarrow> string \<Rightarrow> gerror + unit"
  serving :: "server_call list \<Rightarrow> service list \<Rightarrow> gerror + unit"

definition NewNonBlockingGRPCServer :: nonBlockingGRPCServer where
  "NewNonBlockingGRPCServer = \<lparr>wg = 0, server = None, server_calls = []\<rparr>"

definition srv_call :: "server_call \<Rightarrow> (server_call list \<Rightarrow> gerror + 'a) \<Rightarrow> 'a srvprog" where
  "srv_call c answer s =
     ((case answer (server_calls s) of Inl e \<Rightarrow> Fail e | Inr a \<Rightarrow> Ret a),
      s\<lparr>server_calls := server_calls s @ [c]\<rparr>)"

text \<open>\<open>glog.Fatalf\<close> ends the process.\<close>

definition fatalP :: "string \<Rightarrow> ('s, 'a) prog \<Rightarrow> ('s, 'a) prog" where
  "fatalP m p = bindP (tryP p) (\<lambda>r. case r of Inl e \<Rightarrow> panicP (m @ errText e) | Inr a \<Rightarrow> retP a)"

lemma fatalP_Ret: "fatalP m p s = (Ret a, t) \<longleftrightarrow> p s = (Ret a, t)"
  by (auto simp: fatalP_def bindP_tryP panicP_def retP_def split: prod.splits outcome.splits)

section \<open>Operations\<close>

definition registered_services :: "bool \<Rightarrow> bool \<Rightarrow> bool \<Rightarrow> service list" where
  "registered_services ids cs ns =
     (if ids then [IdentityService] else []) @ (if cs then [ControllerService] else []) @
     (if ns then [NodeService] else [])"

text \<open>The address to listen on; the file of a Unix socket is removed first.\<close>

definition serve_addr :: "net_env \<Rightarrow> url \<Rightarrow> string srvprog" where
  "serve_addr N u =
     (if Scheme u = ''unix'' then
        bindP (tryP (srv_call (RemoveFile (Path u)) (\<lambda>h. removeFile N h (Path u)))) (\<lambda>r. case r of
            Inl e \<Rightarrow> if IsNotExist e then retP (Path u)
              else panicP (''Failed to remove '' @ Path u @ '', error: '' @ errText e)
          | Inr _ \<Rightarrow> retP (Path u))
      else if Scheme u = ''tcp'' then retP (Host u)
      else panicP (Scheme u @ '' endpoint scheme not supported''))"

definition serve :: "net_env \<Rightarrow> string \<Rightarrow> bool \<Rightarrow> bool \<Rightarrow> bool \<Rightarrow> unit srvprog" where
  "serve N endpoint ids cs ns =
     bindP (fatalP '''' (liftP (url_Parse endpoint))) (\<lambda>u.
     bindP (serve_addr N u) (\<lambda>addr.
     bindP (fatalP ''Failed to listen: '' (srv_call (Listen (Scheme u) addr) (\<lambda>h. listen N h (Scheme u) addr))) (\<lambda>_.
     let svcs = registered_services ids cs ns
     in bindP (modP (\<lambda>s. s\<lparr>server := Some svcs\<rparr>)) (\<lambda>_.
        bindP (tryP (srv_call (Serve svcs) (\<lambda>h. serving N h svcs))) (\<lambda>_. retP ())))))"

text \<open>
  \<open>Start\<close> up to the goroutine that runs \<open>serve\<close>; \<open>Wait\<close> is blocked while the counter of the
  wait group is positive. \<open>Stop\<close> and \<open>ForceStop\<close> use the library's server, which is nil until
  \<open>serve\<close> has made it.
\<close>

definition Start :: "unit srvprog" where
  "Start = modP (\<lambda>s. s\<lparr>wg := wg s + 1\<rparr>)"

definition Wait :: "unit srvprog" where
  "Wait s = (if wg s > 0 then (Blocked, s) else (Ret (), s))"

definition Stop :: "unit srvprog" where
  "Stop = bindP (getP server) (\<lambda>p. bindP (derefP p) (\<lambda>_. srv_call GracefulStop (\<lambda>_. Inr ())))"

definition ForceStop :: "unit srvprog" where
  "ForceStop = bindP (getP server) (\<lambda>p. bindP (derefP p) (\<lambda>_. srv_call ForcedStop (\<lambda>_. Inr ())))"

text \<open>The interceptor of every request: it logs, and hands on what the handler returns.\<close>

definition logGRPC :: "('s, 'a) prog \<Rightarrow> ('s, 'a) prog" where
  "logGRPC handler = bindP (tryP handler) (\<lambda>r. case r of Inl e \<Rightarrow> failP e | Inr resp \<Rightarrow> retP resp)"

lemma logGRPC_transparent: "logGRPC handler = handler"
  by (simp add: fun_eq_iff logGRPC_def bindP_tryP failP_def retP_def split: prod.split outcome.split)

section \<open>Listening\<close>

lemma serve_addr_Ret:
  assumes "serve_addr N u s = (Ret addr, t)"
  shows "(Scheme u = ''unix'' \<and> addr = Path u \<and>
      (removeFile N (server_calls s) (Path u) = Inr () \<or>
       (\<exists>m. removeFile N (server_calls s) (Path u) = Inl (OsErr True m))) \<and>
      t = s\<lparr>server_calls := server_calls s @ [RemoveFile (Path u)]\<rparr>) \<or>
    (Scheme u = ''tcp'' \<and> addr = Host u \<and> t = s)"
proof (cases "Scheme u = ''unix''")
  case True
  then show ?thesis
    using assms
    by (auto simp: serve_addr_def bindP_tryP srv_call_def panicP_def retP_def
        split: sum.splits if_splits elim: IsNotExist.elims)
qed (use assms in \<open>auto simp: serve_addr_def panicP_def retP_def split: if_splits\<close>)


definition plain_net :: net_env where
  "plain_net = \<lparr>removeFile = \<lambda>h p. Inl (OsErr True ''no such file''),
     listen = \<lambda>h n a. Inr (), serving = \<lambda>h svcs. Inr ()\<rparr>"

lemma default_endpoint:
  "url_Parse ''unix:/tmp/csi.sock'' = Inr \<lparr>Scheme = ''unix'', Host = '''', Path = ''/tmp/csi.sock''\<rparr>"
  by code_simp


section \<open>Waiting\<close>

text \<open>
  Nothing takes a one off the counter: once started, the server keeps \<open>Wait\<close> blocked through any
  sequence of the other operations, stopping included.
\<close>

datatype server_op = Serving string bool bool bool | Stopping | Forcing

fun server_op_run :: "net_env \<Rightarrow> server_op \<Rightarrow> unit srvprog" where
  "server_op_run N (Serving endpoint ids cs ns) = serve N endpoint ids cs ns"
| "server_op_run N Stopping = Stop"
| "server_op_run N Forcing = ForceStop"

interpretation waits: step_contract "\<lambda>s t. wg t = wg s"
  by unfold_locales simp_all

lemma keeps_wg_core:
  "keeps (\<lambda>s t. wg t = wg s) (srv_call c f)"
  "keeps (\<lambda>s t. wg t = wg s) (modP (\<lambda>s. s\<lparr>server := p\<rparr>))"
  by (simp_all add: keeps_def srv_call_def modP_def)

lemma keeps_wg: "keeps (\<lambda>s t. wg t = wg s) (server_op_run N op)"
proof -
  have "keeps (\<lambda>s t. wg t = wg s) (serve_addr N u)" for u
    unfolding serve_addr_def
    by (auto intro!: waits.keeps_rules keeps_wg_core split: sum.split)
  then show ?thesis
    by (cases op) (auto simp: serve_def fatalP_def Stop_def ForceStop_def Let_def
        intro!: waits.keeps_rules keeps_wg_core split: sum.split)
qed

lemma Wait_blocked: "wg s > 0 \<Longrightarrow> Wait s = (Blocked, s)"
  by (simp add: Wait_def)

lemma Wait_never_returns:
  "fst (Wait (foldl (\<lambda>s op. snd (server_op_run N op s)) (snd (Start NewNonBlockingGRPCServer)) ops)) = Blocked"
proof -
  let ?run = "foldl (\<lambda>s op. snd (server_op_run N op s))"
  have "wg (?run s ops) = wg s" for s
    by (induction ops arbitrary: s) (use keeps_wg in \<open>auto simp: keeps_def\<close>)
  then show ?thesis
    by (simp add: Wait_blocked Start_def modP_def NewNonBlockingGRPCServer_def)
qed

end
