(* ===== verification/Startup.thy ===== *)
theory Startup
  imports Server NSGSyncer
begin

text \<open>
  Starting the driver (\<open>Run\<close> in pkg/driver/driver.go): what it does before it waits for the gRPC
  server, whose goroutine is \<open>start_server\<close>. The tasks that run periodically in the background are its result, with their
  periods; the configurator's first update and the registration of the node's private address
  run in the foreground. The last section is the main program (main.go): its flags, the
  configuration made of them and the errors that end it.
\<close>

datatype task = RunUpdate int64 | RunNSGSyncer int64

text \<open>Any error but a permanent one makes \<open>backoff.RetryNotify\<close> try again.\<close>

definition attempt_of :: "('s, unit) prog \<Rightarrow> ('s, attempt) prog" where
  "attempt_of m = bindP (tryP m) (\<lambda>r. case r of Inl e \<Rightarrow> retP (Transient e) | Inr _ \<Rightarrow> retP Done)"

definition start_controller :: "fenv \<Rightarrow> config \<Rightarrow> (configurator, task list) prog" where
  "start_controller E cfg =
     bindP (if cfg_Configurator cfg
            then bindP (tryP (Init E cfg)) (\<lambda>_. bindP (getP cf_chkIntvl) (\<lambda>i. retP [RunUpdate i]))
            else retP []) (\<lambda>tasks.
     bindP (getP trace) (\<lambda>h. retP (tasks @ [RunNSGSyncer (SyncPeriod (newNSGSyncer cfg h))])))"

definition Run :: "fenv \<Rightarrow> driver \<Rightarrow> (configurator, task list) prog" where
  "Run E d =
     (let cfg = drv_config d
      in bindP (if cfg_RunController cfg then start_controller E cfg else retP []) (\<lambda>tasks.
         bindP (whenP (cfg_RunNode cfg \<and> cfg_PrivateIPReg cfg)
           (fatalP ''Exit by error in registering node private IP: ''
             (retry E (attempt_of (registerNodePrivateIP E cfg))))) (\<lambda>_.
         retP tasks)))"

text \<open>
  The server that \<open>Run\<close> starts first, and its goroutine: the services it is given are those
  that \<open>NewNifcloudNasDriver\<close> made. \<open>Stop\<close> of the driver does nothing before \<open>Run\<close>.
\<close>

definition start_server :: "net_env \<Rightarrow> driver \<Rightarrow> string \<Rightarrow> unit srvprog" where
  "start_server N d endpoint =
     bindP Start (\<lambda>_. serve N endpoint True (cfg_RunController (drv_config d)) (cfg_RunNode (drv_config d)))"

definition stop_driver :: "bool \<Rightarrow> unit srvprog" where
  "stop_driver running = whenP running Stop"

section \<open>Registration\<close>

lemma registerNodePrivateIP_Ret:
  assumes "registerNodePrivateIP E cfg s = (Ret (), t)"
  shows "\<exists>h ip n. interfaceAddress E (trace s) (cfg_PrivateIfName cfg) = Inr ip \<and>
    trace t = h @ [UpdateCSINode n] \<and> updateCSINode E h n = Inr () \<and>
    csn_annotation n (cfg_Name cfg @ ''/privateIp'') = hd (Split ip (CHR ''/''))"
proof -
  obtain ip csi where ip: "interfaceAddress E (trace s) (cfg_PrivateIfName cfg) = Inr ip"
    and csi: "getCSINode E (trace s @ [InterfaceAddress (cfg_PrivateIfName cfg)]) (cfg_NodeID cfg) = Inr csi"
    using assms
    by (auto simp: registerNodePrivateIP_def bindP_def api_def split: sum.splits)
  let ?h = "trace s @ [InterfaceAddress (cfg_PrivateIfName cfg), GetCSINode (cfg_NodeID cfg)]"
  let ?key = "cfg_Name cfg @ ''/privateIp''"
  obtain ps where n: "updateCSINode E ?h (csi\<lparr>csn_annotations := Some (set_entry ?key (hd (Split ip (CHR ''/''))) ps)\<rparr>) = Inr ()"
    "trace t = ?h @ [UpdateCSINode (csi\<lparr>csn_annotations := Some (set_entry ?key (hd (Split ip (CHR ''/''))) ps)\<rparr>)]"
    using assms ip csi
    by (auto simp: registerNodePrivateIP_def bindP_def api_def Let_def split: sum.splits)
  show ?thesis
    by (rule exI [of _ ?h], rule exI [of _ ip],
        rule exI [of _ "csi\<lparr>csn_annotations := Some (set_entry ?key (hd (Split ip (CHR ''/''))) ps)\<rparr>"])
      (simp add: ip n csn_annotation_def del: append_assoc)
qed

lemma attempt_of_Done: "attempt_of m s = (Ret Done, t) \<longleftrightarrow> m s = (Ret (), t)"
  by (auto simp: attempt_of_def bindP_tryP retP_def split: prod.splits outcome.splits)


definition node_config_example :: config where
  "node_config_example = example_config\<lparr>cfg_RunController := False, cfg_RunNode := True,
     cfg_NodeID := ''node-1'', cfg_PrivateIPReg := True\<rparr>"

definition register_env :: "string \<Rightarrow> 'z env" where
  "register_env out = quiet_env\<lparr>
     interfaceAddress := \<lambda>h i. Inr out,
     getCSINode := \<lambda>h n. Inr \<lparr>csn_name = n, csn_drivers = [], csn_annotations = None\<rparr>,
     updateCSINode := \<lambda>h n. Inr ()\<rparr>"

definition node_driver :: driver where
  "node_driver = \<lparr>drv_config = node_config_example, drv_vcap = [], drv_cscap = [], drv_nscap = [GET_VOLUME_STATS]\<rparr>"

definition registered :: "string \<Rightarrow> call list" where
  "registered ip = [InterfaceAddress ''ens192'', GetCSINode ''node-1'', UpdateCSINode
     \<lparr>csn_name = ''node-1'', csn_drivers = [],
      csn_annotations = Some [(''nas.csi.storage.nifcloud.com/privateIp'', ip)]\<rparr>]"

lemma Run_example:
  assumes "hd (Split out (CHR ''/'')) = ip"
  shows "Run (register_env out) node_driver (newConfigurator []) =
    (Ret [], newConfigurator (registered ip))"
proof -
  have "registerNodePrivateIP (register_env out) node_config_example (newConfigurator []) =
    (Ret (), newConfigurator (registered ip))"
    by (simp add: registerNodePrivateIP_def bindP_def api_def register_env_def newConfigurator_def
        node_config_example_def example_config_def registered_def set_entry_def assms)
  then have "attempt_of (registerNodePrivateIP (register_env out) node_config_example) (newConfigurator []) =
    (Ret Done, newConfigurator (registered ip))" by (simp add: attempt_of_Done)
  then have "retry (register_env out) (attempt_of (registerNodePrivateIP (register_env out) node_config_example))
      (newConfigurator []) = (Ret (), newConfigurator (registered ip))"
    by (simp add: register_env_def numeral_2_eq_2 bindP_def retP_def)
  then show ?thesis
    unfolding Run_def Let_def fatalP_def
    by (simp add: node_driver_def node_config_example_def tryP_def bindP_def retP_def whenP_def)
qed


text \<open>
  When the interface has no address the pipeline of the shell prints nothing and its last
  command succeeds: the driver registers the empty address without an error or a retry.
\<close>

lemma Run_registers_empty:
  "Run (register_env '''') node_driver (newConfigurator []) = (Ret [], newConfigurator (registered ''''))"
  by (rule Run_example) simp

section \<open>The program\<close>

text \<open>The flags of pkg main.\<close>

record flags =
  fl_endpoint :: string
  fl_nodeID :: string
  fl_privateIfName :: string
  fl_region :: string
  fl_kubeconfig :: string
  fl_runController :: bool
  fl_runNode :: bool
  fl_privateIPReg :: bool
  fl_cidrBlkRcmd :: bool
  fl_cfgSnapRepo :: bool
  fl_hatoba :: bool
  fl_configurator :: bool
  fl_restoreClstID :: bool
  fl_devCloudEP :: string
  fl_defSnapEP :: string
  fl_clusterUID :: string

definition default_flags :: flags where
  "default_flags =
     \<lparr>fl_endpoint = ''unix:/tmp/csi.sock'', fl_nodeID = '''', fl_privateIfName = ''ens192'', fl_region = ''jp-east-1'',
      fl_kubeconfig = '''',
      fl_runController = False, fl_runNode = False, fl_privateIPReg = False, fl_cidrBlkRcmd = False,
      fl_cfgSnapRepo = False, fl_hatoba = False, fl_configurator = True, fl_restoreClstID = True,
      fl_devCloudEP = '''', fl_defSnapEP = ''jp-east-2.storage.api.nifcloud.com'', fl_clusterUID = ''''\<rparr>"

definition flag_config :: "flags \<Rightarrow> config" where
  "flag_config fl =
     \<lparr>cfg_Name = ''nas.csi.storage.nifcloud.com'', cfg_Version = ''v0.6.0c'',
      cfg_NodeID = fl_nodeID fl, cfg_RunController = fl_runController fl, cfg_RunNode = fl_runNode fl,
      cfg_RestoreClstID = fl_restoreClstID fl, cfg_ClusterUID = fl_clusterUID fl,
      cfg_Region = fl_region fl, cfg_DevEp = fl_devCloudEP fl, cfg_PrivateIfName = fl_privateIfName fl,
      cfg_PrivateIPReg = fl_privateIPReg fl, cfg_Configurator = fl_configurator fl,
      cfg_Hatoba = fl_hatoba fl, cfg_CidrBlkRcmd = fl_cidrBlkRcmd fl, cfg_CfgSnapRepo = fl_cfgSnapRepo fl,
      cfg_DefaultSnapEndpoint = fl_defSnapEP fl\<rparr>"

text \<open>
  What the libraries of Kubernetes give for building the clients of the cluster: a configuration
  of their own type \<open>'r\<close>, from inside a pod or from a master's address and a file, and whether
  the two clients can be built from it. The clients themselves are the environment.
\<close>

record 'r client_lib =
  InClusterConfig :: "gerror + 'r"
  BuildConfigFromFlags :: "string \<Rightarrow> string \<Rightarrow> gerror + 'r"
  kube_NewForConfig :: "'r \<Rightarrow> gerror + unit"
  snap_NewForConfig :: "'r \<Rightarrow> gerror + unit"

definition rest_config :: "'r client_lib \<Rightarrow> flags \<Rightarrow> ('s, 'r) prog" where
  "rest_config L fl =
     (if fl_kubeconfig fl = ''''
      then fatalP ''Error building kubeconfig in cluster: '' (liftP (InClusterConfig L))
      else fatalP ''Error building kubeconfig out of cluster: ''
        (liftP (BuildConfigFromFlags L '''' (fl_kubeconfig fl))))"

definition cluster_clients :: "'r client_lib \<Rightarrow> flags \<Rightarrow> ('s, unit) prog" where
  "cluster_clients L fl =
     bindP (rest_config L fl) (\<lambda>cfg.
     bindP (fatalP ''Error building kubernetes clientset: '' (liftP (kube_NewForConfig L cfg))) (\<lambda>_.
     fatalP ''Error building snapshot clientset: '' (liftP (snap_NewForConfig L cfg))))"

definition main :: "'r client_lib \<Rightarrow> fenv \<Rightarrow> flags \<Rightarrow> (configurator, task list) prog" where
  "main L E fl =
     bindP (cluster_clients L fl) (\<lambda>_.
     bindP (whenP (fl_runController fl)
       (fatalP ''Failed to initialize cloud provider: ''
         (bindP (liftP (NewCloud E (fl_region fl) (fl_devCloudEP fl))) (\<lambda>_. retP ())))) (\<lambda>_.
     bindP (fatalP ''Failed to initialize Nifcloud Nas CSI Driver: ''
       (liftP (NewNifcloudNasDriver (flag_config fl)))) (\<lambda>d. Run E d)))"

lemma start_controller_Ret: "start_controller E cfg s = (Ret tasks, t) \<Longrightarrow> last tasks = RunNSGSyncer 30"
  by (auto simp: start_controller_def newNSGSyncer_def retP_def getP_def elim!: bindP_RetE)

lemma cluster_clients_Ret:
  assumes "cluster_clients L fl s = (Ret (), t)"
  shows "t = s \<and> (\<exists>cfg. (if fl_kubeconfig fl = '''' then InClusterConfig L
      else BuildConfigFromFlags L '''' (fl_kubeconfig fl)) = Inr cfg \<and>
    kube_NewForConfig L cfg = Inr () \<and> snap_NewForConfig L cfg = Inr ())"
  using assms
  by (auto simp: cluster_clients_def rest_config_def fatalP_Ret liftP_Ret_iff elim!: bindP_RetE split: if_splits)

lemma NewNifcloudNasDriver_config: "NewNifcloudNasDriver c = Inr d \<Longrightarrow> drv_config d = c"
  by (auto simp: NewNifcloudNasDriver_def addVolumeCapabilityAccessModes_def
      addNodeServiceCapabilities_def addControllerServiceCapabilities_def Let_def split: if_splits)


definition node_flags :: flags where
  "node_flags = default_flags\<lparr>fl_runNode := True, fl_nodeID := ''node-1'', fl_kubeconfig := ''/etc/kubeconfig''\<rparr>"

definition file_lib :: "string client_lib" where
  "file_lib = \<lparr>InClusterConfig = Inl (Errorf ''unable to load in-cluster configuration''),
     BuildConfigFromFlags = (\<lambda>master path. Inr path), kube_NewForConfig = (\<lambda>_. Inr ()), snap_NewForConfig = (\<lambda>_. Inr ())\<rparr>"


text \<open>In a process outside the cluster that is given no file, the program ends.\<close>

lemma main_no_config:
  "main file_lib (quiet_env :: fenv) (node_flags\<lparr>fl_kubeconfig := ''''\<rparr>) s =
   (Panic ''Error building kubeconfig in cluster: unable to load in-cluster configuration'', s)"
  by (simp add: main_def cluster_clients_def rest_config_def file_lib_def fatalP_def liftP_def bindP_def tryP_def
      panicP_def)

end
