(* ===== verification/Threads.thy ===== *)
theory Threads
  imports Reservation World
begin

text \<open>
  Programs that can be interrupted. A goroutine is a sequence of atomic steps, each a function of
  the state and of an environment chosen anew for the step: what the services answer may have
  changed in any way since the last one. \<open>exec\<close> runs a thread without interruption, and gives the
  programs of the theory GoProgram back; \<open>pstep\<close> interleaves any number of threads over one state.
  The locale \<open>workers\<close> is the discipline under which threads share the keys of a reservation.
\<close>

datatype ('e, 's, 'a) thread =
    Halt "'a outcome"
  | Step "'e \<Rightarrow> 's \<Rightarrow> 's" "'e \<Rightarrow> 's \<Rightarrow> ('e, 's, 'a) thread"

lemma thread_induct [case_names Halt Step]:
  assumes "\<And>r. P (Halt r)" and "\<And>u n. (\<And>E s. P (n E s)) \<Longrightarrow> P (Step u n)"
  shows "P m"
proof (induction m)
  case (Step u n)
  show ?case by (rule assms(2)) (use Step in blast)
qed (rule assms(1))

primrec exec :: "'e \<Rightarrow> ('e, 's, 'a) thread \<Rightarrow> ('s, 'a) prog" where
  "exec E (Halt r) = (\<lambda>s. (r, s))"
| "exec E (Step u n) = (\<lambda>s. exec E (n E s) (u E s))"

text \<open>A program as one atomic step.\<close>

definition atomT :: "('e \<Rightarrow> ('s, 'a) prog) \<Rightarrow> ('e, 's, 'a) thread" where
  "atomT m = Step (\<lambda>E s. snd (m E s)) (\<lambda>E s. Halt (fst (m E s)))"

definition retT :: "'a \<Rightarrow> ('e, 's, 'a) thread" where
  "retT a = Halt (Ret a)"

definition failT :: "gerror \<Rightarrow> ('e, 's, 'a) thread" where
  "failT e = Halt (Fail e)"

primrec bindT :: "('e, 's, 'a) thread \<Rightarrow> ('a \<Rightarrow> ('e, 's, 'b) thread) \<Rightarrow> ('e, 's, 'b) thread" where
  "bindT (Halt r) f = (case r of
       Ret a \<Rightarrow> f a | Fail e \<Rightarrow> Halt (Fail e) | Panic p \<Rightarrow> Halt (Panic p) | Blocked \<Rightarrow> Halt Blocked)"
| "bindT (Step u n) f = Step u (\<lambda>E s. bindT (n E s) f)"

text \<open>The outcome of a thread changed by a function that keeps \<open>Blocked\<close>.\<close>

primrec mapT :: "('a outcome \<Rightarrow> 'b outcome) \<Rightarrow> ('e, 's, 'a) thread \<Rightarrow> ('e, 's, 'b) thread" where
  "mapT g (Halt r) = Halt (case r of Blocked \<Rightarrow> Blocked | _ \<Rightarrow> g r)"
| "mapT g (Step u n) = Step u (\<lambda>E s. mapT g (n E s))"

fun caught :: "'a outcome \<Rightarrow> (gerror + 'a) outcome" where
  "caught (Ret a) = Ret (Inr a)"
| "caught (Fail e) = Ret (Inl e)"
| "caught (Panic p) = Panic p"
| "caught Blocked = Blocked"

definition tryT :: "('e, 's, 'a) thread \<Rightarrow> ('e, 's, gerror + 'a) thread" where
  "tryT m = mapT caught m"

definition wrapT :: "(gerror \<Rightarrow> gerror) \<Rightarrow> ('e, 's, 'a) thread \<Rightarrow> ('e, 's, 'a) thread" where
  "wrapT g m = mapT (\<lambda>r. case r of Fail e \<Rightarrow> Fail (g e) | _ \<Rightarrow> r) m"

text \<open>After the deferred call: the outcome of the body, unless the call panics.\<close>

definition afterwards :: "'a outcome \<Rightarrow> unit outcome \<Rightarrow> 'a outcome" where
  "afterwards r d = (case d of Panic p \<Rightarrow> Panic p | _ \<Rightarrow> r)"

primrec deferT :: "('a outcome \<Rightarrow> ('e, 's, unit) thread) \<Rightarrow> ('e, 's, 'a) thread \<Rightarrow> ('e, 's, 'a) thread" where
  "deferT d (Halt r) = (case r of Blocked \<Rightarrow> Halt Blocked | _ \<Rightarrow> mapT (afterwards r) (d r))"
| "deferT d (Step u n) = Step u (\<lambda>E s. deferT d (n E s))"

section \<open>Run without interruption\<close>

lemma exec_atomT [simp]: "exec E (atomT m) = m E"
  by (simp add: atomT_def fun_eq_iff)

lemma exec_retT [simp]: "exec E (retT a) = retP a"
  by (simp add: fun_eq_iff retT_def retP_def)

lemma exec_failT [simp]: "exec E (failT e) = failP e"
  by (simp add: failT_def failP_def fun_eq_iff)

lemma exec_bindT [simp]: "exec E (bindT m f) = bindP (exec E m) (\<lambda>a. exec E (f a))"
proof
  show "exec E (bindT m f) s = bindP (exec E m) (\<lambda>a. exec E (f a)) s" for s
    by (induction m arbitrary: s rule: thread_induct) (simp_all add: bindP_def split: outcome.split)
qed

lemma exec_mapT: "exec E (mapT g m) s =
    (case exec E m s of (Blocked, t) \<Rightarrow> (Blocked, t) | (r, t) \<Rightarrow> (g r, t))"
  by (induction m arbitrary: s rule: thread_induct) (simp_all split: outcome.split)

lemma exec_tryT [simp]: "exec E (tryT m) = tryP (exec E m)"
  by (simp add: fun_eq_iff tryT_def exec_mapT tryP_def split: prod.split outcome.split)

lemma exec_wrapT [simp]: "exec E (wrapT g m) = wrapP g (exec E m)"
  by (simp add: fun_eq_iff wrapT_def exec_mapT wrapP_def split: prod.split outcome.split)

lemma exec_deferT [simp]: "exec E (deferT d m) = deferP (\<lambda>r. exec E (d r)) (exec E m)"
proof
  show "exec E (deferT d m) s = deferP (\<lambda>r. exec E (d r)) (exec E m) s" for s
    by (induction m arbitrary: s rule: thread_induct)
      (simp_all add: deferP_def exec_mapT afterwards_def split: outcome.split prod.split)
qed

section \<open>Threads interleaved\<close>

fun is_blocked :: "('e, 's, 'a) thread \<Rightarrow> bool" where
  "is_blocked (Halt Blocked) = True"
| "is_blocked _ = False"

lemma is_blocked_Halt [simp]: "is_blocked (Halt r) \<longleftrightarrow> r = Blocked"
  by (cases r) auto

text \<open>The next step; there is none for a thread that has ended or waits for a lock.\<close>

fun next_step :: "'e \<Rightarrow> 's \<Rightarrow> ('e, 's, 'a) thread \<Rightarrow> ('s \<times> ('e, 's, 'a) thread) option" where
  "next_step E s (Halt r) = None"
| "next_step E s (Step u n) = (if is_blocked (n E s) then None else Some (u E s, n E s))"

type_synonym ('e, 's, 'a) pool = "'s \<times> (nat \<rightharpoonup> ('e, 's, 'a) thread)"

inductive pstep ::
  "('e \<Rightarrow> bool) \<Rightarrow> (('e, 's, 'a) thread \<Rightarrow> bool) \<Rightarrow> ('e, 's, 'a) pool \<Rightarrow> ('e, 's, 'a) pool \<Rightarrow> bool"
  for good start where
  arrive: "ts g = None \<Longrightarrow> start r \<Longrightarrow> pstep good start (s, ts) (s, ts(g \<mapsto> r))"
| advance: "good E \<Longrightarrow> ts g = Some r \<Longrightarrow> next_step E s r = Some (t, r') \<Longrightarrow>
    pstep good start (s, ts) (t, ts(g \<mapsto> r'))"
| leave: "ts g = Some (Halt r) \<Longrightarrow> pstep good start (s, ts) (s, ts(g := None))"

inductive_cases pstepE: "pstep good start (s, ts) (t, ts')"

lemma next_step_Some:
  "next_step E s r = Some (t, r') \<longleftrightarrow> (\<exists>u n. r = Step u n \<and> t = u E s \<and> r' = n E s \<and> \<not> is_blocked r')"
  by (cases r) auto

section \<open>One thread at a time\<close>

text \<open>The steps of one thread in an environment that stays the same, with no other in between.\<close>

definition alone :: "'e \<Rightarrow> 's \<times> ('e, 's, 'a) thread \<Rightarrow> 's \<times> ('e, 's, 'a) thread \<Rightarrow> bool" where
  "alone E = (\<lambda>(s, r) (t, r'). next_step E s r = Some (t, r'))\<^sup>*\<^sup>*"

lemma alone_refl: "alone E c c"
  by (simp add: alone_def)

lemma alone_trans: "alone E c d \<Longrightarrow> alone E d e \<Longrightarrow> alone E c e"
  unfolding alone_def by (rule rtranclp_trans)

lemma alone_Step:
  "\<not> is_blocked (n E s) \<Longrightarrow> alone E (u E s, n E s) c \<Longrightarrow> alone E (s, Step u n) c"
  unfolding alone_def by (rule converse_rtranclp_into_rtranclp) auto

lemma alone_exec: "exec E m s = (out, t) \<Longrightarrow> out \<noteq> Blocked \<Longrightarrow> alone E (s, m) (t, Halt out)"
proof (induction m arbitrary: s rule: thread_induct)
  case (Halt r)
  then show ?case by (simp add: alone_refl)
next
  case (Step u n)
  then show ?case
    by (intro alone_Step) (auto elim: is_blocked.elims)
qed

lemma not_blocked_map:
  assumes "\<not> is_blocked m" and "\<And>r. r \<noteq> Blocked \<Longrightarrow> g r \<noteq> Blocked"
  shows "\<not> is_blocked (mapT g m)"
proof (cases m)
  case (Halt r)
  then have "r \<noteq> Blocked" "g r \<noteq> Blocked" using assms by auto
  then show ?thesis using Halt by (cases r) simp_all
qed simp

lemma not_blocked_defer:
  assumes "\<not> is_blocked m" and "\<And>r. \<not> is_blocked (d r)"
  shows "\<not> is_blocked (deferT d m)"
proof (cases m)
  case (Halt r)
  then have "r \<noteq> Blocked" using assms(1) by auto
  then have "\<not> is_blocked (mapT (afterwards r) (d r))"
    using assms(2) by (intro not_blocked_map) (auto simp: afterwards_def split: outcome.splits)
  then show ?thesis using Halt \<open>r \<noteq> Blocked\<close> by (cases r) simp_all
qed simp

lemma not_blocked_bind:
  "\<not> is_blocked m \<Longrightarrow> (\<And>a. \<not> is_blocked (f a)) \<Longrightarrow> \<not> is_blocked (bindT m f)"
  by (cases m rule: is_blocked.cases) auto

lemma alone_context:
  assumes "\<And>v r w r'. next_step E v r = Some (w, r') \<Longrightarrow> next_step E v (C r) = Some (w, C r')"
    and "alone E (s, m) (t, m')"
  shows "alone E (s, C m) (t, C m')"
proof -
  define c where "c = (s, m)"
  define d where "d = (t, m')"
  have "alone E c d" using assms(2) by (simp add: c_def d_def)
  then have "alone E (fst c, C (snd c)) (fst d, C (snd d))"
    unfolding alone_def
  proof (induction rule: rtranclp_induct)
    case (step x y)
    then have "next_step E (fst x) (C (snd x)) = Some (fst y, C (snd y))"
      by (intro assms(1)) auto
    with step.IH show ?case by (auto intro: rtranclp.rtrancl_into_rtrancl)
  qed simp
  then show ?thesis by (simp add: c_def d_def)
qed

lemma alone_bind:
  assumes "alone E (s, m) (t, m')" and "\<And>a. \<not> is_blocked (f a)"
  shows "alone E (s, bindT m f) (t, bindT m' f)"
  by (rule alone_context [OF _ assms(1)])
    (auto simp: next_step_Some not_blocked_bind [OF _ assms(2)])

lemma alone_defer:
  assumes "alone E (s, m) (t, m')" and "\<And>r. \<not> is_blocked (d r)"
  shows "alone E (s, deferT d m) (t, deferT d m')"
  by (rule alone_context [OF _ assms(1)])
    (auto simp: next_step_Some not_blocked_defer [OF _ assms(2)])

lemma alone_map:
  assumes "alone E (s, m) (t, m')" and "\<And>r. r \<noteq> Blocked \<Longrightarrow> g r \<noteq> Blocked"
  shows "alone E (s, mapT g m) (t, mapT g m')"
  by (rule alone_context [OF _ assms(1)])
    (auto simp: next_step_Some not_blocked_map [OF _ assms(2)])

text \<open>The part of a thread before a point, by its run.\<close>

lemma alone_prefix:
  assumes "exec E m s = (Ret a, t)" and "\<And>a. \<not> is_blocked (f a)"
  shows "alone E (s, bindT m f) (t, f a)"
  using alone_bind [OF alone_exec [OF assms(1)] assms(2)] by simp

lemma alone_after:
  assumes "exec E m s = (Ret a, t)" and "\<And>a. \<not> is_blocked (f a)" and "alone E (t, f a) c"
  shows "alone E (s, bindT m f) c"
  using alone_prefix [where f = f, OF assms(1,2)] assms(3) by (rule alone_trans)

lemma alone_pool:
  assumes "good E" and "alone E (s, r) (t, r')"
  shows "(pstep good start)\<^sup>*\<^sup>* (s, ts(g \<mapsto> r)) (t, ts(g \<mapsto> r'))"
proof -
  define c where "c = (s, r)"
  define d where "d = (t, r')"
  have "alone E c d" using assms(2) by (simp add: c_def d_def)
  then have "(pstep good start)\<^sup>*\<^sup>* (fst c, ts(g \<mapsto> snd c)) (fst d, ts(g \<mapsto> snd d))"
    unfolding alone_def
  proof (induction rule: rtranclp_induct)
    case (step x y)
    then have "pstep good start (fst x, ts(g \<mapsto> snd x)) (fst y, (ts(g \<mapsto> snd x))(g \<mapsto> snd y))"
      using assms(1) by (intro pstep.advance [of good E]) auto
    with step.IH show ?case unfolding fun_upd_upd by (rule rtranclp.rtrancl_into_rtrancl)
  qed simp
  then show ?thesis by (simp add: c_def d_def)
qed

lemma arrive_alone:
  assumes "(pstep good start)\<^sup>*\<^sup>* c (s, ts)" and "ts g = None" and "start r" and "good E"
    and "alone E (s, r) (t, r')"
  shows "(pstep good start)\<^sup>*\<^sup>* c (t, ts(g \<mapsto> r'))"
  using rtranclp.rtrancl_into_rtrancl [OF assms(1) pstep.arrive [of ts g start r, OF assms(2,3)]]
    alone_pool [of good, OF assms(4,5)] by (rule rtranclp_trans)

section \<open>Relations kept by every step\<close>

context step_contract
begin

text \<open>Every step is in \<open>R\<close>, whatever the state before it, and \<open>Q\<close> holds of the outcome.\<close>

primrec within :: "('e \<Rightarrow> bool) \<Rightarrow> ('e, 's, 'a) thread \<Rightarrow> ('a outcome \<Rightarrow> bool) \<Rightarrow> bool" where
  "within good (Halt r) Q \<longleftrightarrow> r = Blocked \<or> Q r"
| "within good (Step u n) Q \<longleftrightarrow> (\<forall>E s. good E \<longrightarrow>
     is_blocked (n E s) \<or> (R s (u E s) \<and> within good (n E s) Q))"

abbreviation steady :: "('e \<Rightarrow> bool) \<Rightarrow> ('e, 's, 'a) thread \<Rightarrow> bool" where
  "steady good m \<equiv> within good m (\<lambda>_. True)"

lemma within_mono: "within good m Q \<Longrightarrow> (\<And>r. Q r \<Longrightarrow> Q' r) \<Longrightarrow> within good m Q'"
proof (induction m rule: thread_induct)
  case (Step u n)
  then show ?case by (simp, metis)
qed auto

lemma within_atom:
  assumes "\<And>E. good E \<Longrightarrow> keeps R (m E)"
    and "\<And>E s r t. good E \<Longrightarrow> m E s = (r, t) \<Longrightarrow> r \<noteq> Blocked \<Longrightarrow> Q r"
  shows "within good (atomT m) Q"
  using assms(1) assms(2) [OF _ prod.collapse [symmetric]] by (auto simp: atomT_def keeps_def)

lemma within_bind:
  assumes "within good m P" and "\<And>a. P (Ret a) \<Longrightarrow> within good (f a) Q"
    and "\<And>e. P (Fail e) \<Longrightarrow> Q (Fail e)" and "\<And>p. P (Panic p) \<Longrightarrow> Q (Panic p)"
  shows "within good (bindT m f) Q"
  using assms(1)
proof (induction m rule: thread_induct)
  case (Halt r)
  then show ?case using assms(2-4) by (cases r) auto
next
  case (Step u n)
  have "is_blocked (n E s) \<Longrightarrow> is_blocked (bindT (n E s) f)" for E s
    by (cases "n E s" rule: is_blocked.cases) auto
  with Step show ?case by (simp, metis)
qed

lemma within_map:
  assumes "within good m (\<lambda>r. Q (g r))"
  shows "within good (mapT g m) Q"
  using assms
proof (induction m rule: thread_induct)
  case (Halt r)
  then show ?case by (cases r) auto
next
  case (Step u n)
  have "is_blocked (n E s) \<Longrightarrow> is_blocked (mapT g (n E s))" for E s
    by (cases "n E s" rule: is_blocked.cases) auto
  with Step show ?case by (simp, metis)
qed

lemma steady_defer:
  assumes "steady good m" and "\<And>r. steady good (d r)"
  shows "steady good (deferT d m)"
  using assms(1)
proof (induction m rule: thread_induct)
  case (Halt r)
  then show ?case using assms(2) by (cases r) (auto intro: within_map)
next
  case (Step u n)
  have "is_blocked (n E s) \<Longrightarrow> is_blocked (deferT d (n E s))" for E s
    by (cases "n E s" rule: is_blocked.cases) auto
  with Step show ?case by (simp, metis)
qed

lemma steady_atom: "(\<And>E. good E \<Longrightarrow> keeps R (m E)) \<Longrightarrow> steady good (atomT m)"
  by (rule within_atom) auto

lemma steady_bind: "steady good m \<Longrightarrow> (\<And>a. steady good (f a)) \<Longrightarrow> steady good (bindT m f)"
  by (erule within_bind) auto

lemma steady_rest:
  "steady good (retT a)" "steady good (failT e)"
  "steady good m \<Longrightarrow> steady good (tryT m)" "steady good m \<Longrightarrow> steady good (wrapT g m)"
  by (simp_all add: retT_def failT_def tryT_def wrapT_def within_map)

lemmas steady_rules = steady_atom steady_bind steady_rest steady_defer

lemma within_next:
  assumes "within good r Q" and "good E" and "next_step E s r = Some (t, r')"
  shows "R s t \<and> within good r' Q"
proof -
  obtain u n where "r = Step u n" "t = u E s" "r' = n E s" "\<not> is_blocked (n E s)"
    using assms(3) by (auto simp: next_step_Some)
  then show ?thesis using assms(1,2) by (simp, blast)
qed

text \<open>A pool of steady threads: the relation holds between the first state and every other.\<close>

lemma pool_steady_from:
  assumes "(pstep good start)\<^sup>*\<^sup>* b c" and "\<And>g r. snd b g = Some r \<Longrightarrow> steady good r"
    and "\<And>r. start r \<Longrightarrow> steady good r"
  shows "R (fst b) (fst c) \<and> (\<forall>g r. snd c g = Some r \<longrightarrow> steady good r)"
  using assms(1)
proof (induction rule: rtranclp_induct)
  case base
  show ?case using assms(2) by (simp add: R_refl)
next
  case (step c d)
  from step(2) show ?case
  proof (cases rule: pstep.cases)
    case (advance E ts g r t u r')
    then have "steady good r" using step.IH by simp
    then have "R t u \<and> steady good r'" using advance(3,5) by (rule within_next)
    then show ?thesis using advance step.IH R_trans by auto
  qed (use step.IH assms(3) in auto)
qed

lemma pool_steady:
  assumes "(pstep good start)\<^sup>*\<^sup>* (s, Map.empty) c" and "\<And>r. start r \<Longrightarrow> steady good r"
  shows "R s (fst c)"
  using pool_steady_from [OF assms(1) _ assms(2)] by simp

end

section \<open>Sharing the keys of a reservation\<close>

text \<open>
  \<open>needs s t\<close> are the keys that a step from \<open>s\<close> to \<open>t\<close> relies on being its own. Reserving and
  releasing need none.
\<close>

locale workers = reservation held reserve release
  for held :: "'s \<Rightarrow> 'k set" and reserve :: "'req \<Rightarrow> 's \<Rightarrow> ('k \<times> 's) option"
    and release :: "'k \<Rightarrow> 's \<Rightarrow> 's" +
  fixes needs :: "'s \<Rightarrow> 's \<Rightarrow> 'k set" and good :: "'e \<Rightarrow> bool"
  assumes reserve_needs: "reserve q s = Some (k, t) \<Longrightarrow> needs s t = {}"
    and release_needs: "needs s (release k s) = {}"
begin

text \<open>A step of a thread that holds \<open>h\<close> before and \<open>h'\<close> after it.\<close>

definition legal :: "'k set \<Rightarrow> 's \<Rightarrow> 's \<Rightarrow> 'k set \<Rightarrow> bool" where
  "legal h s t h' \<longleftrightarrow> held t = (held s - h) \<union> h' \<and> (h' - h) \<inter> held s = {} \<and> needs s t \<subseteq> h"

lemma legal_same: "h \<subseteq> held s \<Longrightarrow> held t = held s \<Longrightarrow> needs s t \<subseteq> h \<Longrightarrow> legal h s t h"
  by (auto simp: legal_def)

lemma legal_reserve: "h \<subseteq> held s \<Longrightarrow> reserve q s = Some (k, t) \<Longrightarrow> legal h s t (insert k h)"
  using reserve_fresh reserve_held reserve_needs by (fastforce simp: legal_def)

lemma legal_release: "insert k h \<subseteq> held s \<Longrightarrow> k \<notin> h \<Longrightarrow> legal (insert k h) s (release k s) h"
  using release_held release_needs by (fastforce simp: legal_def)

text \<open>\<open>Q\<close> holds of the outcome and of the keys held at the end.\<close>

primrec conforms :: "('e, 's, 'a) thread \<Rightarrow> ('a outcome \<Rightarrow> 'k set \<Rightarrow> bool) \<Rightarrow> 'k set \<Rightarrow> bool" where
  "conforms (Halt r) Q = (\<lambda>h. r = Blocked \<or> Q r h)"
| "conforms (Step u n) Q = (\<lambda>h. \<forall>E s. good E \<and> h \<subseteq> held s \<longrightarrow>
     is_blocked (n E s) \<or> (\<exists>h'. legal h s (u E s) h' \<and> conforms (n E s) Q h'))"

definition balanced :: "'k set \<Rightarrow> ('e, 's, 'a) thread \<Rightarrow> bool" where
  "balanced h m \<longleftrightarrow> conforms m (\<lambda>_ h'. h' = h) h"

lemma conforms_mono:
  "conforms m Q h \<Longrightarrow> (\<And>r h. Q r h \<Longrightarrow> Q' r h) \<Longrightarrow> conforms m Q' h"
proof (induction m arbitrary: h rule: thread_induct)
  case (Step u n)
  then show ?case by (simp, metis)
qed auto

lemma conforms_atom:
  assumes "\<And>E s r t. good E \<Longrightarrow> h \<subseteq> held s \<Longrightarrow> m E s = (r, t) \<Longrightarrow> r \<noteq> Blocked \<Longrightarrow>
    \<exists>h'. legal h s t h' \<and> Q r h'"
  shows "conforms (atomT m) Q h"
  unfolding atomT_def conforms.simps is_blocked_Halt
proof (intro allI impI, elim conjE)
  fix E s
  assume "good E" "h \<subseteq> held s"
  then show "fst (m E s) = Blocked \<or>
      (\<exists>h'. legal h s (snd (m E s)) h' \<and> (fst (m E s) = Blocked \<or> Q (fst (m E s)) h'))"
    using assms [of E s "fst (m E s)" "snd (m E s)"] by auto
qed

lemma conforms_bind:
  assumes "conforms m R h" and "\<And>a h'. R (Ret a) h' \<Longrightarrow> conforms (f a) Q h'"
    and "\<And>e h'. R (Fail e) h' \<Longrightarrow> Q (Fail e) h'" and "\<And>p h'. R (Panic p) h' \<Longrightarrow> Q (Panic p) h'"
  shows "conforms (bindT m f) Q h"
  using assms(1)
proof (induction m arbitrary: h rule: thread_induct)
  case (Halt r)
  then show ?case using assms(2-4) by (cases r) auto
next
  case (Step u n)
  have "is_blocked (n E s) \<Longrightarrow> is_blocked (bindT (n E s) f)" for E s
    by (cases "n E s" rule: is_blocked.cases) auto
  with Step show ?case by (simp, metis)
qed

lemma conforms_map:
  assumes "conforms m (\<lambda>r. Q (g r)) h"
  shows "conforms (mapT g m) Q h"
  using assms
proof (induction m arbitrary: h rule: thread_induct)
  case (Halt r)
  then show ?case by (cases r) auto
next
  case (Step u n)
  have "is_blocked (n E s) \<Longrightarrow> is_blocked (mapT g (n E s))" for E s
    by (cases "n E s" rule: is_blocked.cases) auto
  with Step show ?case by (simp, metis)
qed

lemma conforms_defer:
  assumes "conforms m R h" and "\<And>r h'. R r h' \<Longrightarrow> conforms (d r) (\<lambda>o1. Q (afterwards r o1)) h'"
  shows "conforms (deferT d m) Q h"
  using assms(1)
proof (induction m arbitrary: h rule: thread_induct)
  case (Halt r)
  then show ?case using assms(2) by (cases r) (auto intro: conforms_map)
next
  case (Step u n)
  have "is_blocked (n E s) \<Longrightarrow> is_blocked (deferT d (n E s))" for E s
    by (cases "n E s" rule: is_blocked.cases) auto
  with Step show ?case by (simp, metis)
qed

section \<open>Threads that give back what they take\<close>

lemma balanced_ret: "balanced h (retT a)" "balanced h (failT e)"
  by (simp_all add: balanced_def retT_def failT_def)

lemma balanced_atom:
  assumes "\<And>E s. good E \<Longrightarrow> h \<subseteq> held s \<Longrightarrow>
    held (snd (m E s)) = held s \<and> needs s (snd (m E s)) \<subseteq> h"
  shows "balanced h (atomT m)"
  unfolding balanced_def
proof (rule conforms_atom)
  fix E s r t
  assume "good E" "h \<subseteq> held s" "m E s = (r, t)"
  with assms [of E s] show "\<exists>h'. legal h s t h' \<and> h' = h" by (auto intro: legal_same)
qed

lemma balanced_bind: "balanced h m \<Longrightarrow> (\<And>a. balanced h (f a)) \<Longrightarrow> balanced h (bindT m f)"
  unfolding balanced_def by (erule conforms_bind) auto

lemma balanced_map: "balanced h m \<Longrightarrow> balanced h (mapT g m)"
  unfolding balanced_def by (rule conforms_map)

lemma balanced_try: "balanced h m \<Longrightarrow> balanced h (tryT m)"
  unfolding tryT_def by (rule balanced_map)

lemma balanced_wrap: "balanced h m \<Longrightarrow> balanced h (wrapT g m)"
  unfolding wrapT_def by (rule balanced_map)

lemma balanced_defer: "balanced h m \<Longrightarrow> (\<And>r. balanced h (d r)) \<Longrightarrow> balanced h (deferT d m)"
  unfolding balanced_def by (erule conforms_defer) auto

lemmas balanced_rules = balanced_ret balanced_bind balanced_try balanced_wrap balanced_defer

text \<open>A deferred release ends the holding of a key.\<close>

definition releases :: "'k \<Rightarrow> ('e \<Rightarrow> ('s, unit) prog) \<Rightarrow> bool" where
  "releases k m \<longleftrightarrow> (\<forall>E s. m E s = (Ret (), release k s))"

lemma balanced_bracket:
  assumes "balanced (insert k h) m" and "releases k d" and "k \<notin> h"
  shows "conforms (deferT (\<lambda>_. atomT d) m) (\<lambda>_ h'. h' = h) (insert k h)"
  using assms(1) unfolding balanced_def
proof (rule conforms_defer)
  fix r h'
  assume "h' = insert k h"
  moreover have "legal (insert k h) s t h" if "insert k h \<subseteq> held s" "d E s = (r', t)" for E s r' t
    using that assms(2,3) legal_release by (auto simp: releases_def)
  ultimately show "conforms (atomT d) (\<lambda>o1 h'. h' = h) h'"
    by (auto intro!: conforms_atom)
qed

text \<open>Each thread holds keys of its own, and together they hold all that are reserved.\<close>

definition shared_out :: "('e, 's, 'a) pool \<Rightarrow> (nat \<Rightarrow> 'k set) \<Rightarrow> bool" where
  "shared_out c H \<longleftrightarrow>
     (\<forall>g r. snd c g = Some r \<longrightarrow> \<not> is_blocked r \<and> conforms r (\<lambda>_ h. h = {}) (H g)) \<and>
     (\<forall>g. snd c g = None \<longrightarrow> H g = {}) \<and>
     (\<forall>g h. g \<noteq> h \<longrightarrow> H g \<inter> H h = {}) \<and> held (fst c) = (\<Union>g. H g)"

lemma next_step_legal:
  assumes "conforms r Q h" and "h \<subseteq> held s" and "good E" and "next_step E s r = Some (t, r')"
  shows "\<exists>h'. legal h s t h' \<and> conforms r' Q h'"
proof -
  obtain u n where "r = Step u n" "t = u E s" "r' = n E s" "\<not> is_blocked r'"
    using assms(4) by (auto simp: next_step_Some)
  then show ?thesis using assms(1-3) by auto
qed

lemma halted_holds_nothing:
  assumes "shared_out (s, ts) H" and "ts g = Some (Halt out)"
  shows "H g = {}"
proof -
  have inv: "\<forall>i r. ts i = Some r \<longrightarrow> \<not> is_blocked r \<and> conforms r (\<lambda>_ h. h = {}) (H i)"
    using assms(1) by (simp add: shared_out_def)
  from inv [rule_format, OF assms(2)] show ?thesis by (cases out) auto
qed

lemma shared_out_advance:
  assumes "shared_out (s, ts) H" and "ts g = Some r" and "legal (H g) s t h'"
    and "conforms r' (\<lambda>_ h. h = {}) h'" and "\<not> is_blocked r'"
  shows "shared_out (t, ts(g \<mapsto> r')) (H(g := h'))"
proof -
  have disj: "H i \<inter> H j = {}" if "i \<noteq> j" for i j
    using assms(1) that by (simp add: shared_out_def)
  have all: "held s = (\<Union>i. H i)" using assms(1) by (simp add: shared_out_def)
  have step: "held t = (held s - H g) \<union> h'" "(h' - H g) \<inter> held s = {}"
    using assms(3) by (simp_all add: legal_def)
  have other: "held s - H g = (\<Union>i \<in> - {g}. H i)"
    using disj unfolding all by blast
  have "h' \<inter> H i = {}" if "i \<noteq> g" for i
    using step(2) disj [OF that] all that by blast
  then have "(H(g := h')) i \<inter> (H(g := h')) j = {}" if "i \<noteq> j" for i j
    using disj that by (auto simp: Int_commute)
  moreover have "held t = (\<Union>i. (H(g := h')) i)"
    unfolding step(1) other by (auto split: if_splits)
  ultimately show ?thesis
    using assms(1,4,5) unfolding shared_out_def by (simp only: fst_conv snd_conv) auto
qed

lemma shared_out_step:
  assumes "pstep good start c d" and "shared_out c H"
    and "\<And>r. start r \<Longrightarrow> balanced {} r \<and> \<not> is_blocked r"
  shows "\<exists>H'. shared_out d H'"
  using assms(1)
proof (cases rule: pstep.cases)
  case (arrive ts g r s)
  then have "shared_out d H"
    using assms(2) assms(3) [OF arrive(4)] by (auto simp: shared_out_def balanced_def)
  then show ?thesis by blast
next
  case (advance E ts g r s t r')
  have "conforms r (\<lambda>_ h. h = {}) (H g)" "H g \<subseteq> held s"
    using assms(2) advance by (auto simp: shared_out_def)
  with advance obtain h' where "legal (H g) s t h'" "conforms r' (\<lambda>_ h. h = {}) h'"
    using next_step_legal by blast
  then show ?thesis
    using shared_out_advance advance assms(2) by (metis next_step_Some)
next
  case (leave ts g r s)
  then have "H g = {}" using assms(2) halted_holds_nothing by blast
  then have "shared_out d H"
    using leave assms(2) by (simp add: shared_out_def)
  then show ?thesis by blast
qed

lemma shared_out_reach:
  assumes "(pstep good start)\<^sup>*\<^sup>* (s, Map.empty) c" and "held s = {}"
    and "\<And>r. start r \<Longrightarrow> balanced {} r \<and> \<not> is_blocked r"
  shows "\<exists>H. shared_out c H"
  using assms(1)
proof (induction rule: rtranclp_induct)
  case base
  show ?case using assms(2) by (intro exI [of _ "\<lambda>_. {}"]) (simp add: shared_out_def)
next
  case (step c d)
  then show ?case using shared_out_step [OF step(2) _ assms(3)] by blast
qed

lemma next_needs_apart:
  assumes "shared_out (s, ts) H" and "g \<noteq> h" and "good E" and "good F"
    and "ts g = Some r" and "next_step E s r = Some (t, r')"
    and "ts h = Some q" and "next_step F s q = Some (u, q')"
  shows "needs s t \<inter> needs s u = {}"
proof -
  have own: "needs s v \<subseteq> H i" if "ts i = Some x" "good G" "next_step G s x = Some (v, x')" for i x G v x'
  proof -
    have "conforms x (\<lambda>_ h. h = {}) (H i)" "H i \<subseteq> held s"
      using assms(1) that(1) by (auto simp: shared_out_def)
    then show ?thesis using next_step_legal [OF _ _ that(2,3)] by (auto simp: legal_def)
  qed
  have "H g \<inter> H h = {}" using assms(1,2) by (simp add: shared_out_def)
  then show ?thesis using own assms(3-8) by blast
qed

lemma quiescent_free:
  assumes "shared_out (s, ts) H" and "\<And>g r. ts g = Some r \<Longrightarrow> \<exists>out. r = Halt out"
  shows "held s = {}"
proof -
  have "H g = {}" for g
  proof (cases "ts g")
    case (Some r)
    then obtain out where "r = Halt out" using assms(2) by blast
    with Some show ?thesis using halted_holds_nothing [OF assms(1)] by blast
  qed (use assms(1) in \<open>simp add: shared_out_def\<close>)
  then show ?thesis using assms(1) by (simp add: shared_out_def)
qed

end

end
