(* ===== verification/Handlers.thy ===== *)
theory Handlers
  imports Controller Threads
begin

text \<open>
  The controller's handlers as threads: \<open>CreateVolume\<close> and \<open>DeleteVolume\<close> (pkg/driver/controller.go)
  cut into atomic steps at every operation on an in-memory holder and at every procedure that talks
  to the outside, so that requests can be interleaved. Run without interruption a thread is the
  program of the theory Controller. Procedures that only talk to the outside are one step: the
  environment of every step is chosen anew, so whatever other requests do meanwhile is among the
  answers.
\<close>

type_synonym 'a handler = "(cenv, sys, 'a) thread"

section \<open>Shared steps\<close>

definition statusT :: "code \<Rightarrow> string \<Rightarrow> 'a handler \<Rightarrow> 'a handler" where
  "statusT c pre m = wrapT (\<lambda>e. StatusErr c (pre @ errText e)) m"

definition liftT :: "gerror + 'a \<Rightarrow> 'a handler" where
  "liftT r = (case r of Inl e \<Rightarrow> failT e | Inr a \<Rightarrow> retT a)"

definition derefT :: "'a option \<Rightarrow> 'a handler" where
  "derefT p = (case p of
       None \<Rightarrow> Halt (Panic ''invalid memory address or nil pointer dereference'') | Some a \<Rightarrow> retT a)"

text \<open>\<open>Queue\<close> in two steps: between them other goroutines may hold the mutex.\<close>

definition Queue_enter :: "string \<Rightarrow> (OperateResourceQueue, unit) prog" where
  "Queue_enter name q = (case queue_enter name q of Inl e \<Rightarrow> (Fail e, q) | Inr q1 \<Rightarrow> (Ret (), q1))"

definition Queue_acquire :: "string \<Rightarrow> (OperateResourceQueue, unit) prog" where
  "Queue_acquire name q = (case queue_acquire name q of None \<Rightarrow> (Blocked, q) | Some q2 \<Rightarrow> (Ret (), q2))"

definition QueueT ::
  "((OperateResourceQueue, unit) prog \<Rightarrow> (sys, unit) prog) \<Rightarrow> string \<Rightarrow> unit handler" where
  "QueueT on_queue name =
     bindT (atomT (\<lambda>_. on_queue (Queue_enter name))) (\<lambda>_. atomT (\<lambda>_. on_queue (Queue_acquire name)))"

section \<open>CreateVolume\<close>

definition convertSharedRequestT :: "driver \<Rightarrow> string \<Rightarrow> CreateVolumeRequest \<Rightarrow> (string \<times> int64) handler" where
  "convertSharedRequestT drv name req =
     (if param (req_Params req) ''shared'' \<noteq> ''true''
      then retT (name, getRequestCapacity (req_CapRange req) minVolumeSize)
      else bindT (wrapT (\<lambda>e. Errorf (''Error creating queue: '' @ errText e)) (QueueT on_creating name)) (\<lambda>_.
           atomT (\<lambda>E. choose_shared E (drv_config drv) req)))"

definition reserveIPT :: "string \<Rightarrow> string handler" where
  "reserveIPT cidr =
     bindT (atomT getCloudInstancesReservedIPs) (\<lambda>ips. atomT (\<lambda>_. on_ips (GetUnreservedIP cidr ips)))"

definition finish_volumeT ::
  "codec \<Rightarrow> config \<Rightarrow> CreateVolumeRequest \<Rightarrow> string \<Rightarrow> string \<Rightarrow> string \<Rightarrow> NASInstance \<Rightarrow> Volume handler" where
  "finish_volumeT J cfg req name snapshotID permission n =
     bindT (atomT (\<lambda>E. ready_instance E name n)) (\<lambda>n.
     bindT (atomT (\<lambda>E. prepare_path E req permission n)) (\<lambda>_.
     bindT (atomT (\<lambda>E. nasInstanceToCSIVolume cfg n req)) (\<lambda>vol.
     if snapshotID \<noteq> '''' then
       bindT (statusT Internal ''error restoring volume contents from snapshot''
         (atomT (\<lambda>E. restoreSnapshot E J snapshotID vol))) (\<lambda>_.
       retT (vol\<lparr>vol_ContentSource := Some snapshotID\<rparr>))
     else retT vol)))"

definition create_instanceT ::
  "CreateNASInstanceInput \<Rightarrow> (NASInstance \<Rightarrow> Volume handler) \<Rightarrow> Volume handler" where
  "create_instanceT nasInput rest =
     bindT (statusT Internal '''' (atomT (\<lambda>E. CreateNasInstance E nasInput))) (\<lambda>n.
     bindT (derefT n) rest)"

definition new_instanceT ::
  "CreateVolumeRequest \<Rightarrow> CreateNASInstanceInput \<Rightarrow> string \<Rightarrow> (NASInstance \<Rightarrow> Volume handler) \<Rightarrow>
   Volume handler" where
  "new_instanceT req nasInput annotated rest =
     (if in_NetworkId nasInput \<noteq> None then
        (let cidr = (if annotated = '''' then param (req_Params req) ''reservedIpv4Cidr'' else annotated)
         in if cidr = ''''
            then failT (StatusErr InvalidArgument ''reservedIpv4Cidr must be provided'')
            else bindT (tryT (reserveIPT cidr)) (\<lambda>r. case r of
                Inl e \<Rightarrow> deferT (\<lambda>_. atomT (\<lambda>_. on_ips (ReleaseIP ''''))) (failT e)
              | Inr reservedIP \<Rightarrow>
                  deferT (\<lambda>_. atomT (\<lambda>_. on_ips (ReleaseIP reservedIP)))
                    (create_instanceT
                      (nasInput\<lparr>in_MasterPrivateAddress := Some (reservedIP @ ''/24'')\<rparr>) rest)))
      else create_instanceT nasInput rest)"

definition with_instanceT ::
  "CreateVolumeRequest \<Rightarrow> CreateNASInstanceInput \<Rightarrow> string \<Rightarrow> string \<Rightarrow>
   (NASInstance \<Rightarrow> Volume handler) \<Rightarrow> Volume handler" where
  "with_instanceT req nasInput name annotated rest =
     bindT (tryT (atomT (\<lambda>E. GetNasInstance E name))) (\<lambda>r. case r of
         Inl e \<Rightarrow>
           if \<not> IsNotFoundErr e then failT (StatusErr Internal (errText e))
           else new_instanceT req nasInput annotated rest
       | Inr n \<Rightarrow>
           bindT (statusT AlreadyExists '''' (atomT (\<lambda>E. compareNasInstanceWithInput (ptr_text E) n nasInput)))
             (\<lambda>_. rest n))"

definition create_namedT ::
  "codec \<Rightarrow> config \<Rightarrow> CreateVolumeRequest \<Rightarrow> string \<Rightarrow> int64 \<Rightarrow> Volume handler" where
  "create_namedT J cfg req name capBytes =
     bindT (statusT InvalidArgument '''' (liftT (GenerateNasInstanceInput name capBytes (req_Params req)))) (\<lambda>i.
     bindT (statusT InvalidArgument '''' (atomT (\<lambda>E. getSecurityGroupName E cfg))) (\<lambda>sg.
     let nasInput = finalize_input sg i
     in bindT (atomT (\<lambda>_. source_snapshot req)) (\<lambda>snapshotID.
        bindT (statusT InvalidArgument '''' (atomT (\<lambda>E. getAnnotationsFromPVC E cfg (req_Name req))))
          (\<lambda>(annotated, permission).
        with_instanceT req nasInput name annotated
          (finish_volumeT J cfg req name snapshotID permission)))))"

text \<open>The deferred function that unsets the queue's entry when the outcome is an error.\<close>

definition unset_on_error :: "(sys, unit) prog \<Rightarrow> 'a outcome \<Rightarrow> unit handler" where
  "unset_on_error m r = (case r of Fail e \<Rightarrow> atomT (\<lambda>_. m) | _ \<Rightarrow> retT ())"

definition CreateVolumeT :: "codec \<Rightarrow> driver \<Rightarrow> CreateVolumeRequest \<Rightarrow> Volume handler" where
  "CreateVolumeT J drv req =
     (if req_Name req = ''''
      then failT (StatusErr InvalidArgument ''CreateVolume name must be provided'')
      else bindT (statusT InvalidArgument '''' (liftT (validateVolumeCapabilities drv (req_Caps req)))) (\<lambda>_.
        deferT (unset_on_error (on_creating (UnsetQueue (req_Name req))))
          (bindT (statusT InvalidArgument '''' (convertSharedRequestT drv (req_Name req) req))
             (\<lambda>(name, capBytes).
           bindT (statusT Internal '''' (atomT (\<lambda>_. on_names (SetCreating name)))) (\<lambda>_.
           deferT (\<lambda>_. atomT (\<lambda>_. on_names (UnsetCreating name)))
             (create_namedT J (drv_config drv) req name capBytes))))))"

section \<open>DeleteVolume\<close>

definition delete_sharedT :: "NASInstance \<Rightarrow> string \<Rightarrow> unit handler" where
  "delete_sharedT nas sourcePath =
     bindT (statusT Internal ''deleting queue:'' (QueueT on_deleting sourcePath)) (\<lambda>_.
     bindT (derefT (ni_Identifier nas)) (\<lambda>ident.
     bindT (statusT Internal ''removing source path:''
       (atomT (\<lambda>E. removeSourcePath E (getNasInstancePrivateIP nas) ident sourcePath))) (\<lambda>_.
     bindT (statusT Internal ''checking other PVs on shared NAS:''
       (atomT (\<lambda>E. noOtherPvsInSharedNas E sourcePath ident))) (\<lambda>mustDeleted.
     if \<not> mustDeleted then retT () else atomT (\<lambda>E. delete_instance E ident)))))"

definition DeleteVolumeT :: "string \<Rightarrow> unit handler" where
  "DeleteVolumeT volumeID =
     (if volumeID = '''' then failT (StatusErr InvalidArgument ''volume id is empty'')
      else let tokens = Split volumeID (CHR ''/'');
               shared = (length tokens = 3);
               vid = (if shared then Join (take 2 tokens) ''/'' else volumeID)
           in bindT (tryT (atomT (\<lambda>E. GetNasInstanceFromVolumeID E vid))) (\<lambda>r. case r of
                Inl e \<Rightarrow> retT ()
              | Inr nas \<Rightarrow>
                  if shared then
                    deferT (unset_on_error (on_deleting (UnsetQueue (tokens ! 2))))
                      (delete_sharedT nas (tokens ! 2))
                  else bindT (derefT (ni_Identifier nas)) (\<lambda>ident. atomT (\<lambda>E. delete_instance E ident))))"

section \<open>Run without interruption\<close>

lemma exec_cases:
  "exec E (if b then m else m') = (if b then exec E m else exec E m')"
  "exec E (case r of Inl e \<Rightarrow> f e | Inr a \<Rightarrow> g a) = (case r of Inl e \<Rightarrow> exec E (f e) | Inr a \<Rightarrow> exec E (g a))"
  "exec E (case p of (x, y) \<Rightarrow> k x y) = (case p of (x, y) \<Rightarrow> exec E (k x y))"
  by (simp_all split: sum.split prod.split)

lemma exec_shared_steps:
  "exec E (statusT c pre m) = statusP c pre (exec E m)"
  "exec E (liftT r) = liftP r" "exec E (derefT p) = derefP p"
  "exec E (unset_on_error k out) = on_error k out"
  by (simp_all add: statusT_def statusP_def liftT_def liftP_def derefT_def derefP_def fun_eq_iff
      unset_on_error_def on_error_def failP_def retP_def split: sum.split option.split outcome.split)

lemma exec_QueueT:
  "exec E (QueueT on_creating name) = on_creating (Queue name)"
  "exec E (QueueT on_deleting name) = on_deleting (Queue name)"
  by (simp_all add: fun_eq_iff QueueT_def bindP_def on_creating_def on_deleting_def zoomP_def Queue_def
      Queue_enter_def Queue_acquire_def split: sum.split option.split)

lemmas exec_steps = exec_cases exec_shared_steps exec_QueueT

lemma exec_create:
  "exec E (convertSharedRequestT drv name req) = convertSharedRequest E drv name req"
  "exec E (reserveIPT cidr) = reserveIP E cidr"
  "exec E (finish_volumeT J cfg req name sid perm n) = finish_volume E J cfg req name sid perm n"
  "exec E (create_instanceT i rest) = create_instance E i (\<lambda>n. exec E (rest n))"
  "exec E (new_instanceT req i annotated rest) = new_instance E req i annotated (\<lambda>n. exec E (rest n))"
  "exec E (with_instanceT req i name annotated rest) = with_instance E req i name annotated (\<lambda>n. exec E (rest n))"
proof -
  show create: "exec E (create_instanceT i rest) = create_instance E i (\<lambda>n. exec E (rest n))" for i
    by (simp add: create_instanceT_def create_instance_def exec_steps)
  show reserve: "exec E (reserveIPT cidr) = reserveIP E cidr" for cidr
    by (simp add: reserveIPT_def reserveIP_def)
  show new: "exec E (new_instanceT req i annotated rest) = new_instance E req i annotated (\<lambda>n. exec E (rest n))"
    by (simp add: new_instanceT_def new_instance_def exec_steps create reserve Let_def cong: if_cong sum.case_cong)
  show "exec E (with_instanceT req i name annotated rest) = with_instance E req i name annotated (\<lambda>n. exec E (rest n))"
    by (simp add: with_instanceT_def with_instance_def exec_steps new cong: if_cong sum.case_cong)
qed (simp_all add: convertSharedRequestT_def convertSharedRequest_def errorf_pre_def finish_volumeT_def
    finish_volume_def exec_steps cong: if_cong)

lemma exec_CreateVolumeT: "exec E (CreateVolumeT J drv req) = CreateVolume E J drv req"
proof -
  have "exec E (create_namedT J cfg req name cap) = create_named E J cfg req name cap" for cfg name cap
    by (simp add: create_namedT_def create_named_def exec_steps exec_create Let_def)
  then show ?thesis
    by (simp add: CreateVolumeT_def CreateVolume_def exec_steps exec_create cong: if_cong)
qed

lemma exec_DeleteVolumeT: "exec E (DeleteVolumeT vid) = DeleteVolume E vid"
  by (simp add: DeleteVolumeT_def DeleteVolume_def delete_sharedT_def delete_shared_def exec_steps Let_def
      cong: if_cong sum.case_cong)


end
