(* ===== verification/HandlerProps.thy ===== *)
theory HandlerProps
  imports Handlers ControllerFacts
begin

text \<open>
  Requests interleaved: the instance names and the IPv4 addresses that the handlers reserve are the
  keys of one reservation, which the handlers share by the discipline of the locale \<open>workers\<close>.
\<close>

section \<open>IPv4 addresses as strings\<close>

definition is_ip4 :: "string \<Rightarrow> bool" where
  "is_ip4 a \<longleftrightarrow> To4 (ParseIP a) \<noteq> [] \<and> ip_String (To4 (ParseIP a)) = a"

lemma is_ip4_iff: "is_ip4 a \<longleftrightarrow> (\<exists>t. length t = 4 \<and> a = ip_String t)"
proof
  assume "is_ip4 a"
  then show "\<exists>t. length t = 4 \<and> a = ip_String t"
    using length_To4 [of "ParseIP a"] unfolding is_ip4_def by metis
next
  assume "\<exists>t. length t = 4 \<and> a = ip_String t"
  then obtain t where t: "length t = 4" "a = ip_String t" by blast
  then have "t \<noteq> []" by auto
  with t show "is_ip4 a" by (simp add: is_ip4_def ParseIP_ip_String)
qed

lemma length_ip_groups: "length (ip_groups t) = length t div 2"
  by (induction t rule: ip_groups.induct) auto

lemma ip_String_colon:
  assumes "length t = 16" and "To4 t = []"
  shows "CHR '':'' \<in> set (ip_String t)"
proof -
  have "length (map show_hex (ip_groups t)) = 8" using assms(1) by (simp add: length_ip_groups)
  then obtain x y xs where gs: "map show_hex (ip_groups t) = x # y # xs"
    by (metis One_nat_def Suc_length_conv eval_nat_numeral(3) numeral_2_eq_2 numeral_eq_Suc pred_numeral_simps(2))
  have "CHR '':'' \<in> set (Join (x # y # xs) '':'')" by simp
  moreover have "t \<noteq> []" using assms(1) by auto
  ultimately show ?thesis
    using assms gs by (cases "longest_run (ip_groups t)") (simp add: ip_String_def Let_def)
qed

lemma is_ip4_String:
  assumes "is_ip4 (ip_String t)"
  shows "To4 t \<noteq> []"
proof
  assume no: "To4 t = []"
  obtain u where u: "length u = 4" "ip_String t = ip_String u"
    using assms by (auto simp: is_ip4_iff)
  obtain a b c d where "u = [a, b, c, d]" using u(1) by (rule length4_cases)
  with u have s: "ip_String t = show_nat (unat a) @ ''.'' @ show_nat (unat b) @ ''.'' @
      show_nat (unat c) @ ''.'' @ show_nat (unat d)" by (simp add: ip_String_4)
  have digits: "list_all is_digit (show_nat n)" for n by (rule show_nat_digits)
  have dots: "x = CHR ''.'' \<or> is_digit x" if "x \<in> set (ip_String t)" for x
    using that digits unfolding s by (auto simp: list_all_iff)
  have "\<not> is_digit (CHR '':'')" "\<not> is_digit (CHR ''<'')" "\<not> is_digit (CHR ''?'')"
    by (simp_all add: is_digit_def)
  moreover have "CHR ''<'' \<in> set (ip_String t) \<or> CHR ''?'' \<in> set (ip_String t) \<or> CHR '':'' \<in> set (ip_String t)"
    using no ip_String_colon [of t] by (cases "length t = 16") (auto simp: ip_String_def)
  ultimately show False using dots by blast
qed

lemma isUsed_mapped:
  assumes "To4 t \<noteq> []" and "ip_String t \<in> S"
  shows "isUsed S t"
proof -
  have len: "length (To4 t) = 4" using assms(1) length_To4 by blast
  have "t \<noteq> []" using assms(1) by (auto simp: To4_def)
  then have str: "ip_String t = ip_String (To4 t)" using assms(1) len by (auto simp: ip_String_def)
  have "ip_Equal t (v4InV6Prefix @ To4 t)"
    using assms(1) by (auto simp: To4_def ip_Equal_def v4InV6Prefix_def split: if_splits)
      (metis append_take_drop_id v4InV6Prefix_def append_Cons append_Nil)+
  then have "ip_Equal t (ParseIP (ip_String t))" by (simp add: str ParseIP_ip_String len)
  then show ?thesis using assms(2) unfolding isUsed_def by blast
qed

lemma scanIP_unused: "scanIP d S t = Ret (Some u) \<Longrightarrow> \<not> isUsed S u"
proof (induction d S t rule: scanIP.induct)
  case (1 d S t)
  then show ?case
    by (subst (asm) scanIP.simps [of d S t]) (auto split: if_splits outcome.splits)
qed

lemma GetUnreservedIP_new:
  assumes "GetUnreservedIP cidr cloud a = (Ret r, b)"
  shows "b = holdIP r a \<and> (is_ip4 r \<longrightarrow> r \<notin> pendingIPs a)"
proof -
  obtain t where "r = ip_String t" "b = holdIP r a" "\<not> isUsed (cloud \<union> pendingIPs a) t"
    using assms by (auto simp: GetUnreservedIP_def Let_def dest: scanIP_unused
        split: sum.splits prod.splits outcome.splits option.splits)
  then show ?thesis using isUsed_mapped is_ip4_String by blast
qed

section \<open>The keys of the controller\<close>

datatype key = NameKey string | AddressKey string
datatype key_request = NameRequest string | AddressRequest string "string set"

definition held_keys :: "sys \<Rightarrow> key set" where
  "held_keys s = NameKey ` creatingInstanceNames (nasNameHolder s) \<union>
     AddressKey ` {a \<in> pendingIPs (ipAllocator s). is_ip4 a}"

fun reserve_key :: "key_request \<Rightarrow> sys \<Rightarrow> (key \<times> sys) option" where
  "reserve_key (NameRequest name) s =
     (case on_names (SetCreating name) s of (Ret _, t) \<Rightarrow> Some (NameKey name, t) | _ \<Rightarrow> None)"
| "reserve_key (AddressRequest cidr cloud) s =
     (case on_ips (GetUnreservedIP cidr cloud) s of
        (Ret a, t) \<Rightarrow> if is_ip4 a then Some (AddressKey a, t) else None | _ \<Rightarrow> None)"

fun release_key :: "key \<Rightarrow> sys \<Rightarrow> sys" where
  "release_key (NameKey name) s = snd (on_names (UnsetCreating name) s)"
| "release_key (AddressKey a) s = snd (on_ips (ReleaseIP a) s)"

definition new_calls :: "sys \<Rightarrow> sys \<Rightarrow> history" where
  "new_calls s t = drop (length (trace s)) (trace t)"

text \<open>What a creation of an instance relies on: its name, and its address if one was reserved.\<close>

definition input_keys :: "CreateNASInstanceInput \<Rightarrow> key set" where
  "input_keys i = {NameKey (pstr (in_Identifier i))} \<union>
     {AddressKey a |a. is_ip4 a \<and> in_MasterPrivateAddress i = Some (a @ ''/24'')}"

definition needed_keys :: "sys \<Rightarrow> sys \<Rightarrow> key set" where
  "needed_keys s t = (\<Union>i \<in> {i. CreateNASInstance i \<in> set (new_calls s t)}. input_keys i)"

lemma needed_keys_same: "trace t = trace s \<Longrightarrow> needed_keys s t = {}"
  by (simp add: needed_keys_def new_calls_def)

lemma reserve_key_cases:
  assumes "reserve_key q s = Some (k, t)"
  obtains (name) n where "k = NameKey n" "n \<notin> creatingInstanceNames (nasNameHolder s)"
      "t = s\<lparr>nasNameHolder := (nasNameHolder s)\<lparr>creatingInstanceNames :=
        insert n (creatingInstanceNames (nasNameHolder s))\<rparr>\<rparr>"
    | (address) a where "k = AddressKey a" "is_ip4 a" "a \<notin> pendingIPs (ipAllocator s)"
      "t = s\<lparr>ipAllocator := holdIP a (ipAllocator s)\<rparr>"
proof (cases q)
  case (NameRequest n)
  then show thesis
    using assms by (intro name [of n]) (auto simp: zoom_run SetCreating_def split: if_splits)
next
  case (AddressRequest cidr cloud)
  then obtain a b where a: "GetUnreservedIP cidr cloud (ipAllocator s) = (Ret a, b)" "is_ip4 a"
    "k = AddressKey a" "t = s\<lparr>ipAllocator := b\<rparr>"
    using assms by (auto simp: zoom_run split: prod.splits outcome.splits if_splits)
  then show thesis using GetUnreservedIP_new [OF a(1)] by (intro address [of a]) auto
qed

lemma held_keys_release:
  "held_keys (release_key k s) = held_keys s - {k}" "trace (release_key k s) = trace s"
  by (cases k; auto simp: held_keys_def zoom_run UnsetCreating_def ReleaseIP_def)+

interpretation keys: reservation held_keys reserve_key release_key
proof
  fix q s k t
  assume r: "reserve_key q s = Some (k, t)"
  from r show "k \<notin> held_keys s" by (cases rule: reserve_key_cases) (auto simp: held_keys_def)
  from r show "held_keys t = insert k (held_keys s)"
    by (cases rule: reserve_key_cases) (auto simp: held_keys_def holdIP_def)
qed (rule held_keys_release)

interpretation requests: workers held_keys reserve_key release_key needed_keys
  "retry_contract :: cenv \<Rightarrow> bool"
proof
  show "needed_keys s t = {}" if "reserve_key q s = Some (k, t)" for q s k t
    using that by (cases rule: reserve_key_cases) (simp_all add: needed_keys_same)
  show "needed_keys s (release_key k s) = {}" for s k
    by (rule needed_keys_same) (rule held_keys_release)
qed

section \<open>The handlers share the keys\<close>

definition not_create :: "call \<Rightarrow> bool" where
  "not_create c \<longleftrightarrow> \<not> is_create c"

lemma not_create_intros:
  "reading c \<Longrightarrow> not_create c" "snapshot_call c \<Longrightarrow> not_create c" "job_call c \<Longrightarrow> not_create c"
  "finish_call c \<Longrightarrow> not_create c" "not_create (DeleteNASInstance n)" "not_create (DescribeNASInstances m)"
  using finish_not_create reading_finish job_snapshot_call
  by (auto simp: not_create_def finish_call_def is_create_def)

text \<open>Talking to the outside without creating an instance.\<close>

lemma balanced_outside:
  fixes m :: "cenv \<Rightarrow> (sys, 'a) prog"
  assumes "\<And>E. retry_contract E \<Longrightarrow> keeps (extends not_create) (m E)"
  shows "requests.balanced h (atomT m)"
proof (rule requests.balanced_atom)
  fix E :: cenv and s
  assume "retry_contract E"
  then have "extends not_create s (snd (m E s))" using assms by (simp add: keeps_def)
  then obtain k where "snd (m E s) = s\<lparr>trace := trace s @ k\<rparr>" "list_all not_create k"
    by (auto simp: extends_def)
  then show "held_keys (snd (m E s)) = held_keys s \<and> needed_keys s (snd (m E s)) \<subseteq> h"
    by (auto simp: held_keys_def needed_keys_def new_calls_def list_all_iff not_create_def is_create_def)
qed

lemma balanced_holders:
  "requests.balanced h (atomT (\<lambda>_. on_creating k))" "requests.balanced h (atomT (\<lambda>_. on_deleting k))"
  by (rule requests.balanced_atom; auto simp: zoom_run held_keys_def needed_keys_same split: prod.split)+

lemma balanced_release_other: "\<not> is_ip4 a \<Longrightarrow> requests.balanced h (atomT (\<lambda>_. on_ips (ReleaseIP a)))"
  by (rule requests.balanced_atom) (auto simp: zoom_run ReleaseIP_def held_keys_def needed_keys_same)

lemma balanced_unset:
  "requests.balanced h (unset_on_error (on_creating k) r)" "requests.balanced h (unset_on_error (on_deleting k) r)"
  by (simp_all add: unset_on_error_def balanced_holders requests.balanced_rules split: outcome.split)

lemma balanced_queue: "requests.balanced h (QueueT on_creating n)" "requests.balanced h (QueueT on_deleting n)"
  by (simp_all add: QueueT_def balanced_holders requests.balanced_rules)

lemma balanced_status: "requests.balanced h m \<Longrightarrow> requests.balanced h (statusT c pre m)"
  by (simp add: statusT_def requests.balanced_rules)

lemma balanced_deref: "requests.balanced h (derefT p)"
  by (simp add: derefT_def requests.balanced_def retT_def split: option.split)

lemma balanced_bind_lift:
  assumes "\<And>a. r = Inr a \<Longrightarrow> requests.balanced h (f a)"
  shows "requests.balanced h (bindT (statusT c pre (liftT r)) f)"
  using assms
  by (cases r) (simp_all add: statusT_def wrapT_def liftT_def retT_def failT_def requests.balanced_def)

lemmas balanced_intros = requests.balanced_rules balanced_outside balanced_holders balanced_unset
  balanced_queue balanced_status balanced_deref

lemma balanced_convert: "requests.balanced h (convertSharedRequestT drv name req)"
  by (auto simp: convertSharedRequestT_def intro!: balanced_intros keeps_choose_shared not_create_intros(1))

lemma balanced_finish: "requests.balanced h (finish_volumeT J cfg req name sid perm n)"
  by (auto simp: finish_volumeT_def intro!: balanced_intros keeps_ready_instance keeps_prepare_path
      keeps_nasInstanceToCSIVolume keeps_restoreSnapshot intro: not_create_intros)

lemma balanced_create_instance:
  assumes "input_keys i \<subseteq> h" and "\<And>n. requests.balanced h (rest n)"
  shows "requests.balanced h (create_instanceT i rest)"
proof -
  have "requests.balanced h (atomT (\<lambda>E. CreateNasInstance E i))"
  proof (rule requests.balanced_atom)
    fix E :: cenv and s
    have "snd (CreateNasInstance E i s) = s\<lparr>trace := trace s @ [CreateNASInstance i]\<rparr>"
      by (simp add: CreateNasInstance_def api_def split: sum.split)
    then show "held_keys (snd (CreateNasInstance E i s)) = held_keys s \<and>
        needed_keys s (snd (CreateNasInstance E i s)) \<subseteq> h"
      using assms(1) by (auto simp: held_keys_def needed_keys_def new_calls_def)
  qed
  with assms(2) show ?thesis
    unfolding create_instanceT_def
    by (intro requests.balanced_rules balanced_status balanced_deref)
qed

text \<open>The address: what \<open>reserveIP\<close> leaves held.\<close>

definition holds_address :: "key set \<Rightarrow> string outcome \<Rightarrow> key set \<Rightarrow> bool" where
  "holds_address h r h' \<longleftrightarrow> (case r of
       Ret a \<Rightarrow> if is_ip4 a then h' = insert (AddressKey a) h \<and> AddressKey a \<notin> h else h' = h
     | _ \<Rightarrow> h' = h)"

lemma GetUnreservedIP_legal:
  assumes "h \<subseteq> held_keys s" and "on_ips (GetUnreservedIP cidr ips) s = (r, t)"
  shows "\<exists>h'. requests.legal h s t h' \<and> holds_address h r h'"
proof (cases "\<exists>a. r = Ret a \<and> is_ip4 a")
  case True
  then obtain a where a: "r = Ret a" "is_ip4 a" by blast
  then have "reserve_key (AddressRequest cidr ips) s = Some (AddressKey a, t)" using assms(2) by simp
  then have "requests.legal h s t (insert (AddressKey a) h)" "AddressKey a \<notin> h"
    using assms(1) requests.legal_reserve keys.reserve_fresh by blast+
  then show ?thesis using a by (auto simp: holds_address_def)
next
  case False
  obtain b where b: "GetUnreservedIP cidr ips (ipAllocator s) = (r, b)" "t = s\<lparr>ipAllocator := b\<rparr>"
    using assms(2) by (auto simp: zoom_run split: prod.splits)
  then have "held_keys t = held_keys s"
    using GetUnreservedIP_pending [OF b(1)] False by (auto simp: held_keys_def split: outcome.splits)
  then have "requests.legal h s t h"
    using assms(1) b by (intro requests.legal_same) (auto simp: needed_keys_same)
  then show ?thesis using False by (auto simp: holds_address_def split: outcome.split)
qed

lemma reserveIP_conforms: "requests.conforms (reserveIPT cidr) (holds_address h) h"
  unfolding reserveIPT_def
proof (rule requests.conforms_bind)
  show "requests.conforms (atomT getCloudInstancesReservedIPs) (\<lambda>_ h'. h' = h) h"
    unfolding requests.balanced_def [symmetric]
    by (rule balanced_outside) (rule keeps_reserved_ips, rule not_create_intros(1))
  show "requests.conforms (atomT (\<lambda>_. on_ips (GetUnreservedIP cidr ips))) (holds_address h) h'"
    if "h' = h" for ips h'
    unfolding that by (rule requests.conforms_atom) (rule GetUnreservedIP_legal)
qed (simp_all add: holds_address_def)

lemma balanced_new_instance:
  assumes "in_Identifier i = Some name" and "in_MasterPrivateAddress i = None" and "NameKey name \<in> h"
    and "\<And>n h. requests.balanced h (rest n)"
  shows "requests.balanced h (new_instanceT req i annotated rest)"
proof -
  let ?with = "\<lambda>a. i\<lparr>in_MasterPrivateAddress := Some (a @ ''/24'')\<rparr>"
  have keys: "input_keys i \<subseteq> h" "input_keys (?with a) \<subseteq> insert (AddressKey a) h"
    "\<not> is_ip4 a \<Longrightarrow> input_keys (?with a) \<subseteq> h" for a
    using assms(1-3) by (auto simp: input_keys_def pstr_def)
  have releases: "requests.releases (AddressKey a) (\<lambda>_. on_ips (ReleaseIP a))" for a
    by (simp add: requests.releases_def zoom_run ReleaseIP_def)
  let ?Q = "\<lambda>_ h'. h' = h"
  let ?body = "\<lambda>a. deferT (\<lambda>_. atomT (\<lambda>_. on_ips (ReleaseIP a))) (create_instanceT (?with a) rest)"
  have body: "requests.conforms (?body a) ?Q h'" if "holds_address h (Ret a) h'" for a h'
  proof (cases "is_ip4 a")
    case True
    then have h': "h' = insert (AddressKey a) h" "AddressKey a \<notin> h"
      using that by (simp_all add: holds_address_def)
    show ?thesis
      unfolding h'(1) by (rule requests.balanced_bracket [OF _ releases h'(2)])
        (rule balanced_create_instance [OF keys(2) assms(4)])
  next
    case False
    then have "h' = h" using that by (simp add: holds_address_def)
    moreover have "requests.balanced h (?body a)"
      using False by (intro requests.balanced_rules balanced_release_other balanced_create_instance keys(3) assms(4))
    ultimately show ?thesis by (simp add: requests.balanced_def)
  qed
  have stop: "requests.conforms (deferT (\<lambda>_. atomT (\<lambda>_. on_ips (ReleaseIP ''''))) (failT e)) ?Q h" for e
  proof -
    have "\<not> is_ip4 ''''" by (simp add: is_ip4_def ParseIP_def To4_def)
    then show ?thesis
      using requests.balanced_defer [OF requests.balanced_ret(2) balanced_release_other]
      by (simp add: requests.balanced_def)
  qed
  have reserved: "requests.conforms (bindT (tryT (reserveIPT cidr)) (\<lambda>r. case r of
      Inl e \<Rightarrow> deferT (\<lambda>_. atomT (\<lambda>_. on_ips (ReleaseIP ''''))) (failT e) | Inr a \<Rightarrow> ?body a)) ?Q h" for cidr
    unfolding tryT_def
  proof (rule requests.conforms_bind)
    show "requests.conforms (mapT caught (reserveIPT cidr))
        (\<lambda>r. case r of Ret (Inr a) \<Rightarrow> holds_address h (Ret a) | _ \<Rightarrow> (\<lambda>h'. h' = h)) h"
      by (rule requests.conforms_map, rule requests.conforms_mono [OF reserveIP_conforms])
        (auto simp: holds_address_def split: outcome.splits)
  qed (use body stop in \<open>auto split: sum.splits\<close>)
  show ?thesis
    unfolding new_instanceT_def Let_def
    by (simp only: split: if_split)
      (intro conjI impI requests.balanced_ret(2) reserved [folded requests.balanced_def]
        balanced_create_instance keys(1) assms(4))
qed

lemma balanced_with_instance:
  assumes "in_Identifier i = Some name" and "in_MasterPrivateAddress i = None" and "NameKey name \<in> h"
    and "\<And>n h. requests.balanced h (rest n)"
  shows "requests.balanced h (with_instanceT req i name annotated rest)"
  using balanced_new_instance [OF assms] assms(4)
  by (auto simp: with_instanceT_def intro!: balanced_intros keeps_cloud keeps_compare not_create_intros(6)
      split: sum.split)

lemma finalize_input_fields:
  assumes "GenerateNasInstanceInput name cap ps = Inr i"
  shows "in_Identifier (finalize_input sg i) = Some name" "in_MasterPrivateAddress (finalize_input sg i) = None"
  using assms by (auto simp: GenerateNasInstanceInput_def finalize_input_def split: sum.splits)

lemma balanced_create_named:
  assumes "NameKey name \<in> h"
  shows "requests.balanced h (create_namedT J cfg req name cap)"
  unfolding create_namedT_def Let_def
proof (rule balanced_bind_lift, intro requests.balanced_bind)
  show "requests.balanced h (statusT InvalidArgument '''' (atomT (\<lambda>E. getSecurityGroupName E cfg)))"
    by (intro balanced_status balanced_outside keeps_shared(6)) (rule not_create_intros(1))
  show "requests.balanced h (atomT (\<lambda>_. source_snapshot req))"
    by (intro balanced_outside keeps_source_snapshot)
  show "requests.balanced h (statusT InvalidArgument '''' (atomT (\<lambda>E. getAnnotationsFromPVC E cfg (req_Name req))))"
    by (intro balanced_status balanced_outside keeps_getAnnotationsFromPVC) (rule not_create_intros(1))
  fix i sg sid a
  assume i: "GenerateNasInstanceInput name cap (req_Params req) = Inr i"
  show "requests.balanced h (case a of (annotated, permission) \<Rightarrow>
      with_instanceT req (finalize_input sg i) name annotated (finish_volumeT J cfg req name sid permission))"
    using balanced_with_instance [OF finalize_input_fields [OF i] assms balanced_finish]
    by (simp split: prod.split)
qed

lemma SetCreating_legal:
  assumes "h \<subseteq> held_keys s" and "on_names (SetCreating name) s = (r, t)"
  shows "\<exists>h'. requests.legal h s t h' \<and>
    (case r of Ret _ \<Rightarrow> h' = insert (NameKey name) h \<and> NameKey name \<notin> h | _ \<Rightarrow> h' = h)"
proof (cases "r = Ret ()")
  case True
  then have r: "reserve_key (NameRequest name) s = Some (NameKey name, t)" using assms(2) by simp
  then show ?thesis
    using True requests.legal_reserve [OF assms(1) r] keys.reserve_fresh [OF r] assms(1)
    by (intro exI [of _ "insert (NameKey name) h"]) auto
next
  case False
  then have "t = s" "\<forall>a. r \<noteq> Ret a"
    using assms(2) by (auto simp: zoom_run SetCreating_def split: if_splits)
  then show ?thesis
    using assms(1) requests.legal_same [of h s s] by (auto simp: needed_keys_same split: outcome.split)
qed

lemma balanced_bracket_name:
  assumes "\<And>h. NameKey name \<in> h \<Longrightarrow> requests.balanced h m"
  shows "requests.balanced h (bindT (statusT Internal '''' (atomT (\<lambda>_. on_names (SetCreating name)))) (\<lambda>_.
    deferT (\<lambda>_. atomT (\<lambda>_. on_names (UnsetCreating name))) m))"
proof -
  let ?R = "\<lambda>r h'. case r of Ret _ \<Rightarrow> h' = insert (NameKey name) h \<and> NameKey name \<notin> h | _ \<Rightarrow> h' = h"
  let ?set = "statusT Internal '''' (atomT (\<lambda>_. on_names (SetCreating name)))"
  have set: "requests.conforms ?set ?R h"
    unfolding statusT_def wrapT_def
  proof (rule requests.conforms_map, rule requests.conforms_atom)
    fix s t and r :: "unit outcome"
    assume "h \<subseteq> held_keys s" "on_names (SetCreating name) s = (r, t)"
    from SetCreating_legal [OF this]
    show "\<exists>h'. requests.legal h s t h' \<and>
        ?R (case r of Fail e \<Rightarrow> Fail (StatusErr Internal ('''' @ errText e)) | _ \<Rightarrow> r) h'"
      by (auto split: outcome.splits)
  qed
  have "requests.releases (NameKey name) (\<lambda>_. on_names (UnsetCreating name))"
    by (simp add: requests.releases_def zoom_run UnsetCreating_def)
  then have "requests.conforms (deferT (\<lambda>_. atomT (\<lambda>_. on_names (UnsetCreating name))) m) (\<lambda>_ h'. h' = h) h'"
    if "?R (Ret ()) h'" for h'
    using that requests.balanced_bracket [OF assms [of "insert (NameKey name) h"]] by simp
  then show ?thesis
    unfolding requests.balanced_def by (intro requests.conforms_bind [OF set]) simp_all
qed

lemma balanced_CreateVolume: "requests.balanced h (CreateVolumeT J drv req)"
  unfolding CreateVolumeT_def
  by (auto intro!: balanced_intros balanced_bind_lift balanced_convert balanced_bracket_name
      balanced_create_named split: prod.split)

lemma balanced_DeleteVolume: "requests.balanced h (DeleteVolumeT vid)"
proof -
  have "requests.balanced h (delete_sharedT nas path)" for nas path
    unfolding delete_sharedT_def delete_instance_def
    by (auto intro!: balanced_intros keeps_source_path keeps_shared keeps_statusP keeps_cloud
        not_create_intros(5) intro: not_create_intros)
  then show ?thesis
    unfolding DeleteVolumeT_def Let_def delete_instance_def
    by (auto intro!: balanced_intros keeps_statusP keeps_cloud not_create_intros(5,6) split: sum.split)
qed

end
