(* ===== verification/Concurrency.thy ===== *)
theory Concurrency
  imports HandlerProps DeleteProps
begin

text \<open>
  What holds when requests run at the same time: the pool of the handlers and of the informer's
  events over one controller. No two handlers are ever about to create the same instance, nothing
  stays reserved when all have ended, and DeleteVolume can delete the instance on which
  CreateVolume has just placed a volume.
\<close>

section \<open>The requests\<close>

text \<open>What arrives at the controller; the reply of CreateVolume is the volume.\<close>

inductive arrival :: "codec \<Rightarrow> driver \<Rightarrow> Volume option handler \<Rightarrow> bool" for J drv where
  create: "arrival J drv (bindT (CreateVolumeT J drv req) (\<lambda>v. retT (Some v)))"
| delete: "arrival J drv (bindT (DeleteVolumeT vid) (\<lambda>_. retT None))"
| pv_added: "arrival J drv (bindT (atomT (\<lambda>_. pvAdded key)) (\<lambda>_. retT None))"
| pv_deleted: "arrival J drv (bindT (atomT (\<lambda>_. pvDeleted key)) (\<lambda>_. retT None))"

type_synonym controller_pool = "(cenv, sys, Volume option) pool"

abbreviation controller_step :: "codec \<Rightarrow> driver \<Rightarrow> controller_pool \<Rightarrow> controller_pool \<Rightarrow> bool" where
  "controller_step J drv \<equiv> pstep retry_contract (arrival J drv)"

lemma not_blocked_steps:
  "\<not> is_blocked (retT a)" "\<not> is_blocked (failT e)" "\<not> is_blocked (atomT m)"
  "\<not> is_blocked r \<Longrightarrow> \<not> is_blocked (statusT c pre r)" "\<not> is_blocked r \<Longrightarrow> \<not> is_blocked (tryT r)"
  "\<not> is_blocked (liftT x)" "\<not> is_blocked (derefT p)" "\<not> is_blocked (unset_on_error k out)"
  "\<not> is_blocked (QueueT q n)" "\<not> is_blocked r \<Longrightarrow> \<not> is_blocked (wrapT g r)"
proof -
  show map: "\<not> is_blocked (wrapT g r)" if "\<not> is_blocked r" for g and r :: "'x handler"
    unfolding wrapT_def using that by (rule not_blocked_map) (simp split: outcome.split)
  show "\<not> is_blocked (statusT c pre r)" if "\<not> is_blocked r"
    unfolding statusT_def by (rule map [OF that])
  show "\<not> is_blocked (tryT r)" if "\<not> is_blocked r"
    unfolding tryT_def using that by (rule not_blocked_map) (auto elim: caught.elims)
qed (auto simp: retT_def failT_def atomT_def liftT_def derefT_def unset_on_error_def QueueT_def
    split: sum.split option.split outcome.split)

lemma not_blocked_handlers:
  "\<not> is_blocked (convertSharedRequestT drv name req)" "\<not> is_blocked (create_instanceT i rest)"
  "\<not> is_blocked (finish_volumeT J cfg req name sid perm n)"
  "\<not> is_blocked (new_instanceT req i annotated rest)"
  "\<not> is_blocked (with_instanceT req i name annotated rest)"
  "\<not> is_blocked (create_namedT J cfg req name cap)" "\<not> is_blocked (CreateVolumeT J drv req)"
  "\<not> is_blocked (delete_sharedT nas path)" "\<not> is_blocked (DeleteVolumeT vid)"
proof -
  show "\<not> is_blocked (create_instanceT i rest)" for i rest
    by (simp add: create_instanceT_def statusT_def wrapT_def atomT_def)
  moreover show "\<not> is_blocked (finish_volumeT J cfg req name sid perm n)" for J cfg req name sid perm n
    by (simp add: finish_volumeT_def atomT_def)
  moreover show "\<not> is_blocked (with_instanceT req i name annotated rest)" for req i name annotated rest
    by (simp add: with_instanceT_def tryT_def atomT_def)
  moreover show "\<not> is_blocked (convertSharedRequestT drv name req)" for drv name req
    by (simp add: convertSharedRequestT_def retT_def wrapT_def QueueT_def atomT_def)
  ultimately show "\<not> is_blocked (new_instanceT req i annotated rest)"
    "\<not> is_blocked (create_namedT J cfg req name cap)" "\<not> is_blocked (CreateVolumeT J drv req)"
    "\<not> is_blocked (delete_sharedT nas path)" "\<not> is_blocked (DeleteVolumeT vid)"
    by (simp_all add: new_instanceT_def reserveIPT_def create_namedT_def CreateVolumeT_def delete_sharedT_def
        DeleteVolumeT_def Let_def not_blocked_bind not_blocked_defer not_blocked_steps
        split: sum.split prod.split)
qed

lemma arrival_balanced:
  assumes "arrival J drv r"
  shows "requests.balanced {} r \<and> \<not> is_blocked r"
  using assms
proof cases
  case (pv_added key)
  have "requests.balanced {} (atomT (\<lambda>_. pvAdded key))"
    by (cases key) (auto simp: pvAdded_def intro: balanced_holders balanced_outside ext.keeps_ret)
  then show ?thesis
    by (simp add: pv_added requests.balanced_rules not_blocked_bind not_blocked_steps)
next
  case (pv_deleted key)
  have "requests.balanced {} (atomT (\<lambda>_. pvDeleted key))"
    by (cases key) (auto simp: pvDeleted_def intro: balanced_holders balanced_outside ext.keeps_ret)
  then show ?thesis
    by (simp add: pv_deleted requests.balanced_rules not_blocked_bind not_blocked_steps)
qed (simp_all add: requests.balanced_rules balanced_CreateVolume balanced_DeleteVolume not_blocked_bind
    not_blocked_handlers not_blocked_steps)

lemma controller_shared_out:
  assumes "(controller_step J drv)\<^sup>*\<^sup>* (newControllerServer h, Map.empty) c"
  shows "\<exists>H. requests.shared_out c H"
proof (rule requests.shared_out_reach [OF assms])
  show "held_keys (newControllerServer h) = {}"
    by (simp add: held_keys_def newControllerServer_def newInstanceNameHolder_def newIPAllocator_def)
qed (rule arrival_balanced)

section \<open>Creations\<close>

text \<open>
  C5. However CreateVolume, DeleteVolume and the informer's events interleave, and whatever the
  services answer at each step: when two handlers are about to create an instance, the two have
  different names, and different IPv4 addresses if addresses were reserved.
\<close>

theorem creations_apart:
  assumes "(controller_step J drv)\<^sup>*\<^sup>* (newControllerServer h, Map.empty) (s, ts)" and "g \<noteq> g'"
    and "ts g = Some r" and "retry_contract E" and "next_step E s r = Some (t, r1)"
    and "CreateNASInstance i \<in> set (new_calls s t)"
    and "ts g' = Some q" and "retry_contract F" and "next_step F s q = Some (u, q1)"
    and "CreateNASInstance j \<in> set (new_calls s u)"
  shows "in_Identifier i \<noteq> in_Identifier j \<and>
    (\<forall>a. length a = 4 \<and> in_MasterPrivateAddress i = Some (ip_String a @ ''/24'') \<longrightarrow>
       in_MasterPrivateAddress j \<noteq> in_MasterPrivateAddress i)"
proof -
  obtain H where "requests.shared_out (s, ts) H" using controller_shared_out [OF assms(1)] by blast
  then have "needed_keys s t \<inter> needed_keys s u = {}"
    using assms(2-5,7-9) requests.next_needs_apart by metis
  moreover have "input_keys i \<subseteq> needed_keys s t" "input_keys j \<subseteq> needed_keys s u"
    using assms(6,10) by (auto simp: needed_keys_def)
  ultimately have "input_keys i \<inter> input_keys j = {}" by blast
  then show ?thesis by (auto simp: input_keys_def is_ip4_iff)
qed

section \<open>Nothing stays reserved\<close>

text \<open>
  C6. When all handlers have ended, in whatever order their steps ran and however each of them
  ended (also in an error or a panic), no instance name and no IPv4 address is reserved any more.
\<close>

theorem ended_requests_hold_nothing:
  assumes "(controller_step J drv)\<^sup>*\<^sup>* (newControllerServer h, Map.empty) (s, ts)"
    and "\<And>g r. ts g = Some r \<Longrightarrow> \<exists>out. r = Halt out"
  shows "creatingInstanceNames (nasNameHolder s) = {} \<and>
    (\<forall>a. length a = 4 \<longrightarrow> ip_String a \<notin> pendingIPs (ipAllocator s))"
proof -
  obtain H where "requests.shared_out (s, ts) H" using controller_shared_out [OF assms(1)] by blast
  then have "held_keys s = {}" by (rule requests.quiescent_free) (rule assms(2))
  then show ?thesis by (auto simp: held_keys_def is_ip4_iff)
qed

section \<open>Two creations at the same time\<close>

definition two_claims_env :: "'z env" where
  "two_claims_env = quiet_env\<lparr>listPVCs := \<lambda>h. Inr
     [\<lparr>pvc_name = ''claim-1'', pvc_namespace = ''default'', pvc_uid = ''1'', pvc_annotations = []\<rparr>,
      \<lparr>pvc_name = ''claim-2'', pvc_namespace = ''default'', pvc_uid = ''2'', pvc_annotations = []\<rparr>]\<rparr>"

lemma two_claims_retry: "retry_contract two_claims_env"
  by (rule retry_contract_quiet) (simp add: two_claims_env_def)

definition plain_request :: "string \<Rightarrow> CreateVolumeRequest" where
  "plain_request name = example_request\<lparr>req_Name := name, req_Params := []\<rparr>"

definition plain_input :: "string \<Rightarrow> CreateNASInstanceInput" where
  "plain_input name = example_input\<lparr>in_SecurityGroups := [''cluster-uid-1''], in_Identifier := Some name,
     in_NetworkId := None\<rparr>"

text \<open>A handler that is about to create the instance \<open>name\<close>.\<close>

definition creating_thread :: "codec \<Rightarrow> string \<Rightarrow> Volume handler" where
  "creating_thread J name =
     deferT (unset_on_error (on_creating (UnsetQueue name)))
       (deferT (\<lambda>_. atomT (\<lambda>_. on_names (UnsetCreating name)))
         (create_instanceT (plain_input name)
           (finish_volumeT J example_config (plain_request name) name '''' '''')))"

definition set_name :: "string \<Rightarrow> sys \<Rightarrow> sys" where
  "set_name name s = s\<lparr>nasNameHolder := (nasNameHolder s)\<lparr>creatingInstanceNames :=
     insert name (creatingInstanceNames (nasNameHolder s))\<rparr>\<rparr>"

lemma statusT_ret:
  "statusT c pre (retT a) = retT a" "bindT (retT a) f = f a"
  by (simp_all add: statusT_def wrapT_def retT_def)

lemma two_claims_instance:
  assumes "\<And>n. \<not> is_blocked (rest n)"
  shows "alone two_claims_env (u, with_instanceT (plain_request name) (plain_input name) name '''' rest)
    (u\<lparr>trace := trace u @ [DescribeNASInstances (Some name)]\<rparr>, create_instanceT (plain_input name) rest)"
proof -
  have get: "exec two_claims_env (tryT (atomT (\<lambda>E. GetNasInstance E name))) u =
      (Ret (Inl (AwsErr ''Client.InvalidParameterNotFound.NASInstanceIdentifier'' ''not found'')),
       u\<lparr>trace := trace u @ [DescribeNASInstances (Some name)]\<rparr>)"
    by (simp add: GetNasInstance_def two_claims_env_def tryP_def bindP_def run_api)
  have "IsNotFoundErr (AwsErr ''Client.InvalidParameterNotFound.NASInstanceIdentifier'' m)" for m
    by (simp add: IsNotFoundErr_def HasPrefix_def)
  moreover have "new_instanceT req (plain_input name) '''' rest = create_instanceT (plain_input name) rest" for req
    by (simp add: new_instanceT_def plain_input_def)
  ultimately show ?thesis
    unfolding with_instanceT_def
    by (intro alone_after [OF get])
      (simp_all add: alone_refl assms not_blocked_bind not_blocked_steps not_blocked_handlers split: sum.split)
qed

lemma two_claims_annotations:
  assumes "name \<in> {''pvc-1'', ''pvc-2''}"
  shows "getAnnotationsFromPVC two_claims_env example_config name s =
    (Ret ('''', ''''), s\<lparr>trace := trace s @ [ListPVCs]\<rparr>)"
proof (cases "name = ''pvc-1''")
  case True
  show ?thesis
    unfolding True by (simp add: getAnnotationsFromPVC_def claim_annotations_def two_claims_env_def bindP_def
        wrapP_def retP_def run_api eval_nat_numeral)
next
  case False
  then have name: "name = ''pvc-2''" using assms by simp
  show ?thesis
    unfolding name by (simp add: getAnnotationsFromPVC_def claim_annotations_def two_claims_env_def bindP_def
        wrapP_def retP_def run_api eval_nat_numeral)
qed

lemma two_claims_named:
  assumes "name \<in> {''pvc-1'', ''pvc-2''}"
  shows "alone two_claims_env (s, create_namedT J example_config (plain_request name) name minVolumeSize)
    (s\<lparr>trace := trace s @ [ListPVCs, DescribeNASInstances (Some name)]\<rparr>,
     create_instanceT (plain_input name) (finish_volumeT J example_config (plain_request name) name '''' ''''))"
proof -
  let ?E = "two_claims_env :: cenv"
  let ?finish = "finish_volumeT J example_config (plain_request name) name '''' ''''"
  define i where "i = example_input\<lparr>in_SecurityGroups := [], in_Identifier := Some name,
      in_NetworkId := Some ''net-COMMON_PRIVATE''\<rparr>"
  have gen: "GenerateNasInstanceInput name minVolumeSize (req_Params (plain_request name)) = Inr i"
    using example_allocated by (simp add: GenerateNasInstanceInput_def default_params_def plain_request_def i_def example_input_def)
  have fin: "finalize_input ''cluster-uid-1'' i = plain_input name"
    by (simp add: finalize_input_def i_def plain_input_def pstr_def)
  have sg: "exec ?E (statusT InvalidArgument '''' (atomT (\<lambda>E. getSecurityGroupName E example_config))) u =
      (Ret ''cluster-uid-1'', u)" for u
    by (simp add: exec_shared_steps example_group statusP_def wrapP_def)
  have src: "exec ?E (atomT (\<lambda>_. source_snapshot (plain_request name))) u = (Ret '''', u)" for u
    by (simp add: source_snapshot_def plain_request_def example_request_def retP_def)
  have ann: "exec ?E (statusT InvalidArgument '''' (atomT (\<lambda>E. getAnnotationsFromPVC E example_config
      (req_Name (plain_request name))))) u = (Ret ('''', ''''), u\<lparr>trace := trace u @ [ListPVCs]\<rparr>)" for u
    by (simp add: exec_shared_steps plain_request_def example_request_def two_claims_annotations [OF assms]
        statusP_def wrapP_def)
  note inst = two_claims_instance [of ?finish, OF not_blocked_handlers(3)]
  let ?annotated = "\<lambda>sid (annotated, permission). with_instanceT (plain_request name) (plain_input name) name
      annotated (finish_volumeT J example_config (plain_request name) name sid permission)"
  have nb: "\<not> is_blocked (?annotated sid p)" for sid p
    by (simp add: not_blocked_handlers split: prod.split)
  have s3: "alone ?E (u, bindT (statusT InvalidArgument '''' (atomT (\<lambda>E. getAnnotationsFromPVC E example_config
        (req_Name (plain_request name))))) (?annotated ''''))
      (u\<lparr>trace := trace u @ [ListPVCs, DescribeNASInstances (Some name)]\<rparr>,
       create_instanceT (plain_input name) ?finish)" for u
    by (rule alone_after [OF ann nb]) (use inst [of "u\<lparr>trace := trace u @ [ListPVCs]\<rparr>"] in simp)
  have nb: "\<not> is_blocked (bindT (statusT InvalidArgument '''' (atomT m)) (\<lambda>(annotated, permission).
      with_instanceT req nasInput name annotated (F annotated permission)))" for m req nasInput F
    by (simp add: not_blocked_bind not_blocked_steps not_blocked_handlers split: prod.split)
  show ?thesis
    unfolding create_namedT_def gen
    by (simp add: liftT_def statusT_ret Let_def alone_after [OF sg] alone_after [OF src]
        not_blocked_bind not_blocked_steps nb fin s3)
qed

lemma creating_reached:
  assumes "name \<in> {''pvc-1'', ''pvc-2''}" and "name \<notin> creatingInstanceNames (nasNameHolder s)"
  shows "alone two_claims_env (s, CreateVolumeT J example_driver (plain_request name))
    ((set_name name s)\<lparr>trace := trace s @ [ListPVCs, DescribeNASInstances (Some name)]\<rparr>, creating_thread J name)"
proof -
  have val: "validateVolumeCapabilities example_driver (req_Caps (plain_request name)) = Inr ()"
    using example_request_facts by (simp add: plain_request_def)
  have name: "req_Name (plain_request name) = name" "name \<noteq> ''''"
    using assms(1) by (auto simp: plain_request_def)
  have drv: "drv_config example_driver = example_config" by (simp add: example_driver_def)
  have conv: "convertSharedRequestT example_driver name (plain_request name) = retT (name, minVolumeSize)"
    by (simp add: convertSharedRequestT_def plain_request_def example_request_def param_def pstr_def
        getRequestCapacity_def)
  have set: "exec two_claims_env (statusT Internal '''' (atomT (\<lambda>_. on_names (SetCreating name)))) s =
      (Ret (), set_name name s)"
    using assms(2) by (simp add: exec_shared_steps statusP_def wrapP_def zoom_run SetCreating_def set_name_def)
  have named: "alone two_claims_env
      (set_name name s, create_namedT J example_config (plain_request name) name minVolumeSize)
      ((set_name name s)\<lparr>trace := trace s @ [ListPVCs, DescribeNASInstances (Some name)]\<rparr>,
       create_instanceT (plain_input name) (finish_volumeT J example_config (plain_request name) name '''' ''''))"
    using two_claims_named [OF assms(1), of "set_name name s" J] by (simp add: set_name_def)
  note nb = not_blocked_defer not_blocked_steps not_blocked_handlers
  show ?thesis
    unfolding CreateVolumeT_def name val liftT_def drv conv
    by (simp add: statusT_ret name creating_thread_def)
      (intro alone_defer alone_after [OF set] named; simp add: nb)
qed

text \<open>The requests of the handlers, with the reply that the pool keeps.\<close>

abbreviation reply :: "Volume handler \<Rightarrow> Volume option handler" where
  "reply r \<equiv> bindT r (\<lambda>v. retT (Some v))"

lemma two_creating:
  obtains u where "(controller_step no_codec example_driver)\<^sup>*\<^sup>* (newControllerServer [], Map.empty)
    (u, [0 \<mapsto> reply (creating_thread no_codec ''pvc-1''), Suc 0 \<mapsto> reply (creating_thread no_codec ''pvc-2'')])"
proof -
  let ?r = "\<lambda>name. reply (CreateVolumeT no_codec example_driver (plain_request name))"
  let ?t = "\<lambda>name. reply (creating_thread no_codec name)"
  let ?s = "(set_name ''pvc-1'' (newControllerServer []))
    \<lparr>trace := trace (newControllerServer []) @ [ListPVCs, DescribeNASInstances (Some ''pvc-1'')]\<rparr>"
  note good = two_claims_retry
  have run: "\<exists>v. alone two_claims_env (u, ?r name) (v, ?t name)"
    if "name \<in> {''pvc-1'', ''pvc-2''}" "name \<notin> creatingInstanceNames (nasNameHolder u)" for name u
    using alone_bind [OF creating_reached [OF that]] by (meson not_blocked_steps(1))
  have start: "arrival no_codec example_driver (?r name)" for name by (rule arrival.create)
  note run_one = arrive_alone [where good = retry_contract and start = "arrival no_codec example_driver"]
  have "alone two_claims_env (newControllerServer [], ?r ''pvc-1'') (?s, ?t ''pvc-1'')"
    by (intro alone_bind creating_reached) (simp_all add: newControllerServer_def newInstanceNameHolder_def
        not_blocked_steps)
  from run_one [OF rtranclp.rtrancl_refl _ start good this, of Map.empty 0]
  have one: "(controller_step no_codec example_driver)\<^sup>*\<^sup>* (newControllerServer [], Map.empty) (?s, [0 \<mapsto> ?t ''pvc-1''])"
    by simp
  obtain v where "alone two_claims_env (?s, ?r ''pvc-2'') (v, ?t ''pvc-2'')"
    using run [of "''pvc-2''" ?s] by (auto simp: set_name_def newControllerServer_def newInstanceNameHolder_def)
  from run_one [OF one _ start good this, of "Suc 0"] show thesis
    by (intro that) simp
qed

lemma next_creation:
  obtains r where "next_step two_claims_env u (reply (creating_thread J name)) =
    Some (u\<lparr>trace := trace u @ [CreateNASInstance (plain_input name)]\<rparr>, r)"
proof -
  have "\<exists>r. next_step two_claims_env u (reply (creating_thread J name)) =
      Some (u\<lparr>trace := trace u @ [CreateNASInstance (plain_input name)]\<rparr>, r)"
    by (simp add: creating_thread_def create_instanceT_def statusT_def wrapT_def atomT_def CreateNasInstance_def
        two_claims_env_def quiet_env_def run_api unset_on_error_def)
  then show thesis using that by blast
qed

theorem creations_apart_witness:
  "in_Identifier (plain_input ''pvc-1'') \<noteq> in_Identifier (plain_input ''pvc-2'')"
proof -
  note good = two_claims_retry
  obtain u where reach: "(controller_step no_codec example_driver)\<^sup>*\<^sup>* (newControllerServer [], Map.empty)
    (u, [0 \<mapsto> reply (creating_thread no_codec ''pvc-1''), Suc 0 \<mapsto> reply (creating_thread no_codec ''pvc-2'')])"
    by (rule two_creating)
  have new: "CreateNASInstance i \<in> set (new_calls u (u\<lparr>trace := trace u @ [CreateNASInstance i]\<rparr>))" for i
    by (simp add: new_calls_def)
  obtain r q where
    r: "next_step two_claims_env u (reply (creating_thread no_codec ''pvc-1'')) =
      Some (u\<lparr>trace := trace u @ [CreateNASInstance (plain_input ''pvc-1'')]\<rparr>, r)" and
    q: "next_step two_claims_env u (reply (creating_thread no_codec ''pvc-2'')) =
      Some (u\<lparr>trace := trace u @ [CreateNASInstance (plain_input ''pvc-2'')]\<rparr>, q)"
    using next_creation by metis
  show ?thesis
    using creations_apart [OF reach _ _ good r new _ good q new, of 0 "Suc 0"] by simp
qed

theorem ended_requests_hold_nothing_witness:
  "creatingInstanceNames (nasNameHolder ((newControllerServer [])
     \<lparr>trace := [ListPVCs, DescribeNASInstances (Some ''pvc-1'')]\<rparr>)) = {}"
proof -
  let ?u = "(newControllerServer [])\<lparr>trace := [ListPVCs, DescribeNASInstances (Some ''pvc-1'')]\<rparr>"
  let ?r = "reply (CreateVolumeT no_codec example_driver example_request)"
  have "exec example_env ?r (newControllerServer []) = (Ret (Some example_volume), ?u)"
    by (simp add: exec_CreateVolumeT example_create bindP_def retP_def)
  then have "alone example_env (newControllerServer [], ?r) (?u, Halt (Ret (Some example_volume)))"
    by (rule alone_exec) simp
  from arrive_alone [where good = retry_contract and start = "arrival no_codec example_driver",
      OF rtranclp.rtrancl_refl _ arrival.create retry_contract_example this, of Map.empty 0]
  have "(controller_step no_codec example_driver)\<^sup>*\<^sup>* (newControllerServer [], Map.empty)
      (?u, [0 \<mapsto> Halt (Ret (Some example_volume))])"
    by simp
  moreover have "\<exists>out. r = Halt out" if "[0 \<mapsto> Halt (Ret (Some example_volume))] g = Some r"
    for g :: nat and r :: "Volume option handler"
    using that by (auto split: if_splits)
  ultimately show ?thesis using ended_requests_hold_nothing by blast
qed

end
