(* ===== verification/Overlap.thy ===== *)
theory Overlap
  imports Concurrency
begin

text \<open>
  A run in which DeleteVolume of the last volume of a shared instance and CreateVolume of the next
  one overlap. Each handler alone is right; the queues of the controller server do not keep them
  apart, because creations and deletions have a queue each.
\<close>

section \<open>The instance and its volume\<close>

text \<open>
  One shared instance with one volume. The persistent volume stays listed until DeleteVolume has
  returned, and the one of the new volume is made after CreateVolume has.
\<close>

definition race_instance :: NASInstance where
  "race_instance = example_instance\<lparr>ni_Identifier := Some shared_name\<rparr>"

definition race_pv :: PersistentVolume where
  "race_pv = \<lparr>pv_name = ''pvc-0'',
     pv_csi = Some (''nas.csi.storage.nifcloud.com'', ''jp-east-1/'' @ shared_name @ ''/pvc-0''),
     pv_capacity = Some (Some 10737418240)\<rparr>"

definition race_env :: "'z env" where
  "race_env = shared_env\<lparr>describeNas := \<lambda>h n. Inr [race_instance], deleteNas := \<lambda>h n. Inr (),
     listPVs := \<lambda>h. Inr [race_pv]\<rparr>"

definition race_volume :: Volume where
  "race_volume = shared_volume\<lparr>vol_VolumeId := ''jp-east-1/'' @ shared_name @ ''/pvc-1''\<rparr>"

definition race_job :: "string list \<Rightarrow> string \<Rightarrow> Job" where
  "race_job cmd path = with_args (cmd @ [path_join [''/mnt'', path]])
     (nfsJob ''192.168.9.2'' ''/'' shared_name ''default'')"

definition job_calls :: "Job \<Rightarrow> history" where
  "job_calls j = [CreateJob j, GetJob ''default'' shared_name, DeleteJob ''default'' shared_name]"

lemma race_env_simps [simp]:
  "describeNas race_env h n = Inr [race_instance]" "deleteNas race_env h m = Inr ()"
  "listPVs race_env h = Inr [race_pv]" "createJob race_env h j = Inr ()"
  "listPVCs race_env h = Inr [\<lparr>pvc_name = ''claim'', pvc_namespace = ''default'', pvc_uid = ''1'',
     pvc_annotations = []\<rparr>]" "ptr_text race_env = ''0xc000010250''"
  "deleteJob race_env h m m' = Inr ()" "getJob race_env h m m' = Inr [''Complete'']" "retry race_env = retry_n 2"
  by (simp_all add: race_env_def)

lemma race_fields:
  "ni_Identifier race_instance = Some shared_name" "getNasInstancePrivateIP race_instance = ''192.168.9.2''"
  "ni_Status race_instance = Some ''available''" "ni_AllocatedStorage race_instance = Some ''100''"
  "ni_NoRootSquash race_instance = Some ''true''"
  by (simp_all add: race_instance_def example_instance_def getNasInstancePrivateIP_def)

lemma race_jobs:
  "doNfsJob race_env (race_job cmd path) u = (Ret (), u\<lparr>trace := trace u @ job_calls (race_job cmd path)\<rparr>)"
  for u :: sys
proof -
  have "job_name (race_job cmd path) = shared_name" "job_namespace (race_job cmd path) = ''default''"
    by (simp_all add: race_job_def with_args_def nfsJob_def)
  then show ?thesis
    by (simp add: doNfsJob_def start_job_def CreateJobP_def DeleteJobP_def chkJobCompleted_def job_calls_def
        tryP_def bindP_def deferP_def run_api retP_def Let_def numeral_2_eq_2)
qed

lemma race_pv_in:
  "in_nas shared_name race_pv" "in_nas ''cluster-uid-1-shd001'' race_pv"
  by (simp_all add: race_pv_def in_nas_def shared_name_def HasPrefix_def)

section \<open>DeleteVolume, up to the deletion\<close>

definition deleting_thread :: "unit handler" where
  "deleting_thread = deferT (unset_on_error (on_deleting (UnsetQueue ''pvc-0'')))
     (atomT (\<lambda>E. delete_instance E shared_name))"

definition checked_state :: sys where
  "checked_state = (newControllerServer [])
     \<lparr>trace := DescribeNASInstances (Some shared_name) # job_calls (race_job [''rm'', ''-rf''] ''pvc-0'') @ [ListPVs],
      deletingPvsQueue := \<lparr>q_name = ''Deleting PVs queue'', resources = [''pvc-0'' \<mapsto> True], queueMutex = True\<rparr>\<rparr>"

lemma deleting_reached:
  "alone race_env (newControllerServer [], DeleteVolumeT (''jp-east-1/'' @ shared_name @ ''/pvc-0''))
    (checked_state, deleting_thread)"
proof -
  let ?s1 = "(newControllerServer [])\<lparr>trace := [DescribeNASInstances (Some shared_name)]\<rparr>"
  let ?q = "\<lparr>q_name = ''Deleting PVs queue'', resources = [''pvc-0'' \<mapsto> True], queueMutex = True\<rparr>"
  let ?s2 = "?s1\<lparr>deletingPvsQueue := ?q\<rparr>"
  let ?s3 = "?s2\<lparr>trace := DescribeNASInstances (Some shared_name) # job_calls (race_job [''rm'', ''-rf''] ''pvc-0'')\<rparr>"
  have tokens: "Split (''jp-east-1/'' @ shared_name @ ''/pvc-0'') (CHR ''/'') = [''jp-east-1'', shared_name, ''pvc-0'']"
    by (simp add: shared_name_def)
  have get: "exec race_env (tryT (atomT (\<lambda>E. GetNasInstanceFromVolumeID E (''jp-east-1/'' @ shared_name))))
      (newControllerServer []) = (Ret (Inr race_instance), ?s1)"
  proof -
    have "Split (''jp-east-1/'' @ shared_name) (CHR ''/'') = [''jp-east-1'', shared_name]"
      by (simp add: shared_name_def)
    then show ?thesis
      by (simp add: GetNasInstanceFromVolumeID_def GetNasInstance_def first_item_def tryP_def bindP_def run_api
          retP_def newControllerServer_def)
  qed
  have q: "exec race_env (statusT Internal ''deleting queue:'' (QueueT on_deleting ''pvc-0'')) ?s1 = (Ret (), ?s2)"
    by (simp add: exec_shared_steps exec_QueueT statusP_def wrapP_def zoom_run Queue_def queue_enter_def
        queue_acquire_def newOperateResourceQueue_def newControllerServer_def)
  have rm: "exec race_env (statusT Internal ''removing source path:''
      (atomT (\<lambda>E. removeSourcePath E (getNasInstancePrivateIP race_instance) shared_name ''pvc-0''))) ?s2 = (Ret (), ?s3)"
    by (simp add: exec_shared_steps statusP_def wrapP_def removeSourcePath_def race_fields
        race_jobs [where cmd = "[''rm'', ''-rf'']", unfolded race_job_def append.simps] race_job_def)
  have check: "exec race_env (statusT Internal ''checking other PVs on shared NAS:''
      (atomT (\<lambda>E. noOtherPvsInSharedNas E ''pvc-0'' shared_name))) ?s3 = (Ret True, checked_state)"
    by (simp add: exec_shared_steps statusP_def wrapP_def noOtherPvs_run race_pv_in checked_state_def)
      (simp add: race_pv_def)
  note nb = not_blocked_bind not_blocked_steps not_blocked_handlers
  have shared: "alone race_env (?s1, delete_sharedT race_instance ''pvc-0'')
      (checked_state, atomT (\<lambda>E. delete_instance E shared_name))"
    unfolding delete_sharedT_def race_fields derefT_def option.case statusT_ret
    by (rule alone_after [OF q], simp add: nb, rule alone_after [OF rm [unfolded race_fields]], simp add: nb,
        rule alone_after [OF check]) (simp_all add: nb alone_refl)
  show ?thesis
    unfolding DeleteVolumeT_def deleting_thread_def Let_def tokens
    by (simp add: numeral_2_eq_2 numeral_3_eq_3,
        rule alone_after [OF get [unfolded append.simps]],
        simp add: nb not_blocked_defer split: sum.split, simp, intro alone_defer shared)
      (simp add: nb)
qed

section \<open>CreateVolume on the same instance\<close>

lemma race_place:
  "choose_shared race_env example_config shared_request s =
    (Ret (shared_name, 107374182400),
     s\<lparr>trace := trace s @ [ListPVs, ListPVs, DescribeNASInstances (Some shared_name)]\<rparr>)" for s :: sys
proof -
  have e3: "show_03d (Suc 0) = ''001''"
    by (simp add: show_03d_def show_nat.simps eval_simps Let_def numeral_2_eq_2)
  have upt: "[Suc 0..<11] = Suc 0 # [2..<11]" by (simp add: upt_rec)
  have reserved: "getNasInstanceReservedCap race_env ''cluster-uid-1-shd001'' u =
      (Ret 10737418240, u\<lparr>trace := trace u @ [ListPVs]\<rparr>)" for u :: sys
    by (simp add: getNasInstanceReservedCap_def ListPVsP_def bindP_def wrapP_def run_api retP_def reserved_step_def
        race_pv_in) (simp add: race_pv_def i64_def)
  have handle: "Split (''jp-east-1/'' @ shared_name @ ''/pvc-0'') (CHR ''/'') = [''jp-east-1'', shared_name, ''pvc-0'']"
    "Contains (''jp-east-1/'' @ shared_name @ ''/pvc-0'') ''cluster-uid-1-shd001''"
    by (simp_all add: shared_name_def HasPrefix_def)
  have existing: "getSharedNameFromExistingPv race_env ''cluster-uid-1-shd001'' u =
      (Ret shared_name, u\<lparr>trace := trace u @ [ListPVs]\<rparr>)" for u :: sys
    using handle by (simp add: getSharedNameFromExistingPv_def ListPVsP_def wrapP_def bindP_def run_api retP_def
        race_pv_def Let_def)
  have total: "getNasInstanceCapacityBytes race_instance u = (Ret 107374182400, u)" for u :: sys
    by (simp add: getNasInstanceCapacityBytes_def race_fields derefP_def bindP_def retP_def ParseInt_100 GbToBytes_small)
  have "place_loop race_env ''cluster-uid-1-shd'' 0 '''' [1..<11] u =
      (Ret shared_name, u\<lparr>trace := trace u @ [ListPVs, ListPVs, DescribeNASInstances (Some shared_name)]\<rparr>)" for u :: sys
    by (simp add: upt e3 Let_def errorf_pre_def wrapP_def bindP_def reserved existing run_api retP_def
        GetNasInstance_def first_item_def total i64_def)
  then show ?thesis
    by (simp add: choose_shared_def shared_request_def example_request_def param_def pstr_def
        getRequestCapacityNoMinimum_def getRequestCapacity_def ParseInt_100 GbToBytes_small
        getClusterUID_def example_config_def errorf_pre_def wrapP_def bindP_def retP_def Let_def)
qed

lemma race_finish:
  "finish_volume race_env J example_config shared_request name '''' '''' race_instance s =
    (Ret race_volume, s\<lparr>trace := trace s @ job_calls (race_job [''mkdir''] ''pvc-1'')\<rparr>)" for s :: sys
proof -
  have mk: "makeSourcePath race_env ''192.168.9.2'' shared_name ''pvc-1'' '''' u =
      (Ret (), u\<lparr>trace := trace u @ job_calls (race_job [''mkdir''] ''pvc-1'')\<rparr>)" for u :: sys
    using race_jobs [of "[''mkdir'']"] by (simp add: makeSourcePath_def race_job_def Let_def)
  show ?thesis
    by (simp add: finish_volume_def ready_instance_def prepare_path_def mk statusP_def wrapP_def
        nasInstanceToCSIVolume_def GenerateVolumeIDFromNasInstance_def race_fields race_volume_def
        shared_request_def example_request_def example_config_def param_def pstr_def
        getRequestCapacityNoMinimum_def getRequestCapacity_def shared_volume_def
        bindP_def derefP_def retP_def Let_def)
qed

definition creation_calls :: history where
  "creation_calls = [ListPVs, ListPVs, DescribeNASInstances (Some shared_name), ListPVCs,
     DescribeNASInstances (Some shared_name)] @ job_calls (race_job [''mkdir''] ''pvc-1'')"

definition placed_state :: sys where
  "placed_state = checked_state\<lparr>trace := trace checked_state @ creation_calls,
     creatingPvsQueue := \<lparr>q_name = ''Creating PVs queue'', resources = [''pvc-1'' \<mapsto> True], queueMutex = True\<rparr>\<rparr>"

lemma race_named:
  "create_named race_env J example_config shared_request shared_name 107374182400 u =
    (Ret race_volume, u\<lparr>trace := trace u @ [ListPVCs, DescribeNASInstances (Some shared_name)] @
       job_calls (race_job [''mkdir''] ''pvc-1'')\<rparr>)"
proof -
  let ?i = "example_input\<lparr>in_SecurityGroups := [], in_Identifier := Some shared_name\<rparr>"
  have ann: "getAnnotationsFromPVC race_env example_config (req_Name shared_request) u =
      (Ret ('''', ''''), u\<lparr>trace := trace u @ [ListPVCs]\<rparr>)" for u :: sys
    by (simp add: shared_facts one_claim_annotations)
  have cmp: "compareNasInstanceWithInput p race_instance (finalize_input ''cluster-uid-1'' ?i) u = (Ret (), u)"
    for u :: sys and p
    by (simp add: compareNasInstanceWithInput_def finalize_input_def race_instance_def example_instance_def
        example_input_def pstr_def ParseInt_100 bindP_def derefP_def retP_def Let_def)
  show ?thesis
    by (simp add: create_named_def shared_generated statusP_def wrapP_def liftP_def bindP_def example_group shared_facts(4) ann Let_def
        with_instance_def GetNasInstance_def first_item_def tryP_def run_api retP_def cmp race_finish)
qed

lemma race_create:
  "CreateVolume race_env J example_driver shared_request checked_state = (Ret race_volume, placed_state)"
  by (simp add: CreateVolume_def shared_facts example_request_facts(2) statusP_def wrapP_def liftP_def bindP_def deferP_def
      convertSharedRequest_def errorf_pre_def zoom_run Queue_def queue_enter_def queue_acquire_def
      race_place SetCreating_def UnsetCreating_def race_named on_error_def creation_calls_def retP_def
      checked_state_def placed_state_def newOperateResourceQueue_def
      newControllerServer_def newInstanceNameHolder_def)

section \<open>The overlap\<close>

text \<open>
  C10. DeleteVolume can delete the instance on which CreateVolume has just placed a volume. From a
  new controller and with services that answer the same all the time, the deletion of the last
  volume of a shared instance is interrupted between its check that the instance has no other
  volume and the call that deletes the instance. A request for a new shared volume runs in between
  from its beginning to its end: it is placed on that instance and reported as created. Then the
  instance is deleted. Both requests succeed, and the new volume lies on a deleted instance.
\<close>

theorem create_delete_race:
  "(pstep (\<lambda>E. E = race_env) (arrival no_codec example_driver))\<^sup>*\<^sup>* (newControllerServer [], Map.empty)
     (placed_state\<lparr>trace := trace placed_state @ [DeleteNASInstance shared_name]\<rparr>,
      [0 \<mapsto> Halt (Ret None), Suc 0 \<mapsto> Halt (Ret (Some race_volume))]) \<and>
   Split (vol_VolumeId race_volume) (CHR ''/'') = [''jp-east-1'', shared_name, ''pvc-1'']"
proof
  let ?init = "(newControllerServer [], Map.empty :: nat \<rightharpoonup> Volume option handler)"
  let ?final = "placed_state\<lparr>trace := trace placed_state @ [DeleteNASInstance shared_name]\<rparr>"
  let ?deleting = "bindT deleting_thread (\<lambda>_. retT None) :: Volume option handler"
  note run_one = arrive_alone [where good = "\<lambda>E. E = race_env" and start = "arrival no_codec example_driver"]
  have "alone race_env (newControllerServer [],
      bindT (DeleteVolumeT (''jp-east-1/'' @ shared_name @ ''/pvc-0'')) (\<lambda>_. retT None)) (checked_state, ?deleting)"
    by (rule alone_bind [OF deleting_reached]) (simp add: not_blocked_steps)
  from run_one [OF rtranclp.rtrancl_refl _ arrival.delete refl this, of Map.empty 0]
  have one: "(pstep (\<lambda>E. E = race_env) (arrival no_codec example_driver))\<^sup>*\<^sup>* ?init (checked_state, [0 \<mapsto> ?deleting])"
    by simp
  have "exec race_env (reply (CreateVolumeT no_codec example_driver shared_request)) checked_state =
      (Ret (Some race_volume), placed_state)"
    by (simp add: exec_CreateVolumeT race_create bindP_def retP_def)
  then have "alone race_env (checked_state, reply (CreateVolumeT no_codec example_driver shared_request))
      (placed_state, Halt (Ret (Some race_volume)))"
    by (rule alone_exec) simp
  from run_one [OF one _ arrival.create refl this, of "Suc 0"]
  have two: "(pstep (\<lambda>E. E = race_env) (arrival no_codec example_driver))\<^sup>*\<^sup>* ?init
      (placed_state, [0 \<mapsto> ?deleting, Suc 0 \<mapsto> Halt (Ret (Some race_volume))])"
    by simp
  have "exec race_env ?deleting placed_state = (Ret None, ?final)"
    by (simp add: deleting_thread_def exec_shared_steps deferP_def bindP_def delete_instance_def statusP_def
        wrapP_def DeleteNasInstance_def run_api on_error_def retP_def)
  then have "alone race_env (placed_state, ?deleting) (?final, Halt (Ret None))"
    by (rule alone_exec) simp
  from alone_pool [where good = "\<lambda>E. E = race_env" and start = "arrival no_codec example_driver", OF refl this,
      of "[0 \<mapsto> ?deleting, Suc 0 \<mapsto> Halt (Ret (Some race_volume))]" 0]
  have "(pstep (\<lambda>E. E = race_env) (arrival no_codec example_driver))\<^sup>*\<^sup>*
      (placed_state, [0 \<mapsto> ?deleting, Suc 0 \<mapsto> Halt (Ret (Some race_volume))])
      (?final, [0 \<mapsto> Halt (Ret None), Suc 0 \<mapsto> Halt (Ret (Some race_volume))])"
    by (simp add: fun_upd_twist [of 0 "Suc 0"])
  with two show "(pstep (\<lambda>E. E = race_env) (arrival no_codec example_driver))\<^sup>*\<^sup>* ?init
      (?final, [0 \<mapsto> Halt (Ret None), Suc 0 \<mapsto> Halt (Ret (Some race_volume))])"
    by (rule rtranclp_trans)
  show "Split (vol_VolumeId race_volume) (CHR ''/'') = [''jp-east-1'', shared_name, ''pvc-1'']"
    by (simp add: race_volume_def shared_name_def)
qed

end
