(* ===== verification/Duplicates.thy ===== *)
theory Duplicates
  imports Concurrency
begin

text \<open>
  A duplicate request and the queue of creations, with the handlers of the controller server: the
  request that is refused takes the turn from the one that has it, for any requests and whatever
  the services answer.
\<close>

section \<open>Requests for shared volumes\<close>

definition shared_creation :: "driver \<Rightarrow> CreateVolumeRequest \<Rightarrow> bool" where
  "shared_creation drv req \<longleftrightarrow> req_Name req \<noteq> '''' \<and> validateVolumeCapabilities drv (req_Caps req) = Inr () \<and>
     param (req_Params req) ''shared'' = ''true''"

text \<open>The handler of such a request once \<open>Queue\<close> has returned: it is about to choose an instance.\<close>

definition placing_thread :: "codec \<Rightarrow> driver \<Rightarrow> CreateVolumeRequest \<Rightarrow> Volume handler" where
  "placing_thread J drv req =
     deferT (unset_on_error (on_creating (UnsetQueue (req_Name req))))
       (bindT (statusT InvalidArgument '''' (atomT (\<lambda>E. choose_shared E (drv_config drv) req)))
          (\<lambda>(name, capBytes).
        bindT (statusT Internal '''' (atomT (\<lambda>_. on_names (SetCreating name)))) (\<lambda>_.
        deferT (\<lambda>_. atomT (\<lambda>_. on_names (UnsetCreating name)))
          (create_namedT J (drv_config drv) req name capBytes))))"

definition has_turn :: "string \<Rightarrow> sys \<Rightarrow> sys" where
  "has_turn name s = s\<lparr>creatingPvsQueue := (creatingPvsQueue s)
     \<lparr>resources := (resources (creatingPvsQueue s))(name \<mapsto> True), queueMutex := True\<rparr>\<rparr>"

lemma Queue_turn:
  "resources q name = None \<Longrightarrow> \<not> queueMutex q \<Longrightarrow>
   Queue name q = (Ret (), q\<lparr>resources := (resources q)(name \<mapsto> True), queueMutex := True\<rparr>)"
  by (cases q) (simp add: Queue_def queue_enter_def queue_acquire_def)

lemma placing_reached:
  assumes "shared_creation drv req" and "resources (creatingPvsQueue s) (req_Name req) = None"
    and "\<not> queueMutex (creatingPvsQueue s)"
  shows "alone E (s, CreateVolumeT J drv req) (has_turn (req_Name req) s, placing_thread J drv req)"
proof -
  let ?t = "has_turn (req_Name req) s"
  have queue: "exec E (wrapT (\<lambda>e. Errorf (''Error creating queue: '' @ errText e)) (QueueT on_creating (req_Name req))) s =
      (Ret (), ?t)"
    using assms(2,3) by (simp add: exec_QueueT wrapP_def zoom_run Queue_turn has_turn_def)
  have "alone E (s, convertSharedRequestT drv (req_Name req) req)
      (?t, atomT (\<lambda>E. choose_shared E (drv_config drv) req))"
    using assms(1) alone_prefix [OF queue, of "\<lambda>_. atomT (\<lambda>E. choose_shared E (drv_config drv) req)"]
    by (simp add: convertSharedRequestT_def shared_creation_def not_blocked_steps)
  then have conv: "alone E (s, statusT InvalidArgument '''' (convertSharedRequestT drv (req_Name req) req))
      (?t, statusT InvalidArgument '''' (atomT (\<lambda>E. choose_shared E (drv_config drv) req)))"
    unfolding statusT_def wrapT_def by (rule alone_map) (auto split: outcome.split)
  show ?thesis
    using assms(1) unfolding CreateVolumeT_def placing_thread_def shared_creation_def
    by (simp add: liftT_def statusT_ret)
      (intro alone_defer alone_bind conv;
       simp add: not_blocked_bind not_blocked_defer not_blocked_steps not_blocked_handlers split: prod.split)
qed

lemma duplicate_refused:
  assumes "shared_creation drv req" and "resources (creatingPvsQueue s) (req_Name req) = Some True"
    and "queueMutex (creatingPvsQueue s)"
  shows "\<exists>m. exec E (CreateVolumeT J drv req) s = (Fail (StatusErr InvalidArgument m),
    s\<lparr>creatingPvsQueue := (creatingPvsQueue s)\<lparr>resources := (resources (creatingPvsQueue s))(req_Name req := None),
       queueMutex := False\<rparr>\<rparr>)"
  using assms
  by (simp add: exec_CreateVolumeT CreateVolume_def shared_creation_def statusP_def wrapP_def liftP_def bindP_def
      deferP_def convertSharedRequest_def errorf_pre_def zoom_run Queue_def queue_enter_def on_error_def
      UnsetQueue_def Let_def)

section \<open>Two at a time\<close>

text \<open>
  C36. A duplicate request ends the exclusion of the queue: for any two valid requests for
  shared volumes there is a run in which the first is sent twice while it has its turn, and then both
  handlers are past \<open>Queue\<close> at the same time, each about to choose an instance with room for its
  volume.
\<close>

theorem duplicate_breaks_turn:
  assumes "shared_creation drv req" and "shared_creation drv other"
  shows "\<exists>s ts. (controller_step J drv)\<^sup>*\<^sup>* (newControllerServer h, Map.empty) (s, ts) \<and>
    ts 0 = Some (reply (placing_thread J drv req)) \<and> ts 2 = Some (reply (placing_thread J drv other))"
proof -
  let ?E = "quiet_env :: cenv"
  let ?r = "reply (placing_thread J drv req)"
  let ?n = "newControllerServer h"
  let ?first = "has_turn (req_Name req) ?n"
  let ?empty = "?first\<lparr>creatingPvsQueue := (creatingPvsQueue ?first)\<lparr>resources := Map.empty, queueMutex := False\<rparr>\<rparr>"
  have good: "retry_contract ?E" by (rule retry_contract_quiet) simp
  have reply: "alone ?E (s, reply m) (t, reply m')" if "alone ?E (s, m) (t, m')" for s t m m'
    by (rule alone_bind [OF that]) (simp add: not_blocked_steps)
  note run_one = arrive_alone [where good = retry_contract and start = "arrival J drv"]
  have "alone ?E (?n, CreateVolumeT J drv req) (?first, placing_thread J drv req)"
    by (rule placing_reached [OF assms(1)]) (simp_all add: newControllerServer_def newOperateResourceQueue_def)
  from run_one [OF rtranclp.rtrancl_refl _ arrival.create good reply [OF this], of Map.empty 0]
  have one: "(controller_step J drv)\<^sup>*\<^sup>* (?n, Map.empty) (?first, [0 \<mapsto> ?r])" by simp
  obtain m where m: "exec ?E (CreateVolumeT J drv req) ?first = (Fail (StatusErr InvalidArgument m), ?empty)"
    using duplicate_refused [OF assms(1), of ?first ?E J]
    by (auto simp: has_turn_def newControllerServer_def newOperateResourceQueue_def)
  let ?refused = "Halt (Fail (StatusErr InvalidArgument m)) :: Volume option handler"
  have "alone ?E (?first, reply (CreateVolumeT J drv req)) (?empty, ?refused)"
    using reply [OF alone_exec [OF m]] by simp
  from run_one [OF one _ arrival.create good this, of 1]
  have two: "(controller_step J drv)\<^sup>*\<^sup>* (?n, Map.empty) (?empty, [0 \<mapsto> ?r, 1 \<mapsto> ?refused])" by simp
  have "alone ?E (?empty, CreateVolumeT J drv other) (has_turn (req_Name other) ?empty, placing_thread J drv other)"
    by (rule placing_reached [OF assms(2)]) simp_all
  from run_one [OF two _ arrival.create good reply [OF this], of 2]
  have "(controller_step J drv)\<^sup>*\<^sup>* (?n, Map.empty) (has_turn (req_Name other) ?empty,
      [0 \<mapsto> ?r, 1 \<mapsto> ?refused, 2 \<mapsto> reply (placing_thread J drv other)])" by simp
  then show ?thesis by - (rule exI, rule exI, rule conjI, assumption, simp)
qed

theorem duplicate_breaks_turn_witness:
  "\<exists>s ts. (controller_step no_codec example_driver)\<^sup>*\<^sup>* (newControllerServer [], Map.empty) (s, ts) \<and>
    ts 0 = Some (reply (placing_thread no_codec example_driver shared_request)) \<and>
    ts 2 = Some (reply (placing_thread no_codec example_driver (shared_request\<lparr>req_Name := ''pvc-2''\<rparr>)))"
  by (rule duplicate_breaks_turn)
    (use shared_facts in \<open>simp_all add: shared_creation_def\<close>)

end
