(* ===== verification/PoolCalls.thy ===== *)
theory PoolCalls
  imports Concurrency
begin

text \<open>
  What the controller asks of the services, whichever requests run at the same time: the calls it
  may make at all, and the form of the input with which it creates an instance.
\<close>

section \<open>The calls of the controller\<close>

text \<open>
  The form of an input: one security group, NFS, a name, 1 to 9 units of storage, and an address
  exactly when the instance is in a private network.
\<close>

definition well_formed_input :: "CreateNASInstanceInput \<Rightarrow> bool" where
  "well_formed_input i \<longleftrightarrow>
     length (in_SecurityGroups i) = 1 \<and> in_Protocol i = Some ''nfs'' \<and> in_Identifier i \<noteq> None \<and>
     in_AvailabilityZone i \<noteq> None \<and> in_Description i \<noteq> None \<and>
     (case (in_AllocatedStorage i, in_Type i) of
        (Some n, Some ty) \<Rightarrow> (\<exists>k \<in> {1..9}. n = int k * storage_unit ty) | _ \<Rightarrow> False) \<and>
     in_NetworkId i \<noteq> Some ''net-COMMON_PRIVATE'' \<and>
     (in_NetworkId i \<noteq> None \<longleftrightarrow> in_MasterPrivateAddress i \<noteq> None) \<and>
     (\<forall>p. in_MasterPrivateAddress i = Some p \<longrightarrow> (\<exists>a. p = ip_String a @ ''/24''))"

fun controller_call :: "call \<Rightarrow> bool" where
  "controller_call (CreateNASInstance i) = well_formed_input i"
| "controller_call (DeleteNASInstance n) = True"
| "controller_call (ModifyNASInstance n squash groups) = (squash = Some ''true'' \<and> groups = [])"
| "controller_call c = snapshot_call c"

lemma controller_call_intros:
  "snapshot_call c \<Longrightarrow> controller_call c" "reading c \<Longrightarrow> controller_call c" "finish_call c \<Longrightarrow> controller_call c"
  "job_call c \<Longrightarrow> controller_call c"
proof -
  show s: "controller_call c" if "snapshot_call c" for c
    using that by (cases c) (simp_all add: snapshot_call_def)
  show "reading c \<Longrightarrow> controller_call c" "job_call c \<Longrightarrow> controller_call c"
    using s job_snapshot_call by (auto simp: snapshot_call_def)
  show "finish_call c \<Longrightarrow> controller_call c"
    using s by (auto simp: finish_call_def)
qed

abbreviation orderly :: "'a handler \<Rightarrow> bool" where
  "orderly m \<equiv> call.within controller_call retry_contract m (\<lambda>_. True)"

section \<open>The input of a creation\<close>

lemma generated_input:
  assumes "GenerateNasInstanceInput name cap ps = Inr i"
  shows "in_NetworkId (finalize_input sg i) = None \<Longrightarrow> well_formed_input (finalize_input sg i)"
    and "in_NetworkId (finalize_input sg i) \<noteq> None \<Longrightarrow>
      well_formed_input (finalize_input sg i\<lparr>in_MasterPrivateAddress := Some (ip_String a @ ''/24'')\<rparr>)"
proof -
  have units: "\<exists>k \<in> {1..9}. getAllocatedStorage cap ty = int k * storage_unit ty" for ty
    using allocated_units [of cap ty] by auto
  show "in_NetworkId (finalize_input sg i) = None \<Longrightarrow> well_formed_input (finalize_input sg i)"
    using assms units by (auto simp: GenerateNasInstanceInput_def finalize_input_def well_formed_input_def
        split: sum.splits if_splits)
  show "in_NetworkId (finalize_input sg i) \<noteq> None \<Longrightarrow>
      well_formed_input (finalize_input sg i\<lparr>in_MasterPrivateAddress := Some (ip_String a @ ''/24'')\<rparr>)"
    using assms units by (auto simp: GenerateNasInstanceInput_def finalize_input_def well_formed_input_def pstr_def
        split: sum.splits if_splits)
qed

lemma GetUnreservedIP_text: "GetUnreservedIP cidr cloud a = (Ret r, b) \<Longrightarrow> \<exists>t. r = ip_String t"
  by (auto simp: GetUnreservedIP_def Let_def split: sum.splits prod.splits outcome.splits option.splits)

section \<open>The handlers make only these calls\<close>

lemma orderly_outside:
  fixes m :: "cenv \<Rightarrow> (sys, 'a) prog"
  assumes "\<And>E. retry_contract E \<Longrightarrow> keeps (extends controller_call) (m E)"
  shows "orderly (atomT m)"
  by (rule call.steady_atom) (rule keeps_extends_calls [OF assms])

lemma orderly_holders:
  "orderly (atomT (\<lambda>_. on_ips m))" "orderly (atomT (\<lambda>_. on_names n))"
  "orderly (atomT (\<lambda>_. on_creating k))" "orderly (atomT (\<lambda>_. on_deleting k))"
  by (rule call.steady_atom, rule keeps_calls_on)+

lemma orderly_steps:
  "orderly (unset_on_error (on_creating k) r)" "orderly (unset_on_error (on_deleting k) r)"
  "orderly (QueueT on_creating n)" "orderly (QueueT on_deleting n)" "orderly (derefT p)"
  by (auto simp: unset_on_error_def QueueT_def derefT_def intro!: call.steady_bind call.steady_rest orderly_holders
      split: outcome.split option.split)

lemma orderly_status: "orderly m \<Longrightarrow> orderly (statusT c pre m)"
  by (simp add: statusT_def call.steady_rest)

lemma orderly_bind_lift:
  "(\<And>a. r = Inr a \<Longrightarrow> orderly (f a)) \<Longrightarrow> orderly (bindT (statusT c pre (liftT r)) f)"
  by (cases r) (simp_all add: statusT_def wrapT_def liftT_def retT_def failT_def)

lemmas orderly_intros = call.steady_bind call.steady_rest call.steady_defer orderly_outside orderly_holders
  orderly_steps orderly_status

lemma orderly_convert: "orderly (convertSharedRequestT drv name req)"
  by (auto simp: convertSharedRequestT_def intro!: orderly_intros keeps_choose_shared controller_call_intros(2))

lemma orderly_finish: "orderly (finish_volumeT J cfg req name sid perm n)"
  by (auto simp: finish_volumeT_def intro!: orderly_intros keeps_ready_instance keeps_prepare_path
      keeps_nasInstanceToCSIVolume keeps_restoreSnapshot intro: controller_call_intros)

lemma orderly_create_instance:
  assumes "well_formed_input i" and "\<And>n. orderly (rest n)"
  shows "orderly (create_instanceT i rest)"
  using assms by (auto simp: create_instanceT_def intro!: orderly_intros keeps_cloud)

lemma reserved_text:
  "call.within controller_call retry_contract (reserveIPT cidr) (\<lambda>r. \<forall>a. r = Ret a \<longrightarrow> (\<exists>t. a = ip_String t))"
  unfolding reserveIPT_def
proof (rule call.within_bind)
  show "orderly (atomT getCloudInstancesReservedIPs)"
    by (rule orderly_outside) (rule keeps_reserved_ips, rule controller_call_intros(2))
  show "call.within controller_call retry_contract (atomT (\<lambda>_. on_ips (GetUnreservedIP cidr ips)))
      (\<lambda>r. \<forall>a. r = Ret a \<longrightarrow> (\<exists>t. a = ip_String t))" for ips
    by (rule call.within_atom, rule keeps_calls_on) (auto simp: zoom_run dest: GetUnreservedIP_text split: prod.splits)
qed simp_all

lemma orderly_new_instance:
  assumes "in_NetworkId i = None \<Longrightarrow> well_formed_input i"
    and "\<And>t. in_NetworkId i \<noteq> None \<Longrightarrow>
      well_formed_input (i\<lparr>in_MasterPrivateAddress := Some (ip_String t @ ''/24'')\<rparr>)"
    and "\<And>n. orderly (rest n)"
  shows "orderly (new_instanceT req i annotated rest)"
proof -
  let ?body = "\<lambda>r. case r of
      Inl e \<Rightarrow> deferT (\<lambda>_. atomT (\<lambda>_. on_ips (ReleaseIP ''''))) (failT e)
    | Inr a \<Rightarrow> deferT (\<lambda>_. atomT (\<lambda>_. on_ips (ReleaseIP a)))
        (create_instanceT (i\<lparr>in_MasterPrivateAddress := Some (a @ ''/24'')\<rparr>) rest)"
  have "orderly (bindT (tryT (reserveIPT cidr)) ?body)" if net: "in_NetworkId i \<noteq> None" for cidr
    unfolding tryT_def
  proof (rule call.within_bind)
    show "call.within controller_call retry_contract (mapT caught (reserveIPT cidr))
        (\<lambda>r. \<forall>a. r = Ret (Inr a) \<longrightarrow> (\<exists>t. a = ip_String t))"
      by (rule call.within_map, rule call.within_mono [OF reserved_text]) (auto elim!: caught.elims)
    show "orderly (?body r)" if "\<forall>a. Ret r = Ret (Inr a) \<longrightarrow> (\<exists>t. a = ip_String t)" for r
      using that assms(2) [OF net] assms(3)
      by (auto intro!: orderly_intros orderly_create_instance split: sum.split)
  qed simp_all
  then show ?thesis
    using assms(1,3) by (auto simp: new_instanceT_def Let_def intro!: orderly_create_instance call.steady_rest)
qed

lemma orderly_create_named: "orderly (create_namedT J cfg req name cap)"
  unfolding create_namedT_def Let_def
proof (rule orderly_bind_lift, intro call.steady_bind)
  show "orderly (statusT InvalidArgument '''' (atomT (\<lambda>E. getSecurityGroupName E cfg)))"
    by (intro orderly_status orderly_outside keeps_shared(6)) (rule controller_call_intros(2))
  show "orderly (atomT (\<lambda>_. source_snapshot req))"
    by (intro orderly_outside keeps_source_snapshot)
  show "orderly (statusT InvalidArgument '''' (atomT (\<lambda>E. getAnnotationsFromPVC E cfg (req_Name req))))"
    by (intro orderly_status orderly_outside keeps_getAnnotationsFromPVC) (rule controller_call_intros(2))
  fix i sg sid a
  assume i: "GenerateNasInstanceInput name cap (req_Params req) = Inr i"
  have "orderly (with_instanceT req (finalize_input sg i) name annotated (finish_volumeT J cfg req name sid perm))"
    for annotated perm
    using orderly_new_instance [OF generated_input [OF i] orderly_finish] orderly_finish
    by (auto simp: with_instanceT_def intro!: orderly_intros keeps_cloud keeps_compare controller_call_intros(2)
        split: sum.split)
  then show "orderly (case a of (annotated, permission) \<Rightarrow>
      with_instanceT req (finalize_input sg i) name annotated (finish_volumeT J cfg req name sid permission))"
    by (simp split: prod.split)
qed

lemma orderly_CreateVolume: "orderly (CreateVolumeT J drv req)"
  unfolding CreateVolumeT_def
  by (auto intro!: orderly_intros orderly_bind_lift orderly_convert orderly_create_named split: prod.split)

lemma orderly_DeleteVolume: "orderly (DeleteVolumeT vid)"
proof -
  have "orderly (delete_sharedT nas path)" for nas path
    unfolding delete_sharedT_def delete_instance_def
    by (auto intro!: orderly_intros keeps_source_path keeps_shared keeps_statusP keeps_cloud
        intro: controller_call_intros)
  then show ?thesis
    unfolding DeleteVolumeT_def Let_def delete_instance_def
    by (auto intro!: orderly_intros keeps_statusP keeps_cloud intro: controller_call_intros(2) split: sum.split)
qed

lemma arrival_orderly:
  assumes "arrival J drv r"
  shows "orderly r"
  using assms
proof cases
  case (pv_added key)
  have "orderly (atomT (\<lambda>_. pvAdded key))"
    by (cases key) (auto simp: pvAdded_def intro: orderly_holders orderly_outside ext.keeps_ret)
  then show ?thesis by (simp add: pv_added call.steady_bind call.steady_rest)
next
  case (pv_deleted key)
  have "orderly (atomT (\<lambda>_. pvDeleted key))"
    by (cases key) (auto simp: pvDeleted_def intro: orderly_holders orderly_outside ext.keeps_ret)
  then show ?thesis by (simp add: pv_deleted call.steady_bind call.steady_rest)
qed (simp_all add: call.steady_bind call.steady_rest orderly_CreateVolume orderly_DeleteVolume)

section \<open>The calls of the pool\<close>

text \<open>
  C7. Whatever requests and events run at the same time, the controller reads, runs jobs (with
  their secrets), deletes instances and sets NoRootSquash, and every instance that it creates has
  a well-formed input: a name, one security group, NFS, 1 to 9 units of storage of its type, and
  a private address with its length 24 exactly when it is in a private network. It never touches
  a security group or the security groups of an instance.
\<close>

theorem controller_calls_typed:
  assumes "(controller_step J drv)\<^sup>*\<^sup>* (newControllerServer h, Map.empty) (s, ts)"
  shows "\<exists>k. trace s = h @ k \<and> list_all controller_call k"
  using call.pool_steady [OF assms] arrival_orderly
  by (auto simp: calls_def newControllerServer_def)

theorem controller_calls_typed_witness:
  "well_formed_input (plain_input ''pvc-1'')"
proof -
  obtain u where u: "(controller_step no_codec example_driver)\<^sup>*\<^sup>* (newControllerServer [], Map.empty)
    (u, [0 \<mapsto> reply (creating_thread no_codec ''pvc-1''), Suc 0 \<mapsto> reply (creating_thread no_codec ''pvc-2'')])"
    by (rule two_creating)
  let ?t = "u\<lparr>trace := trace u @ [CreateNASInstance (plain_input ''pvc-1'')]\<rparr>"
  let ?ts = "[0 \<mapsto> reply (creating_thread no_codec ''pvc-1''), Suc 0 \<mapsto> reply (creating_thread no_codec ''pvc-2'')]"
  obtain r where "next_step two_claims_env u (reply (creating_thread no_codec ''pvc-1'')) = Some (?t, r)"
    by (rule next_creation)
  then have "controller_step no_codec example_driver (u, ?ts) (?t, ?ts(0 \<mapsto> r))"
    using two_claims_retry by (intro pstep.advance [where E = two_claims_env]) simp_all
  with u have "(controller_step no_codec example_driver)\<^sup>*\<^sup>* (newControllerServer [], Map.empty) (?t, ?ts(0 \<mapsto> r))"
    by (rule rtranclp.rtrancl_into_rtrancl)
  from controller_calls_typed [OF this] show ?thesis by auto
qed

end
