(* ===== verification/PoolQueues.thy ===== *)
theory PoolQueues
  imports PoolCalls
begin

text \<open>
  The queues of the controller server under all its handlers. The locale \<open>queue_steps\<close> is the
  contract of a relation between states that everything a handler does keeps, but perhaps what it
  does to the queue of creating volumes under some names; every handler of another name keeps it
  then. It is interpreted by the invariant of the queues and by the turn of one volume.
\<close>

section \<open>Relations on the queues\<close>

locale queue_steps = step_contract R
  for R :: "sys \<Rightarrow> sys \<Rightarrow> bool" +
  fixes allowed :: "string \<Rightarrow> bool"
  assumes outside: "extends (\<lambda>_. True) s t \<Longrightarrow> R s t"
    and holders: "R s (s\<lparr>ipAllocator := i\<rparr>)" "R s (s\<lparr>nasNameHolder := n\<rparr>)"
    and creating: "allowed name \<Longrightarrow> keeps R (on_creating (Queue_enter name))"
      "allowed name \<Longrightarrow> keeps R (on_creating (Queue_acquire name))"
      "allowed name \<Longrightarrow> keeps R (on_creating (UnsetQueue name))"
    and deleting: "keeps R (on_deleting (Queue_enter name))" "keeps R (on_deleting (Queue_acquire name))"
      "keeps R (on_deleting (UnsetQueue name))"
begin

abbreviation orderly_queue :: "'a handler \<Rightarrow> bool" where
  "orderly_queue m \<equiv> steady retry_contract m"

lemma steady_outside:
  fixes m :: "cenv \<Rightarrow> (sys, 'a) prog"
  assumes "\<And>E. retry_contract E \<Longrightarrow> keeps (extends (\<lambda>_. True)) (m E)"
  shows "orderly_queue (atomT m)"
  using assms outside by (intro steady_atom) (simp add: keeps_def)

lemma steady_holders:
  "orderly_queue (atomT (\<lambda>_. on_ips m))" "orderly_queue (atomT (\<lambda>_. on_names k))"
  using holders by (auto intro!: steady_atom simp: keeps_def zoom_run split: prod.split)

lemma steady_queue:
  "allowed name \<Longrightarrow> orderly_queue (QueueT on_creating name)" "orderly_queue (QueueT on_deleting name)"
  "allowed name \<Longrightarrow> orderly_queue (unset_on_error (on_creating (UnsetQueue name)) r)"
  "orderly_queue (unset_on_error (on_deleting (UnsetQueue name)) r)"
  using creating deleting
  by (auto simp: QueueT_def unset_on_error_def intro!: steady_rules split: outcome.split)

lemma steady_status: "orderly_queue m \<Longrightarrow> orderly_queue (statusT c pre m)"
  by (simp add: statusT_def steady_rest)

lemma steady_bind_lift:
  "(\<And>a. orderly_queue (f a)) \<Longrightarrow> orderly_queue (bindT (statusT c pre (liftT r)) f)"
  by (cases r) (simp_all add: statusT_def wrapT_def liftT_def retT_def failT_def)

lemma steady_deref: "orderly_queue (derefT p)"
  by (simp add: derefT_def retT_def split: option.split)

lemmas steady_intros = steady_bind steady_rest steady_defer steady_outside steady_holders steady_queue
  steady_status steady_deref steady_bind_lift

lemma steady_finish: "orderly_queue (finish_volumeT J cfg req name sid perm n)"
  by (auto simp: finish_volumeT_def intro!: steady_intros keeps_ready_instance keeps_prepare_path
      keeps_nasInstanceToCSIVolume keeps_restoreSnapshot)

lemma steady_instance:
  assumes "\<And>n. orderly_queue (rest n)"
  shows "orderly_queue (with_instanceT req i name annotated rest)"
  using assms
  by (auto simp: with_instanceT_def new_instanceT_def create_instanceT_def reserveIPT_def Let_def
      intro!: steady_intros keeps_cloud keeps_compare keeps_reserved_ips split: sum.split)

lemma steady_create_named: "orderly_queue (create_namedT J cfg req name cap)"
  unfolding create_namedT_def Let_def
  by (auto intro!: steady_intros steady_instance steady_finish keeps_shared keeps_source_snapshot
      keeps_getAnnotationsFromPVC split: prod.split)

lemma steady_CreateVolume:
  assumes "allowed (req_Name req)"
  shows "orderly_queue (CreateVolumeT J drv req)"
  using assms
  by (auto simp: CreateVolumeT_def convertSharedRequestT_def intro!: steady_intros steady_create_named
      keeps_choose_shared split: prod.split)

lemma steady_DeleteVolume: "orderly_queue (DeleteVolumeT vid)"
  by (auto simp: DeleteVolumeT_def delete_sharedT_def delete_instance_def Let_def
      intro!: steady_intros keeps_source_path keeps_shared keeps_statusP keeps_cloud split: sum.split)

lemma steady_events:
  "(\<forall>k. key = Inr k \<longrightarrow> allowed k) \<Longrightarrow> orderly_queue (atomT (\<lambda>_. pvAdded key))"
  "orderly_queue (atomT (\<lambda>_. pvDeleted key))"
  using creating deleting
  by (auto simp: pvAdded_def pvDeleted_def intro!: steady_atom keeps_ret split: sum.split)

end

section \<open>The invariant of the queues\<close>

definition queues_kept :: "sys \<Rightarrow> sys \<Rightarrow> bool" where
  "queues_kept s t \<longleftrightarrow> (queue_inv (creatingPvsQueue s) \<longrightarrow> queue_inv (creatingPvsQueue t)) \<and>
     (queue_inv (deletingPvsQueue s) \<longrightarrow> queue_inv (deletingPvsQueue t))"

text \<open>The entry of one volume stays the operating one.\<close>

definition turn_kept :: "string \<Rightarrow> sys \<Rightarrow> sys \<Rightarrow> bool" where
  "turn_kept n s t \<longleftrightarrow>
     (resources (creatingPvsQueue s) n = Some True \<longrightarrow> resources (creatingPvsQueue t) n = Some True)"

lemma queue_operations_inv:
  "Queue_enter n q = (r, q') \<Longrightarrow> queue_inv q \<Longrightarrow> queue_inv q'"
  "Queue_acquire n q = (r, q') \<Longrightarrow> queue_inv q \<Longrightarrow> queue_inv q'"
  "UnsetQueue n q = (r, q') \<Longrightarrow> queue_inv q \<Longrightarrow> queue_inv q'"
  using UnsetQueue_inv
  by (auto simp: Queue_enter_def Queue_acquire_def split: sum.splits option.splits
      dest: queue_inv_enter queue_inv_acquire)

lemma other_operations_keep:
  assumes "resources q n = Some True"
  shows "Queue_enter name q = (r, q') \<Longrightarrow> resources q' n = Some True"
    and "Queue_acquire name q = (r, q') \<Longrightarrow> resources q' n = Some True"
    and "name \<noteq> n \<Longrightarrow> UnsetQueue name q = (r, q') \<Longrightarrow> resources q' n = Some True"
  using assms by (auto simp: Queue_enter_def queue_enter_def Queue_acquire_def queue_acquire_def UnsetQueue_def
      Let_def split: if_splits option.splits bool.splits)

lemma keeps_on_queue:
  "(\<And>s r q. m (creatingPvsQueue s) = (r, q) \<Longrightarrow> R s (s\<lparr>creatingPvsQueue := q\<rparr>)) \<Longrightarrow> keeps R (on_creating m)"
  "(\<And>s r q. m (deletingPvsQueue s) = (r, q) \<Longrightarrow> R s (s\<lparr>deletingPvsQueue := q\<rparr>)) \<Longrightarrow> keeps R (on_deleting m)"
  by (auto simp: zoom_run intro!: keepsI split: prod.splits)

interpretation queues: queue_steps queues_kept "\<lambda>_. True"
proof
  show "queues_kept s t" if "extends (\<lambda>_. True) s t" for s t
    using extends_fields [OF that] by (simp add: queues_kept_def)
  show "keeps queues_kept (on_creating (Queue_enter name))" "keeps queues_kept (on_creating (Queue_acquire name))"
    "keeps queues_kept (on_creating (UnsetQueue name))" for name
    by (rule keeps_on_queue; simp add: queues_kept_def; blast intro: queue_operations_inv)+
  show "keeps queues_kept (on_deleting (Queue_enter name))" "keeps queues_kept (on_deleting (Queue_acquire name))"
    "keeps queues_kept (on_deleting (UnsetQueue name))" for name
    by (rule keeps_on_queue; simp add: queues_kept_def; blast intro: queue_operations_inv)+
qed (auto simp: queues_kept_def)

interpretation turn: queue_steps "turn_kept n" "\<lambda>m. m \<noteq> n" for n
proof
  show "turn_kept n s t" if "extends (\<lambda>_. True) s t" for s t
    using extends_fields [OF that] by (simp add: turn_kept_def)
  show "keeps (turn_kept n) (on_creating (Queue_enter name))" "keeps (turn_kept n) (on_creating (Queue_acquire name))"
    for name
    by (rule keeps_on_queue; simp add: turn_kept_def; blast intro: other_operations_keep)+
  show "keeps (turn_kept n) (on_creating (UnsetQueue name))" if "name \<noteq> n" for name
    using other_operations_keep(3) [OF _ that] by (intro keeps_on_queue) (auto simp: turn_kept_def)
  have "keeps (turn_kept n) (on_deleting m)" for m :: "(OperateResourceQueue, unit) prog"
    by (rule keeps_on_queue) (simp add: turn_kept_def)
  then show "keeps (turn_kept n) (on_deleting (Queue_enter name))" "keeps (turn_kept n) (on_deleting (Queue_acquire name))"
    "keeps (turn_kept n) (on_deleting (UnsetQueue name))" for name by blast+
qed (auto simp: turn_kept_def)

section \<open>The queues under all handlers\<close>

lemma arrival_keeps_queues: "arrival J drv r \<Longrightarrow> queues.orderly_queue r"
  by (cases rule: arrival.cases)
    (auto intro!: queues.steady_bind queues.steady_rest queues.steady_CreateVolume queues.steady_DeleteVolume
      queues.steady_events)

lemma reachable_queues:
  assumes "(controller_step J drv)\<^sup>*\<^sup>* (newControllerServer h, Map.empty) (s, ts)"
  shows "queue_inv (creatingPvsQueue s) \<and> queue_inv (deletingPvsQueue s)"
  using queues.pool_steady [OF assms arrival_keeps_queues]
  by (simp add: queues_kept_def newControllerServer_def queue_inv_new)


section \<open>The turn of a volume\<close>

text \<open>The requests and events for other volumes.\<close>

inductive arrival_besides :: "string \<Rightarrow> codec \<Rightarrow> driver \<Rightarrow> Volume option handler \<Rightarrow> bool" for n J drv where
  create: "req_Name req \<noteq> n \<Longrightarrow> arrival_besides n J drv (bindT (CreateVolumeT J drv req) (\<lambda>v. retT (Some v)))"
| delete: "arrival_besides n J drv (bindT (DeleteVolumeT vid) (\<lambda>_. retT None))"
| pv_added: "key \<noteq> Inr n \<Longrightarrow> arrival_besides n J drv (bindT (atomT (\<lambda>_. pvAdded key)) (\<lambda>_. retT None))"
| pv_deleted: "arrival_besides n J drv (bindT (atomT (\<lambda>_. pvDeleted key)) (\<lambda>_. retT None))"

lemma arrival_besides_steady:
  "arrival_besides n J drv r \<Longrightarrow> turn.orderly_queue n r" "arrival_besides n J drv r \<Longrightarrow> queues.orderly_queue r"
  by (auto elim!: arrival_besides.cases intro!: turn.steady_bind turn.steady_rest turn.steady_CreateVolume
      turn.steady_DeleteVolume turn.steady_events queues.steady_bind queues.steady_rest queues.steady_CreateVolume
      queues.steady_DeleteVolume queues.steady_events)

text \<open>
  C9. The turn of a shared volume lasts until its persistent volume is added: after every earlier
  request was answered, while one volume is operating in the queue of creations, and as long as
  the requests and events are those of other volumes, it stays the only one and every other shared
  creation waits for the mutex, however the handlers interleave.
\<close>

theorem turn_lasts:
  assumes "(controller_step J drv)\<^sup>*\<^sup>* (newControllerServer h, Map.empty) (s, Map.empty)"
    and "resources (creatingPvsQueue s) n = Some True"
    and "(pstep retry_contract (arrival_besides n J drv))\<^sup>*\<^sup>* (s, Map.empty) (t, ts)"
  shows "resources (creatingPvsQueue t) n = Some True \<and>
    (\<forall>m. resources (creatingPvsQueue t) m = Some True \<longrightarrow> m = n) \<and>
    (\<forall>m. queue_acquire m (creatingPvsQueue t) = None)"
proof -
  have "turn_kept n s t" using turn.pool_steady [OF assms(3) arrival_besides_steady(1)] by simp
  then have op: "resources (creatingPvsQueue t) n = Some True" using assms(2) by (simp add: turn_kept_def)
  have "queues_kept s t" using queues.pool_steady [OF assms(3) arrival_besides_steady(2)] by simp
  then have inv: "queue_inv (creatingPvsQueue t)"
    using reachable_queues [OF assms(1)] by (simp add: queues_kept_def)
  then have "queueMutex (creatingPvsQueue t)" using op by (auto simp: queue_inv_def)
  with inv op show ?thesis by (auto simp: queue_inv_def queue_acquire_def)
qed

section \<open>A shared volume whose turn lasts\<close>

text \<open>After the request of the theory ControllerProps was answered.\<close>

definition after_shared :: sys where
  "after_shared = (newControllerServer [])\<lparr>trace := shared_calls,
     creatingPvsQueue := \<lparr>q_name = ''Creating PVs queue'', resources = [''pvc-1'' \<mapsto> True], queueMutex = True\<rparr>\<rparr>"

lemma shared_answered:
  "(controller_step no_codec example_driver)\<^sup>*\<^sup>* (newControllerServer [], Map.empty) (after_shared, Map.empty)"
proof -
  let ?r = "reply (CreateVolumeT no_codec example_driver shared_request)"
  let ?done = "[0 \<mapsto> Halt (Ret (Some shared_volume))] :: nat \<rightharpoonup> Volume option handler"
  have "exec shared_env ?r (newControllerServer []) = (Ret (Some shared_volume), after_shared)"
    by (simp add: exec_CreateVolumeT shared_create bindP_def retP_def after_shared_def)
  then have "alone shared_env (newControllerServer [], ?r) (after_shared, Halt (Ret (Some shared_volume)))"
    by (rule alone_exec) simp
  from arrive_alone [where good = retry_contract and start = "arrival no_codec example_driver",
      OF rtranclp.rtrancl_refl _ arrival.create retry_contract_quiet this, of Map.empty 0]
  have "(controller_step no_codec example_driver)\<^sup>*\<^sup>* (newControllerServer [], Map.empty) (after_shared, ?done)"
    by simp
  moreover have "controller_step no_codec example_driver (after_shared, ?done) (after_shared, ?done(0 := None))"
    by (rule pstep.leave) simp
  ultimately show ?thesis by (simp add: rtranclp.rtrancl_into_rtrancl)
qed


theorem turn_lasts_witness:
  "queue_acquire ''pvc-2'' \<lparr>q_name = ''Creating PVs queue'', resources = [''pvc-1'' \<mapsto> True], queueMutex = True\<rparr> = None"
proof -
  let ?ts = "[0 \<mapsto> reply (CreateVolumeT no_codec example_driver (plain_request ''pvc-2''))]"
  have "arrival_besides ''pvc-1'' no_codec example_driver
      (reply (CreateVolumeT no_codec example_driver (plain_request ''pvc-2'')))"
    by (rule arrival_besides.create) (simp add: plain_request_def)
  then have "pstep retry_contract (arrival_besides ''pvc-1'' no_codec example_driver)
      (after_shared, Map.empty) (after_shared, ?ts)"
    by (intro pstep.arrive) simp_all
  then have waiting: "(pstep retry_contract (arrival_besides ''pvc-1'' no_codec example_driver))\<^sup>*\<^sup>*
      (after_shared, Map.empty) (after_shared, ?ts)"
    by (rule r_into_rtranclp)
  have "resources (creatingPvsQueue after_shared) ''pvc-1'' = Some True" by (simp add: after_shared_def)
  from turn_lasts [OF shared_answered this waiting] show ?thesis by (simp add: after_shared_def)
qed

end
